(* ===== verification/RustBase.thy ===== *)
theory RustBase
  imports Main "HOL-Library.Word" "HOL-Library.Code_Target_Nat" "HOL-Library.Sublist"
begin

text \<open>
  The prelude: what the Rust sources use of the language and its standard library.

  \<^item> A Rust \<^verbatim>\<open>char\<close> is its code point (\<open>uchar\<close>), a \<^verbatim>\<open>String\<close>/\<^verbatim>\<open>&str\<close> the list of
    its characters (\<open>ustr\<close>); \<open>utf8\<close> is \<^verbatim>\<open>as_bytes\<close>. Literals are written \<open>lit ''...''\<close>.
  \<^item> \<^verbatim>\<open>Result<T, E>\<close> is \<open>('e, 'a) outcome\<close>: \<open>Ok\<close>, \<open>Err\<close>, and \<open>Panic\<close> for a Rust panic, so
    that no abort is hidden. \<open>and_then\<close> is the \<^verbatim>\<open>?\<close> operator.
  \<^item> Code that mutates a store or a database is a function from the state to an outcome and
    the new state, chained with \<open>st_then\<close>.
  \<^item> \<open>outcome_simps\<close> and \<open>keeps_rules\<close> collect the facts that take such chains apart.
\<close>

named_theorems outcome_simps
named_theorems keeps_rules

type_synonym uchar = nat
type_synonym ustr = "uchar list"
type_synonym byte = "8 word"
type_synonym bytes = "byte list"
type_synonym uuid = "128 word"

section \<open>Results\<close>

datatype ('e, 'a) outcome = Ok 'a | Err 'e | Panic

fun and_then :: "('e, 'a) outcome \<Rightarrow> ('a \<Rightarrow> ('e, 'b) outcome) \<Rightarrow> ('e, 'b) outcome" where
  "and_then (Ok a) f = f a"
| "and_then (Err e) f = Err e"
| "and_then Panic f = Panic"

fun map_err :: "('e \<Rightarrow> 'f) \<Rightarrow> ('e, 'a) outcome \<Rightarrow> ('f, 'a) outcome" where
  "map_err f (Ok a) = Ok a"
| "map_err f (Err e) = Err (f e)"
| "map_err f Panic = Panic"

fun ok_or :: "'e \<Rightarrow> 'a option \<Rightarrow> ('e, 'a) outcome" where
  "ok_or e None = Err e"
| "ok_or e (Some a) = Ok a"

fun is_ok :: "('e, 'a) outcome \<Rightarrow> bool" where
  "is_ok (Ok a) = True"
| "is_ok (Err e) = False"
| "is_ok Panic = False"

lemma and_then_Ok [outcome_simps]: "and_then m f = Ok b \<longleftrightarrow> (\<exists>a. m = Ok a \<and> f a = Ok b)"
  by (cases m) auto

lemma and_then_OkE:
  assumes "and_then m f = Ok b"
  obtains a where "m = Ok a" "f a = Ok b"
  using assms by (cases m) auto

lemma and_then_Err [outcome_simps]:
  "and_then m f = Err e \<longleftrightarrow> m = Err e \<or> (\<exists>a. m = Ok a \<and> f a = Err e)"
  by (cases m) auto

lemma and_then_Panic [outcome_simps]:
  "and_then m f = Panic \<longleftrightarrow> m = Panic \<or> (\<exists>a. m = Ok a \<and> f a = Panic)"
  by (cases m) auto

lemma map_err_Ok [outcome_simps]: "map_err f m = Ok b \<longleftrightarrow> m = Ok b"
  by (cases m) auto

lemma map_err_Err [outcome_simps]: "map_err f m = Err e \<longleftrightarrow> (\<exists>e'. m = Err e' \<and> e = f e')"
  by (cases m) auto

lemma map_err_Panic [outcome_simps]: "map_err f m = Panic \<longleftrightarrow> m = Panic"
  by (cases m) auto

lemma ok_or_Ok [outcome_simps]: "ok_or e m = Ok b \<longleftrightarrow> m = Some b"
  by (cases m) auto

lemma ok_or_Err [outcome_simps]: "ok_or e m = Err e' \<longleftrightarrow> m = None \<and> e' = e"
  by (cases m) auto

lemma ok_or_Panic [outcome_simps]: "ok_or e m \<noteq> Panic"
  by (cases m) auto

lemma is_ok_iff: "is_ok m \<longleftrightarrow> (\<exists>a. m = Ok a)"
  by (cases m) auto

section \<open>Stateful code\<close>

type_synonym ('s, 'e, 'a) stateful = "'s \<Rightarrow> ('e, 'a) outcome \<times> 's"

definition st_ok :: "'a \<Rightarrow> ('s, 'e, 'a) stateful" where
  "st_ok a s = (Ok a, s)"

definition st_err :: "'e \<Rightarrow> ('s, 'e, 'a) stateful" where
  "st_err e s = (Err e, s)"

definition st_lift :: "('e, 'a) outcome \<Rightarrow> ('s, 'e, 'a) stateful" where
  "st_lift r s = (r, s)"

definition st_then ::
    "('s, 'e, 'a) stateful \<Rightarrow> ('a \<Rightarrow> ('s, 'e, 'b) stateful) \<Rightarrow> ('s, 'e, 'b) stateful" where
  "st_then m f s =
     (case m s of (r, s') \<Rightarrow>
       (case r of Ok a \<Rightarrow> f a s' | Err e \<Rightarrow> (Err e, s') | Panic \<Rightarrow> (Panic, s')))"

definition st_map_err :: "('e \<Rightarrow> 'f) \<Rightarrow> ('s, 'e, 'a) stateful \<Rightarrow> ('s, 'f, 'a) stateful" where
  "st_map_err f m s = (case m s of (r, s') \<Rightarrow> (map_err f r, s'))"

text \<open>\<open>st_keeps I m\<close>: on every exit of \<open>m\<close>, errors included, the invariant still holds.\<close>

definition st_keeps :: "('s \<Rightarrow> bool) \<Rightarrow> ('s, 'e, 'a) stateful \<Rightarrow> bool" where
  "st_keeps I m \<longleftrightarrow> (\<forall>s. I s \<longrightarrow> I (snd (m s)))"

lemma st_keepsI: "(\<And>s. I s \<Longrightarrow> I (snd (m s))) \<Longrightarrow> st_keeps I m"
  by (simp add: st_keeps_def)

lemma st_keepsD: "st_keeps I m \<Longrightarrow> I s \<Longrightarrow> m s = (r, s') \<Longrightarrow> I s'"
  by (force simp: st_keeps_def)

lemma st_keeps_snd: "st_keeps I m \<Longrightarrow> I s \<Longrightarrow> I (snd (m s))"
  by (simp add: st_keeps_def)

lemma st_keeps_ok [keeps_rules]: "st_keeps I (st_ok a)"
  by (simp add: st_keeps_def st_ok_def)

lemma st_keeps_err [keeps_rules]: "st_keeps I (st_err e)"
  by (simp add: st_keeps_def st_err_def)

lemma st_keeps_lift [keeps_rules]: "st_keeps I (st_lift r)"
  by (simp add: st_keeps_def st_lift_def)

lemma st_keeps_then [keeps_rules]:
  "st_keeps I m \<Longrightarrow> (\<And>a. st_keeps I (f a)) \<Longrightarrow> st_keeps I (st_then m f)"
  by (fastforce simp: st_keeps_def st_then_def split: prod.splits outcome.splits)

lemma st_keeps_if [keeps_rules]:
  "st_keeps I m \<Longrightarrow> st_keeps I n \<Longrightarrow> st_keeps I (if b then m else n)"
  by simp

lemma st_keeps_option:
  "st_keeps I m \<Longrightarrow> (\<And>a. st_keeps I (f a)) \<Longrightarrow> st_keeps I (case v of None \<Rightarrow> m | Some a \<Rightarrow> f a)"
  by (cases v) simp_all

lemma st_keeps_map_err [keeps_rules]: "st_keeps I m \<Longrightarrow> st_keeps I (st_map_err f m)"
  by (fastforce simp: st_keeps_def st_map_err_def split: prod.splits)

lemma st_then_Ok [outcome_simps]:
  "st_then m f s = (Ok b, s') \<longleftrightarrow> (\<exists>a s1. m s = (Ok a, s1) \<and> f a s1 = (Ok b, s'))"
  by (auto simp: st_then_def split: prod.splits outcome.splits)

lemma st_then_Err [outcome_simps]:
  "st_then m f s = (Err e, s') \<longleftrightarrow>
     m s = (Err e, s') \<or> (\<exists>a s1. m s = (Ok a, s1) \<and> f a s1 = (Err e, s'))"
  by (auto simp: st_then_def split: prod.splits outcome.splits)

lemma st_then_Panic [outcome_simps]:
  "st_then m f s = (Panic, s') \<longleftrightarrow>
     m s = (Panic, s') \<or> (\<exists>a s1. m s = (Ok a, s1) \<and> f a s1 = (Panic, s'))"
  by (auto simp: st_then_def split: prod.splits outcome.splits)

lemma st_map_err_cases [outcome_simps]:
  "st_map_err f m s = (Ok a, s') \<longleftrightarrow> m s = (Ok a, s')"
  "st_map_err f m s = (Err e, s') \<longleftrightarrow> (\<exists>e'. m s = (Err e', s') \<and> e = f e')"
  "st_map_err f m s = (Panic, s') \<longleftrightarrow> m s = (Panic, s')"
  by (auto simp: st_map_err_def outcome_simps split: prod.splits)

lemma st_ok_iff [outcome_simps]: "st_ok a s = (r, s') \<longleftrightarrow> r = Ok a \<and> s' = s"
  by (auto simp: st_ok_def)

lemma st_err_iff [outcome_simps]: "st_err e s = (r, s') \<longleftrightarrow> r = Err e \<and> s' = s"
  by (auto simp: st_err_def)

lemma st_lift_iff [outcome_simps]: "st_lift r s = (r', s') \<longleftrightarrow> r = r' \<and> s' = s"
  by (auto simp: st_lift_def)

lemma st_then_step [simp]: "m s = (Ok a, s1) \<Longrightarrow> st_then m f s = f a s1"
  by (simp add: st_then_def)

lemma st_then_fail [simp]: "m s = (Err e, s1) \<Longrightarrow> st_then m f s = (Err e, s1)"
  by (simp add: st_then_def)

lemma st_then_panic [simp]: "m s = (Panic, s1) \<Longrightarrow> st_then m f s = (Panic, s1)"
  by (simp add: st_then_def)

section \<open>Characters and strings\<close>

definition lit :: "string \<Rightarrow> ustr" where
  "lit s = map of_char s"

lemma lit_inj [simp]: "lit a = lit b \<longleftrightarrow> a = b"
  by (simp add: lit_def inj_map_eq_map inj_def)

lemma lit_Nil [simp]: "lit [] = []" and lit_eq_Nil [simp]: "lit s = [] \<longleftrightarrow> s = []"
  by (simp_all add: lit_def)

lemma lit_append: "lit (a @ b) = lit a @ lit b"
  by (simp add: lit_def)

text \<open>Unicode scalar values, and the classes the code asks about.\<close>

definition valid_char :: "uchar \<Rightarrow> bool" where
  "valid_char c \<longleftrightarrow> c < 0xD800 \<or> (0xE000 \<le> c \<and> c < 0x110000)"

text \<open>\<^verbatim>\<open>char::is_whitespace\<close>: the Unicode property \<^verbatim>\<open>White_Space\<close>.\<close>

definition is_whitespace :: "uchar \<Rightarrow> bool" where
  "is_whitespace c \<longleftrightarrow>
     (9 \<le> c \<and> c \<le> 13) \<or> c = 32 \<or> c = 0x85 \<or> c = 0xA0 \<or> c = 0x1680
     \<or> (0x2000 \<le> c \<and> c \<le> 0x200A) \<or> c = 0x2028 \<or> c = 0x2029 \<or> c = 0x202F
     \<or> c = 0x205F \<or> c = 0x3000"

text \<open>\<^verbatim>\<open>char::is_control\<close>: the Unicode category \<^verbatim>\<open>Cc\<close>.\<close>

definition is_control :: "uchar \<Rightarrow> bool" where
  "is_control c \<longleftrightarrow> c \<le> 31 \<or> (127 \<le> c \<and> c \<le> 159)"

definition is_ascii_digit :: "uchar \<Rightarrow> bool" where
  "is_ascii_digit c \<longleftrightarrow> 48 \<le> c \<and> c \<le> 57"

definition is_ascii_lowercase :: "uchar \<Rightarrow> bool" where
  "is_ascii_lowercase c \<longleftrightarrow> 97 \<le> c \<and> c \<le> 122"

definition is_ascii_uppercase :: "uchar \<Rightarrow> bool" where
  "is_ascii_uppercase c \<longleftrightarrow> 65 \<le> c \<and> c \<le> 90"

definition is_ascii_alphanumeric :: "uchar \<Rightarrow> bool" where
  "is_ascii_alphanumeric c \<longleftrightarrow>
     is_ascii_digit c \<or> is_ascii_lowercase c \<or> is_ascii_uppercase c"

definition to_ascii_lowercase :: "ustr \<Rightarrow> ustr" where
  "to_ascii_lowercase = map (\<lambda>c. if is_ascii_uppercase c then c + 32 else c)"

lemmas char_class_defs =
  is_whitespace_def is_control_def is_ascii_digit_def is_ascii_lowercase_def
  is_ascii_uppercase_def is_ascii_alphanumeric_def

subsection \<open>Trimming\<close>

definition trim_by :: "(uchar \<Rightarrow> bool) \<Rightarrow> ustr \<Rightarrow> ustr" where
  "trim_by p s = rev (dropWhile p (rev (dropWhile p s)))"

text \<open>\<^verbatim>\<open>str::trim\<close>.\<close>

definition trim :: "ustr \<Rightarrow> ustr" where
  "trim s = trim_by is_whitespace s"

lemma trim_by_Nil [simp]: "trim_by p [] = []"
  by (simp add: trim_by_def)

lemma set_trim_by: "set (trim_by p s) \<subseteq> set s"
  by (auto simp: trim_by_def dest!: set_dropWhileD)

lemma length_trim_by: "length (trim_by p s) \<le> length s"
  unfolding trim_by_def
  by (metis le_trans length_dropWhile_le length_rev)

lemma trim_by_empty_iff: "trim_by p s = [] \<longleftrightarrow> (\<forall>c\<in>set s. p c)"
  by (auto simp: trim_by_def dropWhile_eq_Nil_conv dest: set_dropWhileD)
     (metis dropWhile_eq_Nil_conv dropWhile_idem hd_dropWhile list.set_sel(1))

lemma trim_by_fixes: "s = [] \<or> (\<not> p (hd s) \<and> \<not> p (last s)) \<Longrightarrow> trim_by p s = s"
proof (cases "s = []")
  case False
  assume "s = [] \<or> (\<not> p (hd s) \<and> \<not> p (last s))"
  with False have "dropWhile p s = s" "dropWhile p (rev s) = rev s"
    by (simp_all add: dropWhile_eq_self_iff hd_rev)
  then show ?thesis by (simp add: trim_by_def)
qed simp

lemma trim_by_last: "trim_by p s \<noteq> [] \<Longrightarrow> \<not> p (last (trim_by p s))"
  by (simp add: trim_by_def last_rev hd_dropWhile)

lemma trim_by_hd: "trim_by p s \<noteq> [] \<Longrightarrow> \<not> p (hd (trim_by p s))"
proof -
  assume ne: "trim_by p s \<noteq> []"
  let ?d = "dropWhile p s"
  have "suffix (dropWhile p (rev ?d)) (rev ?d)" by (rule suffix_dropWhile)
  then have pre: "prefix (trim_by p s) ?d"
    by (simp add: trim_by_def suffix_to_prefix)
  then have "hd (trim_by p s) = hd ?d" using ne by (auto simp: prefix_def)
  moreover have "?d \<noteq> []" using pre ne by (cases ?d) auto
  ultimately show ?thesis using hd_dropWhile [of p s] by simp
qed

lemma trim_by_idem [simp]: "trim_by p (trim_by p s) = trim_by p s"
  by (rule trim_by_fixes) (auto simp: trim_by_hd trim_by_last)

lemma trim_idem [simp]: "trim (trim s) = trim s"
  by (simp add: trim_def)

lemma set_trim: "set (trim s) \<subseteq> set s"
  by (simp add: trim_def set_trim_by)

lemma length_trim: "length (trim s) \<le> length s"
  by (simp add: trim_def length_trim_by)

subsection \<open>Splitting and joining\<close>

text \<open>\<^verbatim>\<open>str::split\<close> on one character.\<close>

fun split_on :: "uchar \<Rightarrow> ustr \<Rightarrow> ustr list" where
  "split_on d [] = [[]]"
| "split_on d (c # cs) =
     (if c = d then [] # split_on d cs
      else (case split_on d cs of [] \<Rightarrow> [[c]] | seg # segs \<Rightarrow> (c # seg) # segs))"

text \<open>\<^verbatim>\<open>rsplit(pattern).next()\<close>: what follows the last separator.\<close>

definition last_segment :: "(uchar \<Rightarrow> bool) \<Rightarrow> ustr \<Rightarrow> ustr" where
  "last_segment p s = rev (takeWhile (\<lambda>c. \<not> p c) (rev s))"

text \<open>\<^verbatim>\<open>str::split_once\<close>.\<close>

fun split_once :: "uchar \<Rightarrow> ustr \<Rightarrow> (ustr \<times> ustr) option" where
  "split_once d [] = None"
| "split_once d (c # cs) =
     (if c = d then Some ([], cs)
      else map_option (\<lambda>(a, b). (c # a, b)) (split_once d cs))"

fun strip_prefix :: "ustr \<Rightarrow> ustr \<Rightarrow> ustr option" where
  "strip_prefix [] s = Some s"
| "strip_prefix (p # ps) [] = None"
| "strip_prefix (p # ps) (c # cs) = (if p = c then strip_prefix ps cs else None)"

fun str_join :: "ustr \<Rightarrow> ustr list \<Rightarrow> ustr" where
  "str_join d [] = []"
| "str_join d [x] = x"
| "str_join d (x # y # ys) = x @ d @ str_join d (y # ys)"

lemma split_on_not_Nil [simp]: "split_on d s \<noteq> []"
  by (induction s) (auto split: list.splits)

lemma split_on_clean: "d \<notin> set s \<Longrightarrow> split_on d s = [s]"
  by (induction s) auto

lemma split_on_append: "d \<notin> set a \<Longrightarrow> split_on d (a @ d # b) = a # split_on d b"
  by (induction a) auto

lemma split_on_segments: "seg \<in> set (split_on d s) \<Longrightarrow> d \<notin> set seg \<and> set seg \<subseteq> set s"
  by (induction s arbitrary: seg) (fastforce split: list.splits if_splits)+

lemma str_join_Cons: "xs \<noteq> [] \<Longrightarrow> str_join d (x # xs) = x @ d @ str_join d xs"
  by (cases xs) auto

lemma str_join_hd: "str_join d ((c # seg) # segs) = c # str_join d (seg # segs)"
  by (cases segs) auto

lemma join_split_on [simp]: "str_join [d] (split_on d s) = s"
proof (induction s)
  case (Cons c cs)
  show ?case
  proof (cases "c = d")
    case True
    with Cons show ?thesis by (simp add: str_join_Cons)
  next
    case False
    with Cons show ?thesis
      by (cases "split_on d cs") (auto simp: str_join_hd simp del: str_join.simps)
  qed
qed simp

lemma split_on_join:
  "segs \<noteq> [] \<Longrightarrow> (\<forall>seg\<in>set segs. d \<notin> set seg) \<Longrightarrow> split_on d (str_join [d] segs) = segs"
  by (induction "[d]" segs rule: str_join.induct) (auto simp: split_on_append split_on_clean)

lemma split_on_split: "split_on d (a @ d # b) = split_on d a @ split_on d b"
  by (induction a) (auto split: list.splits)

lemma last_segment_split: "last_segment (\<lambda>c. c = d) s = last (split_on d s)"
proof (cases "d \<in> set s")
  case True
  then obtain a b where s: "s = a @ d # b" and b: "d \<notin> set b"
    by (auto dest: split_list_last)
  from b have "takeWhile (\<lambda>c. c \<noteq> d) (rev b @ d # rev a) = rev b"
    by (auto simp: takeWhile_tail takeWhile_append)
  with s b show ?thesis
    by (simp add: last_segment_def split_on_split split_on_clean)
next
  case False
  then have "takeWhile (\<lambda>c. c \<noteq> d) (rev s) = rev s"
    by (subst takeWhile_eq_all_conv) auto
  with False show ?thesis
    by (simp only: last_segment_def split_on_clean rev_rev_ident last.simps simp_thms if_True)
qed

lemma last_segment_clean: "c \<in> set (last_segment p s) \<Longrightarrow> \<not> p c \<and> c \<in> set s"
  by (auto simp: last_segment_def dest: set_takeWhileD)

lemma split_once_Some:
  "split_once d s = Some (a, b) \<longleftrightarrow> s = a @ d # b \<and> d \<notin> set a"
proof (induction s arbitrary: a)
  case (Cons c cs)
  show ?case
  proof (cases "c = d")
    case True
    then show ?thesis by (cases a) auto
  next
    case False
    then have "split_once d (c # cs) = Some (a, b) \<longleftrightarrow>
        (\<exists>a'. a = c # a' \<and> split_once d cs = Some (a', b))"
      by auto
    also have "\<dots> \<longleftrightarrow> c # cs = a @ d # b \<and> d \<notin> set a"
      unfolding Cons.IH using False by (cases a) auto
    finally show ?thesis .
  qed
qed simp

lemma split_once_None: "split_once d s = None \<longleftrightarrow> d \<notin> set s"
  by (induction s) auto

lemma strip_prefix_Some: "strip_prefix p s = Some r \<longleftrightarrow> s = p @ r"
  by (induction p s rule: strip_prefix.induct) auto

lemma strip_prefix_append [simp]: "strip_prefix p (p @ r) = Some r"
  by (simp add: strip_prefix_Some)

subsection \<open>Numbers in text\<close>

text \<open>\<^verbatim>\<open>format!("{n}")\<close> for an unsigned integer.\<close>

fun dec :: "nat \<Rightarrow> ustr" where
  "dec n = (if n < 10 then [48 + n] else dec (n div 10) @ [48 + n mod 10])"

declare dec.simps [simp del]

lemma dec_digits: "c \<in> set (dec n) \<Longrightarrow> is_ascii_digit c"
proof (induction n rule: dec.induct)
  case (1 n)
  then show ?case
    by (cases "n < 10") (auto simp: dec.simps [of n] is_ascii_digit_def)
qed

lemma dec_not_Nil [simp]: "dec n \<noteq> []"
  by (subst dec.simps) simp

text \<open>\<^verbatim>\<open>str::parse::<u64>\<close>: an optional plus sign, at least one digit, nothing else, no overflow.\<close>

type_synonym u64 = "64 word"

definition digits_value :: "ustr \<Rightarrow> nat" where
  "digits_value s = foldl (\<lambda>n c. 10 * n + (c - 48)) 0 s"

definition parse_u64 :: "ustr \<Rightarrow> u64 option" where
  "parse_u64 s =
     (let digits = (case s of c # cs \<Rightarrow> if c = 43 then cs else s | [] \<Rightarrow> [])
      in if digits = [] \<or> \<not> list_all is_ascii_digit digits then None
         else if digits_value digits < 2 ^ 64 then Some (of_nat (digits_value digits)) else None)"

lemma digits_value_dec: "digits_value (dec n) = n"
proof (induction n rule: dec.induct)
  case (1 n)
  then show ?case
    by (cases "n < 10") (simp_all add: dec.simps [of n] digits_value_def)
qed

lemma parse_u64_dec: "n < 2 ^ 64 \<Longrightarrow> parse_u64 (dec n) = Some (of_nat n)"
proof -
  assume n: "n < 2 ^ 64"
  obtain c cs where d: "dec n = c # cs" using dec_not_Nil by (cases "dec n") auto
  have digits: "list_all is_ascii_digit (dec n)" by (auto simp: list_all_iff dest: dec_digits)
  then have "c \<noteq> 43" using d by (auto simp: is_ascii_digit_def)
  with d digits digits_value_dec [of n] n show ?thesis by (simp add: parse_u64_def)
qed

text \<open>One hexadecimal digit, lower and upper case; \<^verbatim>\<open>{byte:02x}\<close> and \<^verbatim>\<open>{byte:02X}\<close>.\<close>

definition hex_digit :: "nat \<Rightarrow> uchar" where
  "hex_digit n = (if n < 10 then 48 + n else 87 + n)"

definition hex_digit_upper :: "nat \<Rightarrow> uchar" where
  "hex_digit_upper n = (if n < 10 then 48 + n else 55 + n)"

definition hex_byte :: "byte \<Rightarrow> ustr" where
  "hex_byte b = [hex_digit (unat b div 16), hex_digit (unat b mod 16)]"

definition hex_byte_upper :: "byte \<Rightarrow> ustr" where
  "hex_byte_upper b = [hex_digit_upper (unat b div 16), hex_digit_upper (unat b mod 16)]"

lemma unat_byte_lt: "unat (b :: byte) < 256"
  using unsigned_less [of b] by simp

lemma hex_digit_inj: "m < 16 \<Longrightarrow> n < 16 \<Longrightarrow> hex_digit m = hex_digit n \<Longrightarrow> m = n"
  by (auto simp: hex_digit_def split: if_splits)

lemma hex_byte_inj [simp]: "hex_byte a = hex_byte b \<longleftrightarrow> a = b"
proof
  assume "hex_byte a = hex_byte b"
  then have "unat a div 16 = unat b div 16" "unat a mod 16 = unat b mod 16"
    using unat_byte_lt [of a] unat_byte_lt [of b]
    by (auto simp: hex_byte_def intro!: hex_digit_inj)
  then have "unat a = unat b" by (metis div_mult_mod_eq)
  then show "a = b" by (rule unsigned_word_eqI)
qed simp

subsection \<open>UTF-8\<close>

text \<open>No character lies beyond \<open>0x10FFFF\<close>; the byte of the last branch occurs in no UTF-8 text.\<close>

definition utf8_units :: "uchar \<Rightarrow> nat list" where
  "utf8_units c =
     (if c < 0x80 then [c]
      else if c < 0x800 then [0xC0 + c div 64, 0x80 + c mod 64]
      else if c < 0x10000 then [0xE0 + c div 4096, 0x80 + c div 64 mod 64, 0x80 + c mod 64]
      else if c < 0x110000 then
        [0xF0 + c div 262144, 0x80 + c div 4096 mod 64, 0x80 + c div 64 mod 64, 0x80 + c mod 64]
      else [0xFF])"

definition utf8_char :: "uchar \<Rightarrow> bytes" where
  "utf8_char c = map of_nat (utf8_units c)"

definition utf8 :: "ustr \<Rightarrow> bytes" where
  "utf8 s = concat (map utf8_char s)"

lemma utf8_simps [simp]: "utf8 [] = []" "utf8 (c # cs) = utf8_char c @ utf8 cs"
  "utf8 (a @ b) = utf8 a @ utf8 b"
  by (simp_all add: utf8_def)

lemma utf8_char_not_Nil [simp]: "utf8_char c \<noteq> []"
  by (simp add: utf8_char_def utf8_units_def)

lemma utf8_char_ascii: "c < 128 \<Longrightarrow> utf8_char c = [of_nat c]"
  by (simp add: utf8_char_def utf8_units_def)

lemma utf8_ascii: "(\<forall>c\<in>set s. c < 128) \<Longrightarrow> utf8 s = map of_nat s"
  by (induction s) (auto simp: utf8_char_ascii)

lemma unat_of_nat_byte: "n < 256 \<Longrightarrow> unat (of_nat n :: byte) = n"
  by (simp add: unat_of_nat take_bit_eq_mod)

text \<open>A character outside ASCII encodes to bytes outside ASCII, so a test on the bytes that
  accepts ASCII bytes only is a test on the characters.\<close>

lemma utf8_units_non_ascii:
  "128 \<le> c \<Longrightarrow> n \<in> set (utf8_units c) \<Longrightarrow> 128 \<le> n \<and> n < 256"
  by (auto simp: utf8_units_def split: if_splits)

lemma utf8_char_non_ascii:
  "128 \<le> c \<Longrightarrow> b \<in> set (utf8_char c) \<Longrightarrow> 128 \<le> unat b"
  by (auto simp: utf8_char_def unat_of_nat_byte dest: utf8_units_non_ascii)

lemma utf8_all_ascii:
  assumes ascii: "\<And>n. p n \<Longrightarrow> n < 128"
  shows "(\<forall>b\<in>set (utf8 s). p (unat b)) \<longleftrightarrow> (\<forall>c\<in>set s. p c)"
proof (induction s)
  case (Cons c cs)
  have "(\<forall>b\<in>set (utf8_char c). p (unat b)) \<longleftrightarrow> p c"
  proof (cases "c < 128")
    case True
    then show ?thesis by (simp add: utf8_char_ascii unat_of_nat_byte)
  next
    case False
    then have "\<not> p c" using ascii by fastforce
    moreover have "\<exists>b\<in>set (utf8_char c). \<not> p (unat b)"
      using False utf8_char_non_ascii [of c "hd (utf8_char c)"]
        ascii [of "unat (hd (utf8_char c))"]
      by (intro bexI [of _ "hd (utf8_char c)"]) auto
    ultimately show ?thesis by blast
  qed
  with Cons show ?case by auto
qed simp

text \<open>\<^verbatim>\<open>&s[..n]\<close> counts bytes; \<open>None\<close> is the panic of an offset past the end or inside a
  character.\<close>

fun slice_to :: "nat \<Rightarrow> ustr \<Rightarrow> ustr option" where
  "slice_to n [] = (if n = 0 then Some [] else None)"
| "slice_to n (c # cs) =
     (if n = 0 then Some []
      else if length (utf8_char c) \<le> n
        then map_option (\<lambda>r. c # r) (slice_to (n - length (utf8_char c)) cs)
      else None)"

lemma slice_to_ascii:
  "(\<forall>c\<in>set s. c < 128) \<Longrightarrow> n \<le> length s \<Longrightarrow> slice_to n s = Some (take n s)"
proof (induction s arbitrary: n)
  case (Cons c cs)
  then show ?case
    by (cases n) (auto simp: utf8_char_ascii)
qed simp

lemma find_SomeD: "find P xs = Some x \<Longrightarrow> x \<in> set xs \<and> P x"
  by (induction xs) (auto split: if_splits)

lemma find_NoneD: "find P xs = None \<Longrightarrow> x \<in> set xs \<Longrightarrow> \<not> P x"
  by (induction xs) (auto split: if_splits)

primrec find_map :: "('a \<Rightarrow> 'b option) \<Rightarrow> 'a list \<Rightarrow> 'b option" where
  "find_map f [] = None"
| "find_map f (x # xs) = (case f x of None \<Rightarrow> find_map f xs | Some y \<Rightarrow> Some y)"

lemma find_map_Some: "find_map f xs = Some y \<Longrightarrow> \<exists>x\<in>set xs. f x = Some y"
  by (induction xs) (auto split: option.splits)

lemma find_map_None: "find_map f xs = None \<longleftrightarrow> (\<forall>x\<in>set xs. f x = None)"
  by (induction xs) (auto split: option.splits)

lemma utf8_length_ge: "length s \<le> length (utf8 s)"
proof (induction s)
  case (Cons c cs)
  have "Suc 0 \<le> length (utf8_char c)" by (simp add: Suc_le_eq)
  with Cons show ?case by simp
qed simp

end
