(* ===== verification/HashPermits.thy ===== *)
theory HashPermits
  imports RustBase
begin

text \<open>
  The two permits for a password hash (\<^verbatim>\<open>LoginThrottle::hash_permit\<close> in
  \<^verbatim>\<open>crates/otdel-api/src/auth/throttle.rs\<close>) and the part of \<^verbatim>\<open>login\<close>
  (\<^verbatim>\<open>crates/otdel-api/src/routes/session.rs\<close>) that takes one, moves it into the blocking task and
  waits for the verdict, as the steps of any number of concurrent sign-ins. A request can be
  dropped at each of its two waits; the blocking task cannot.

  The semaphore and the blocking pool are tokio's: a permit is taken when one is free, a
  permit that is dropped is free again, a task that was spawned runs to its end although
  nobody waits for it any more.
\<close>

definition max_concurrent_password_hashes :: nat where
  "max_concurrent_password_hashes = 2"

text \<open>
  A sign-in waits for a permit, then for the blocking task that holds the permit. Dropping the
  request in the second wait detaches the task. The task ends with the verdict of the
  verification, or with none when it panicked (unwinding drops the permit too).
\<close>

datatype login_phase =
    AwaitingPermit
  | Hashing
  | HashingDetached
  | Verified "bool option"
  | Dropped

record permits =
  free_slots :: nat
  logins :: "login_phase list"

definition permits_new :: permits where
  "permits_new = \<lparr>free_slots = max_concurrent_password_hashes, logins = []\<rparr>"

fun holds_permit :: "login_phase \<Rightarrow> bool" where
  "holds_permit Hashing = True"
| "holds_permit HashingDetached = True"
| "holds_permit AwaitingPermit = False"
| "holds_permit (Verified v) = False"
| "holds_permit Dropped = False"

definition hashes_running :: "permits \<Rightarrow> nat" where
  "hashes_running s = length (filter holds_permit (logins s))"

text \<open>\<^verbatim>\<open>set_phase\<close>: the number of free permits and the phase of one sign-in after a step.\<close>

definition set_phase :: "nat \<Rightarrow> login_phase \<Rightarrow> nat \<Rightarrow> permits \<Rightarrow> permits" where
  "set_phase i p free s = \<lparr>free_slots = free, logins = (logins s)[i := p]\<rparr>"

inductive permit_step :: "permits \<Rightarrow> permits \<Rightarrow> bool" where
  arrive: "permit_step s (s\<lparr>logins := logins s @ [AwaitingPermit]\<rparr>)"
| acquire: "i < length (logins s) \<Longrightarrow> logins s ! i = AwaitingPermit \<Longrightarrow> free_slots s = Suc n \<Longrightarrow>
    permit_step s (set_phase i Hashing n s)"
| drop_waiting: "i < length (logins s) \<Longrightarrow> logins s ! i = AwaitingPermit \<Longrightarrow>
    permit_step s (set_phase i Dropped (free_slots s) s)"
| drop_hashing: "i < length (logins s) \<Longrightarrow> logins s ! i = Hashing \<Longrightarrow>
    permit_step s (set_phase i HashingDetached (free_slots s) s)"
| finish: "i < length (logins s) \<Longrightarrow> logins s ! i = Hashing \<Longrightarrow>
    permit_step s (set_phase i (Verified v) (Suc (free_slots s)) s)"
| finish_detached: "i < length (logins s) \<Longrightarrow> logins s ! i = HashingDetached \<Longrightarrow>
    permit_step s (set_phase i Dropped (Suc (free_slots s)) s)"

abbreviation permit_steps :: "permits \<Rightarrow> permits \<Rightarrow> bool" where
  "permit_steps \<equiv> permit_step\<^sup>*\<^sup>*"

definition permits_reachable :: "permits \<Rightarrow> bool" where
  "permits_reachable s \<longleftrightarrow> permit_steps permits_new s"

inductive_cases permit_stepE: "permit_step s s'"

section \<open>Permits and hashes balance\<close>

lemma filter_length_update:
  "i < length xs \<Longrightarrow>
   length (filter P (xs[i := y])) + (if P (xs ! i) then 1 else 0)
     = length (filter P xs) + (if P y then 1 else 0)"
proof (induction xs arbitrary: i)
  case (Cons x xs)
  show ?case
  proof (cases i)
    case (Suc k)
    with Cons.IH [of k] Cons.prems show ?thesis by (cases "P x") simp_all
  qed simp
qed simp

definition permits_balanced :: "permits \<Rightarrow> bool" where
  "permits_balanced s \<longleftrightarrow> free_slots s + hashes_running s = max_concurrent_password_hashes"

lemma permits_balanced_new: "permits_balanced permits_new"
  by (simp add: permits_balanced_def permits_new_def hashes_running_def)

lemma hashes_running_set_phase:
  "i < length (logins s) \<Longrightarrow>
   hashes_running (set_phase i p n s) + (if holds_permit (logins s ! i) then 1 else 0)
     = hashes_running s + (if holds_permit p then 1 else 0)"
  using filter_length_update [of i "logins s" holds_permit p]
  by (simp add: hashes_running_def set_phase_def)

lemma free_slots_set_phase [simp]: "free_slots (set_phase i p n s) = n"
  by (simp add: set_phase_def)

lemma logins_set_phase [simp]: "logins (set_phase i p n s) = (logins s)[i := p]"
  by (simp add: set_phase_def)

lemma permits_balanced_step: "permit_step s s' \<Longrightarrow> permits_balanced s \<Longrightarrow> permits_balanced s'"
proof (induction rule: permit_step.induct)
  case (arrive s)
  then show ?case by (simp add: permits_balanced_def hashes_running_def)
next
  case (acquire i s n)
  with hashes_running_set_phase [of i s Hashing n] show ?case by (simp add: permits_balanced_def)
next
  case (drop_waiting i s)
  with hashes_running_set_phase [of i s Dropped "free_slots s"] show ?case
    by (simp add: permits_balanced_def)
next
  case (drop_hashing i s)
  with hashes_running_set_phase [of i s HashingDetached "free_slots s"] show ?case
    by (simp add: permits_balanced_def)
next
  case (finish i s v)
  with hashes_running_set_phase [of i s "Verified v" "Suc (free_slots s)"] show ?case
    by (simp add: permits_balanced_def)
next
  case (finish_detached i s)
  with hashes_running_set_phase [of i s Dropped "Suc (free_slots s)"] show ?case
    by (simp add: permits_balanced_def)
qed

lemma permits_reachable_balanced: "permits_reachable s \<Longrightarrow> permits_balanced s"
  unfolding permits_reachable_def
  by (induction rule: rtranclp_induct) (auto intro: permits_balanced_new permits_balanced_step)

section \<open>Progress\<close>

lemma some_hash_finishes:
  assumes "i < length (logins s)" "holds_permit (logins s ! i)"
  obtains p where "permit_step s (set_phase i p (Suc (free_slots s)) s)" "\<not> holds_permit p"
proof (cases "logins s ! i")
  case Hashing
  with assms finish [of i s None] that show ?thesis by simp
next
  case HashingDetached
  with assms finish_detached [of i s] that show ?thesis by simp
qed (use assms in auto)

text \<open>
  C31: At most two password hashes run at once, in every reachable state of any number of
  concurrent sign-ins, and every permit is either free or held by a running hash: a request that is
  dropped neither frees the permit of its hash early nor loses it.
\<close>

theorem password_hashes_bounded:
  assumes "permits_reachable s"
  shows "hashes_running s \<le> 2 \<and> free_slots s = 2 - hashes_running s"
  using permits_reachable_balanced [OF assms]
  by (simp add: permits_balanced_def max_concurrent_password_hashes_def)

definition sample_permits :: permits where
  "sample_permits = \<lparr>free_slots = 1, logins = [HashingDetached]\<rparr>"

lemma sample_permits_reachable: "permits_reachable sample_permits"
proof -
  have "permit_step permits_new \<lparr>free_slots = 2, logins = [AwaitingPermit]\<rparr>"
    using arrive [of permits_new] by (simp add: permits_new_def max_concurrent_password_hashes_def)
  moreover have "permit_step \<lparr>free_slots = 2, logins = [AwaitingPermit]\<rparr>
      \<lparr>free_slots = 1, logins = [Hashing]\<rparr>"
    using acquire [of 0 "\<lparr>free_slots = 2, logins = [AwaitingPermit]\<rparr>" 1]
    by (simp add: set_phase_def)
  moreover have "permit_step \<lparr>free_slots = 1, logins = [Hashing]\<rparr> sample_permits"
    using drop_hashing [of 0 "\<lparr>free_slots = 1, logins = [Hashing]\<rparr>"]
    by (simp add: set_phase_def sample_permits_def)
  ultimately show ?thesis unfolding permits_reachable_def
    by (blast intro: rtranclp.rtrancl_into_rtrancl)
qed

lemma password_hashes_bounded_witness: "hashes_running sample_permits \<le> 2"
  using password_hashes_bounded [OF sample_permits_reachable] by simp



end
