(* ===== verification/AppErrors.thy ===== *)
theory AppErrors
  imports RustBase
begin

text \<open>
  \<^verbatim>\<open>crates/otdel-core/src/error.rs\<close>: the error codes of the API, their wire names and HTTP
  statuses, and the error value every layer turns its failures into.
\<close>

datatype error_code =
    ValidationFailed | BadRequest | Unauthorized | InvalidCsrfToken | Forbidden | NotFound
  | MethodNotAllowed | Conflict | PayloadTooLarge | UnsupportedMediaType | RateLimited
  | ServiceUnavailable | Internal

fun error_code_as_str :: "error_code \<Rightarrow> ustr" where
  "error_code_as_str ValidationFailed = lit ''validation_failed''"
| "error_code_as_str BadRequest = lit ''bad_request''"
| "error_code_as_str Unauthorized = lit ''unauthorized''"
| "error_code_as_str InvalidCsrfToken = lit ''invalid_csrf_token''"
| "error_code_as_str Forbidden = lit ''forbidden''"
| "error_code_as_str NotFound = lit ''not_found''"
| "error_code_as_str MethodNotAllowed = lit ''method_not_allowed''"
| "error_code_as_str Conflict = lit ''conflict''"
| "error_code_as_str PayloadTooLarge = lit ''payload_too_large''"
| "error_code_as_str UnsupportedMediaType = lit ''unsupported_media_type''"
| "error_code_as_str RateLimited = lit ''rate_limited''"
| "error_code_as_str ServiceUnavailable = lit ''service_unavailable''"
| "error_code_as_str Internal = lit ''internal_error''"

fun error_code_http_status :: "error_code \<Rightarrow> nat" where
  "error_code_http_status ValidationFailed = 422"
| "error_code_http_status BadRequest = 400"
| "error_code_http_status Unauthorized = 401"
| "error_code_http_status InvalidCsrfToken = 403"
| "error_code_http_status Forbidden = 403"
| "error_code_http_status NotFound = 404"
| "error_code_http_status MethodNotAllowed = 405"
| "error_code_http_status Conflict = 409"
| "error_code_http_status PayloadTooLarge = 413"
| "error_code_http_status UnsupportedMediaType = 415"
| "error_code_http_status RateLimited = 429"
| "error_code_http_status ServiceUnavailable = 503"
| "error_code_http_status Internal = 500"

definition error_code_retryable :: "error_code \<Rightarrow> bool" where
  "error_code_retryable c =
     (case c of RateLimited \<Rightarrow> True | ServiceUnavailable \<Rightarrow> True | Internal \<Rightarrow> True | _ \<Rightarrow> False)"

text \<open>The fields are prefixed because \<^verbatim>\<open>code\<close>, \<^verbatim>\<open>message\<close> and \<^verbatim>\<open>retryable\<close> are names of
  functions and variables elsewhere.\<close>

record app_error =
  ae_code :: error_code
  ae_message :: ustr
  ae_retryable :: bool

definition app_error_new :: "error_code \<Rightarrow> ustr \<Rightarrow> app_error" where
  "app_error_new c msg =
     \<lparr>ae_code = c, ae_message = msg, ae_retryable = error_code_retryable c\<rparr>"

definition with_retryable :: "bool \<Rightarrow> app_error \<Rightarrow> app_error" where
  "with_retryable r e = e\<lparr>ae_retryable := r\<rparr>"

definition ae_validation :: "ustr \<Rightarrow> app_error" where
  "ae_validation msg = app_error_new ValidationFailed msg"

definition ae_bad_request :: "ustr \<Rightarrow> app_error" where
  "ae_bad_request msg = app_error_new BadRequest msg"

definition ae_unauthorized :: "ustr \<Rightarrow> app_error" where
  "ae_unauthorized msg = app_error_new Unauthorized msg"

definition ae_forbidden :: "ustr \<Rightarrow> app_error" where
  "ae_forbidden msg = app_error_new Forbidden msg"

definition ae_not_found :: "ustr \<Rightarrow> app_error" where
  "ae_not_found msg = app_error_new NotFound msg"

definition ae_conflict :: "ustr \<Rightarrow> app_error" where
  "ae_conflict msg = app_error_new Conflict msg"

definition ae_internal :: "ustr \<Rightarrow> app_error" where
  "ae_internal msg = app_error_new Internal msg"

definition ae_unavailable :: "ustr \<Rightarrow> app_error" where
  "ae_unavailable msg = app_error_new ServiceUnavailable msg"

definition app_error_http_status :: "app_error \<Rightarrow> nat" where
  "app_error_http_status e = error_code_http_status (ae_code e)"

definition app_error_display :: "app_error \<Rightarrow> ustr" where
  "app_error_display e = error_code_as_str (ae_code e) @ lit '': '' @ ae_message e"

lemmas app_error_defs =
  app_error_new_def ae_validation_def ae_bad_request_def ae_unauthorized_def ae_forbidden_def
  ae_not_found_def ae_conflict_def ae_internal_def ae_unavailable_def

lemma ae_code_simps [simp]:
  "ae_code (app_error_new c m) = c"
  "ae_code (ae_validation m) = ValidationFailed"
  "ae_code (ae_bad_request m) = BadRequest"
  "ae_code (ae_unauthorized m) = Unauthorized"
  "ae_code (ae_forbidden m) = Forbidden"
  "ae_code (ae_not_found m) = NotFound"
  "ae_code (ae_conflict m) = Conflict"
  "ae_code (ae_internal m) = Internal"
  "ae_code (ae_unavailable m) = ServiceUnavailable"
  "ae_code (with_retryable r e) = ae_code e"
  by (simp_all add: app_error_defs with_retryable_def)

lemma error_code_as_str_inj: "error_code_as_str a = error_code_as_str b \<Longrightarrow> a = b"
  by (cases a; cases b) simp_all

end
