(* ===== verification/Media.thy ===== *)
theory Media
  imports AppErrors
begin

text \<open>
  \<^verbatim>\<open>crates/otdel-core/src/media.rs\<close>: the accepted formats, the reader of a declared content
  type and the content signature that decides the format of an upload.

  \<open>wire_reader\<close> and \<open>wire_codec\<close> are the contracts of the \<^verbatim>\<open>as_str\<close>/\<^verbatim>\<open>parse\<close> pairs of the
  program: what the database rows and the HTTP layer rely on when they read a name back.
\<close>

locale wire_reader =
  fixes as_str :: "'a \<Rightarrow> ustr"
    and parse :: "ustr \<Rightarrow> 'a option"
  assumes parse_as_str: "parse (as_str x) = Some x"
begin

lemma as_str_injective: "as_str x = as_str y \<longleftrightarrow> x = y"
  by (metis option.inject parse_as_str)

lemma decode_stored: "ok_or e (parse (as_str x)) = Ok x"
  by (simp add: parse_as_str)

end

locale wire_codec = wire_reader +
  assumes parse_sound: "parse s = Some x \<Longrightarrow> s = as_str x"
begin

lemma parse_iff: "parse s = Some x \<longleftrightarrow> s = as_str x"
  using parse_as_str parse_sound by blast

lemma parse_none: "parse s = None \<longleftrightarrow> (\<forall>x. s \<noteq> as_str x)"
  by (metis not_None_eq parse_iff)

end

datatype media_type = Pdf | Png | Jpeg

definition signature_prefix_len :: nat where
  "signature_prefix_len = 12"

definition media_accepted :: "media_type list" where
  "media_accepted = [Pdf, Png, Jpeg]"

fun media_as_str :: "media_type \<Rightarrow> ustr" where
  "media_as_str Pdf = lit ''application/pdf''"
| "media_as_str Png = lit ''image/png''"
| "media_as_str Jpeg = lit ''image/jpeg''"

fun media_extension :: "media_type \<Rightarrow> ustr" where
  "media_extension Pdf = lit ''pdf''"
| "media_extension Png = lit ''png''"
| "media_extension Jpeg = lit ''jpg''"

text \<open>\<open>59\<close> is the semicolon before a parameter.\<close>

definition media_parse :: "ustr \<Rightarrow> media_type option" where
  "media_parse value =
     (let base = to_ascii_lowercase
                   (trim (case split_on 59 value of [] \<Rightarrow> [] | first # _ \<Rightarrow> first))
      in if base = lit ''application/pdf'' \<or> base = lit ''application/x-pdf'' then Some Pdf
         else if base = lit ''image/png'' then Some Png
         else if base = lit ''image/jpeg'' \<or> base = lit ''image/jpg'' then Some Jpeg
         else None)"

definition pdf_signature :: bytes where
  "pdf_signature = utf8 (lit ''%PDF-'')"

definition png_signature :: bytes where
  "png_signature = [0x89, 0x50, 0x4E, 0x47, 0x0D, 0x0A, 0x1A, 0x0A]"

definition jpeg_signature :: bytes where
  "jpeg_signature = [0xFF, 0xD8, 0xFF]"

definition media_detect :: "bytes \<Rightarrow> media_type option" where
  "media_detect pre =
     (if length pre < 4 then None
      else if prefix pdf_signature pre then Some Pdf
      else if prefix png_signature pre then Some Png
      else if prefix jpeg_signature pre then Some Jpeg
      else None)"

definition media_accepted_list :: ustr where
  "media_accepted_list = str_join (lit '', '') (map media_as_str media_accepted)"

text \<open>The signature of each format, as the specification of \<open>media_detect\<close>.\<close>

fun media_signature :: "media_type \<Rightarrow> bytes" where
  "media_signature Pdf = pdf_signature"
| "media_signature Png = png_signature"
| "media_signature Jpeg = jpeg_signature"

lemma pdf_signature_bytes: "pdf_signature = [0x25, 0x50, 0x44, 0x46, 0x2D]"
  by (simp add: pdf_signature_def lit_def utf8_def utf8_char_def utf8_units_def)

lemma media_parse_names:
  "media_parse (media_as_str Pdf) = Some Pdf"
  "media_parse (media_as_str Png) = Some Png"
  "media_parse (media_as_str Jpeg) = Some Jpeg"
  by code_simp+

lemma media_parse_as_str: "media_parse (media_as_str m) = Some m"
  by (cases m) (simp_all only: media_parse_names)

interpretation media: wire_reader media_as_str media_parse
  by unfold_locales (rule media_parse_as_str)

lemma media_signature_disjoint:
  "prefix (media_signature a) bs \<Longrightarrow> prefix (media_signature b) bs \<Longrightarrow> a = b"
  by (cases a; cases b)
     (auto simp: pdf_signature_bytes png_signature_def jpeg_signature_def prefix_def)

lemma media_detect_None_short: "length pre < 4 \<Longrightarrow> media_detect pre = None"
  by (simp add: media_detect_def)

lemma media_detect_Some_signature:
  "media_detect pre = Some m \<Longrightarrow> prefix (media_signature m) pre \<and> 4 \<le> length pre"
  by (auto simp: media_detect_def split: if_splits)

lemma media_signature_detect:
  "prefix (media_signature m) pre \<Longrightarrow> 4 \<le> length pre \<Longrightarrow> media_detect pre = Some m"
  by (cases m) (auto simp: media_detect_def
      dest: media_signature_disjoint [of Pdf _ Png, simplified]
        media_signature_disjoint [of Pdf _ Jpeg, simplified]
        media_signature_disjoint [of Png _ Jpeg, simplified])

text \<open>The decision never depends on the bytes after the prefix the upload holds back.\<close>

lemma media_signature_length: "length (media_signature m) \<le> signature_prefix_len"
  by (cases m) (simp_all add: pdf_signature_bytes png_signature_def jpeg_signature_def
      signature_prefix_len_def)

lemma media_detect_append: "media_detect pre = Some m \<Longrightarrow> media_detect (pre @ rest) = Some m"
  by (rule media_signature_detect) (auto dest!: media_detect_Some_signature)

lemma media_detect_append_None:
  assumes "signature_prefix_len \<le> length pre" "media_detect pre = None"
  shows "media_detect (pre @ rest) = None"
proof (rule ccontr)
  assume "media_detect (pre @ rest) \<noteq> None"
  then obtain m where "prefix (media_signature m) (pre @ rest)"
    by (auto dest: media_detect_Some_signature)
  moreover have "length (media_signature m) \<le> length pre"
    using media_signature_length [of m] assms(1) by simp
  ultimately have "prefix (media_signature m) pre"
    using prefix_length_prefix [of "media_signature m" "pre @ rest" pre] by simp
  moreover have "4 \<le> length pre" using assms(1) by (simp add: signature_prefix_len_def)
  ultimately show False using assms(2) by (simp add: media_signature_detect)
qed

end
