(* ===== verification/Model.thy ===== *)
theory Model
  imports Media
begin

text \<open>
  \<^verbatim>\<open>crates/otdel-core/src/model.rs\<close>: the entities of the API, the life cycle of a material,
  the states of a queued job, and the idempotency key of a material's extraction job.

  Times are microseconds since the epoch; \<^verbatim>\<open>i64\<close>/\<^verbatim>\<open>i32\<close> columns are \<open>int\<close>. The third-party
  \<^verbatim>\<open>Uuid\<close> formatter is the parameter \<open>show_uuid\<close>.
\<close>

type_synonym timestamp = int

datatype material_status = MQueued | MProcessing | MCompleted | MPartial | MFailed | MQuarantined

datatype job_kind = ExtractDocument

datatype job_status = JQueued | JRunning | JCompleted | JFailed | JCancelled

record partner =
  partner_id :: uuid
  partner_name_of :: ustr
  partner_note_of :: "ustr option"
  partner_created_at :: timestamp
  partner_updated_at :: timestamp

record material =
  mat_id :: uuid
  mat_partner_id :: uuid
  mat_filename :: ustr
  mat_media_type :: ustr
  mat_size_bytes :: int
  mat_sha256 :: ustr
  mat_status :: material_status
  mat_page_count :: "int option"
  mat_created_at :: timestamp
  mat_error :: "ustr option"

record job =
  job_id :: uuid
  job_partner_id :: uuid
  job_material_id :: uuid
  job_kind_of :: job_kind
  job_status_of :: job_status
  job_stage :: "ustr option"
  job_attempts :: int
  job_created_at :: timestamp
  job_updated_at :: timestamp
  job_error :: "ustr option"

fun material_status_as_str :: "material_status \<Rightarrow> ustr" where
  "material_status_as_str MQueued = lit ''queued''"
| "material_status_as_str MProcessing = lit ''processing''"
| "material_status_as_str MCompleted = lit ''completed''"
| "material_status_as_str MPartial = lit ''partial''"
| "material_status_as_str MFailed = lit ''failed''"
| "material_status_as_str MQuarantined = lit ''quarantined''"

definition material_status_parse :: "ustr \<Rightarrow> material_status option" where
  "material_status_parse value =
     (if value = lit ''queued'' then Some MQueued
      else if value = lit ''processing'' then Some MProcessing
      else if value = lit ''completed'' then Some MCompleted
      else if value = lit ''partial'' then Some MPartial
      else if value = lit ''failed'' then Some MFailed
      else if value = lit ''quarantined'' then Some MQuarantined
      else None)"

definition can_retry :: "material_status \<Rightarrow> bool" where
  "can_retry s = (case s of MFailed \<Rightarrow> True | MPartial \<Rightarrow> True | _ \<Rightarrow> False)"

definition retry_refusal :: "material_status \<Rightarrow> app_error" where
  "retry_refusal s =
     app_error_new Conflict
       (case s of
          MQueued \<Rightarrow> lit ''material is already queued for extraction''
        | MProcessing \<Rightarrow> lit ''material is being processed right now''
        | MCompleted \<Rightarrow> lit ''material has already been extracted''
        | MQuarantined \<Rightarrow> lit ''quarantined material cannot be retried''
        | MFailed \<Rightarrow> lit ''material can be retried''
        | MPartial \<Rightarrow> lit ''material can be retried'')"

fun job_kind_as_str :: "job_kind \<Rightarrow> ustr" where
  "job_kind_as_str ExtractDocument = lit ''extract_document''"

definition job_kind_parse :: "ustr \<Rightarrow> job_kind option" where
  "job_kind_parse value =
     (if value = lit ''extract_document'' then Some ExtractDocument else None)"

fun job_status_as_str :: "job_status \<Rightarrow> ustr" where
  "job_status_as_str JQueued = lit ''queued''"
| "job_status_as_str JRunning = lit ''running''"
| "job_status_as_str JCompleted = lit ''completed''"
| "job_status_as_str JFailed = lit ''failed''"
| "job_status_as_str JCancelled = lit ''cancelled''"

definition job_status_parse :: "ustr \<Rightarrow> job_status option" where
  "job_status_parse value =
     (if value = lit ''queued'' then Some JQueued
      else if value = lit ''running'' then Some JRunning
      else if value = lit ''completed'' then Some JCompleted
      else if value = lit ''failed'' then Some JFailed
      else if value = lit ''cancelled'' then Some JCancelled
      else None)"

definition extraction_idempotency_key :: "(uuid \<Rightarrow> ustr) \<Rightarrow> uuid \<Rightarrow> job_kind \<Rightarrow> ustr" where
  "extraction_idempotency_key show_uuid material kind =
     job_kind_as_str kind @ lit '':'' @ show_uuid material"

definition media_type_string :: "media_type \<Rightarrow> ustr" where
  "media_type_string m = media_as_str m"

section \<open>The wire names round trip\<close>

interpretation material_status: wire_codec material_status_as_str material_status_parse
proof
  show "material_status_parse (material_status_as_str x) = Some x" for x
    by (cases x) (simp_all add: material_status_parse_def)
  show "material_status_parse s = Some x \<Longrightarrow> s = material_status_as_str x" for s x
    by (auto simp: material_status_parse_def split: if_splits)
qed

interpretation job_kind: wire_codec job_kind_as_str job_kind_parse
proof
  show "job_kind_parse (job_kind_as_str x) = Some x" for x
    by (cases x) (simp add: job_kind_parse_def)
  show "job_kind_parse s = Some x \<Longrightarrow> s = job_kind_as_str x" for s x
    by (auto simp: job_kind_parse_def split: if_splits)
qed

interpretation job_status: wire_codec job_status_as_str job_status_parse
proof
  show "job_status_parse (job_status_as_str x) = Some x" for x
    by (cases x) (simp_all add: job_status_parse_def)
  show "job_status_parse s = Some x \<Longrightarrow> s = job_status_as_str x" for s x
    by (auto simp: job_status_parse_def split: if_splits)
qed

lemma retry_refusal_code [simp]: "ae_code (retry_refusal s) = Conflict"
  by (simp add: retry_refusal_def)

lemma can_retry_simps [simp]:
  "can_retry MFailed" "can_retry MPartial" "\<not> can_retry MQueued" "\<not> can_retry MProcessing"
  "\<not> can_retry MCompleted" "\<not> can_retry MQuarantined"
  by (simp_all add: can_retry_def)

lemma idempotency_key_inj:
  assumes "inj show_uuid"
  shows "extraction_idempotency_key show_uuid a k = extraction_idempotency_key show_uuid b k'
    \<longleftrightarrow> a = b"
  using assms by (cases k; cases k') (auto simp: extraction_idempotency_key_def inj_def)

end
