(* ===== verification/Externs.thy ===== *)
theory Externs
  imports RustBase
begin

text \<open>
  The third-party crates the program calls, as parameters of the model: the \<^verbatim>\<open>uuid\<close> crate, the
  \<^verbatim>\<open>sha2\<close> digest, \<^verbatim>\<open>subtle\<close>'s constant-time comparison, the \<^verbatim>\<open>argon2\<close>/\<^verbatim>\<open>password_hash\<close>
  functions and the base64 encoder. Nothing is assumed about them here: what a theorem needs
  of their documented behaviour is one of the predicates below, a hypothesis of the theorem.

  \<open>sample_externs\<close> is a concrete choice (a hyphenated hexadecimal UUID codec, a padding in
  place of the digest) that meets them; only witnesses use it.
\<close>

record externs =
  uuid_parse_str :: "ustr \<Rightarrow> uuid option"
  uuid_to_string :: "uuid \<Rightarrow> ustr"
  sha256_digest :: "bytes \<Rightarrow> bytes"
  slices_ct_eq :: "bytes \<Rightarrow> bytes \<Rightarrow> bool"
  phc_algorithm :: "ustr \<Rightarrow> ustr option"
  argon2_verify :: "ustr \<Rightarrow> bytes \<Rightarrow> bool"
  base64_url_no_pad :: "bytes \<Rightarrow> ustr"

text \<open>The \<^verbatim>\<open>uuid\<close> crate prints the 36-character hyphenated lower case form, and parses it back.\<close>

definition uuid_text :: "ustr \<Rightarrow> bool" where
  "uuid_text s \<longleftrightarrow> length s = 36 \<and>
     (\<forall>c\<in>set s. is_ascii_digit c \<or> (97 \<le> c \<and> c \<le> 102) \<or> c = 45)"

definition uuid_documented :: "externs \<Rightarrow> bool" where
  "uuid_documented x \<longleftrightarrow>
     (\<forall>u. uuid_parse_str x (uuid_to_string x u) = Some u \<and> uuid_text (uuid_to_string x u))"

text \<open>SHA-256 yields 32 bytes.\<close>

definition sha256_documented :: "externs \<Rightarrow> bool" where
  "sha256_documented x \<longleftrightarrow> (\<forall>bs. length (sha256_digest x bs) = 32)"

text \<open>\<^verbatim>\<open>ct_eq\<close> on slices decides equality (in constant time).\<close>

definition ct_eq_documented :: "externs \<Rightarrow> bool" where
  "ct_eq_documented x \<longleftrightarrow> (\<forall>a b. slices_ct_eq x a b \<longleftrightarrow> a = b)"

lemma uuid_parse_display:
  "uuid_documented x \<Longrightarrow> uuid_parse_str x (uuid_to_string x u) = Some u"
  by (simp add: uuid_documented_def)

lemma uuid_display_text: "uuid_documented x \<Longrightarrow> uuid_text (uuid_to_string x u)"
  by (simp add: uuid_documented_def)

lemma uuid_display_inj: "uuid_documented x \<Longrightarrow> inj (uuid_to_string x)"
  by (rule injI) (metis option.inject uuid_documented_def)

lemma uuid_text_no_slash: "uuid_text s \<Longrightarrow> 47 \<notin> set s"
  by (auto simp: uuid_text_def is_ascii_digit_def)

section \<open>A concrete choice for witnesses\<close>

fun hex_digits :: "nat \<Rightarrow> nat \<Rightarrow> ustr" where
  "hex_digits 0 n = []"
| "hex_digits (Suc k) n = hex_digits k (n div 16) @ [hex_digit (n mod 16)]"

definition hex_value :: "uchar \<Rightarrow> nat" where
  "hex_value c = (if c \<le> 57 then c - 48 else c - 87)"

definition unhex :: "ustr \<Rightarrow> nat" where
  "unhex s = foldl (\<lambda>a c. 16 * a + hex_value c) 0 s"

definition hyphenate :: "ustr \<Rightarrow> ustr" where
  "hyphenate s = take 8 s @ [45] @ take 4 (drop 8 s) @ [45] @ take 4 (drop 12 s) @ [45]
     @ take 4 (drop 16 s) @ [45] @ drop 20 s"

definition sample_uuid_to_string :: "uuid \<Rightarrow> ustr" where
  "sample_uuid_to_string u = hyphenate (hex_digits 32 (unat u))"

definition sample_uuid_parse :: "ustr \<Rightarrow> uuid option" where
  "sample_uuid_parse s =
     (if list_all (\<lambda>c. is_ascii_digit c \<or> (97 \<le> c \<and> c \<le> 102) \<or> c = 45) s
         \<and> length (filter (\<lambda>c. c \<noteq> 45) s) = 32
      then Some (of_nat (unhex (filter (\<lambda>c. c \<noteq> 45) s))) else None)"

definition sample_externs :: externs where
  "sample_externs =
     \<lparr>uuid_parse_str = sample_uuid_parse, uuid_to_string = sample_uuid_to_string,
      sha256_digest = (\<lambda>bs. take 32 (bs @ replicate 32 0)),
      slices_ct_eq = (\<lambda>a b. a = b),
      phc_algorithm = (\<lambda>s. if prefix (lit ''$argon2id$'') s then Some (lit ''argon2id'') else None),
      argon2_verify = (\<lambda>h p. h = lit ''$argon2id$'' @ map unat p),
      base64_url_no_pad = (\<lambda>bs. take 43 (concat (map hex_byte bs)))\<rparr>"

lemma length_hex_digits [simp]: "length (hex_digits k n) = k"
  by (induction k arbitrary: n) auto

lemma hex_value_digit: "n < 16 \<Longrightarrow> hex_value (hex_digit n) = n"
  by (auto simp: hex_value_def hex_digit_def)

lemma hex_digit_class:
  "n < 16 \<Longrightarrow> is_ascii_digit (hex_digit n) \<or> (97 \<le> hex_digit n \<and> hex_digit n \<le> 102)"
  by (auto simp: hex_digit_def is_ascii_digit_def)

lemma hex_digits_class:
  "c \<in> set (hex_digits k n) \<Longrightarrow> is_ascii_digit c \<or> (97 \<le> c \<and> c \<le> 102)"
proof (induction k arbitrary: n)
  case (Suc k)
  have "n mod 16 < 16" by simp
  with Suc hex_digit_class [OF this] show ?case by auto
qed simp

lemma unhex_hex_digits: "unhex (hex_digits k n) = n mod 16 ^ k"
proof (induction k arbitrary: n)
  case (Suc k)
  then show ?case
    by (simp add: unhex_def hex_value_digit mod_mult2_eq)
qed (simp add: unhex_def)

lemma hyphenate_filter:
  "45 \<notin> set s \<Longrightarrow> 20 \<le> length s \<Longrightarrow> filter (\<lambda>c. c \<noteq> 45) (hyphenate s) = s"
proof -
  assume no: "45 \<notin> set s"
  have d: "filter (\<lambda>c. c \<noteq> 45) (drop n s) = drop n s" for n
    using no by (intro filter_True) (auto dest: in_set_dropD)
  have t: "filter (\<lambda>c. c \<noteq> 45) (take m (drop n s)) = take m (drop n s)" for m n
    using no by (intro filter_True) (auto dest: in_set_takeD in_set_dropD)
  have "filter (\<lambda>c. c \<noteq> 45) (hyphenate s)
      = take 8 s @ take 4 (drop 8 s) @ take 4 (drop 12 s) @ take 4 (drop 16 s) @ drop 20 s"
    using t [of 8 0] t [of 4 8] t [of 4 12] t [of 4 16] d [of 20] by (simp add: hyphenate_def)
  also have "\<dots> = s"
    using append_take_drop_id [of 4 "drop 16 s"] append_take_drop_id [of 4 "drop 12 s"]
      append_take_drop_id [of 4 "drop 8 s"] append_take_drop_id [of 8 s]
    by simp
  finally show ?thesis .
qed

lemma sample_uuid_documented: "uuid_documented sample_externs"
proof -
  have "uuid_parse_str sample_externs (uuid_to_string sample_externs u) = Some u
      \<and> uuid_text (uuid_to_string sample_externs u)" for u
  proof -
    let ?h = "hex_digits 32 (unat u)"
    have h: "c \<in> set ?h \<Longrightarrow> is_ascii_digit c \<or> (97 \<le> c \<and> c \<le> 102)" for c
      by (rule hex_digits_class)
    then have no: "45 \<notin> set ?h" by (force simp: is_ascii_digit_def)
    have shape: "uuid_text (hyphenate ?h)"
      unfolding uuid_text_def hyphenate_def
      using h by (auto dest!: in_set_takeD in_set_dropD)
    have "unat u mod 16 ^ 32 = unat u"
      using unsigned_less [of u, where 'a = nat] by simp
    then have "sample_uuid_parse (hyphenate ?h) = Some u"
      using shape no
      by (simp add: sample_uuid_parse_def hyphenate_filter unhex_hex_digits uuid_text_def
          list_all_iff)
    then show ?thesis using shape by (simp add: sample_externs_def sample_uuid_to_string_def)
  qed
  then show ?thesis by (simp add: uuid_documented_def)
qed

lemma sample_sha256_documented: "sha256_documented sample_externs"
  by (auto simp: sha256_documented_def sample_externs_def)

lemma sample_ct_eq_documented: "ct_eq_documented sample_externs"
  by (simp add: ct_eq_documented_def sample_externs_def)

end
