(* ===== verification/Secret.thy ===== *)
theory Secret
  imports AppErrors Externs
begin

text \<open>
  \<^verbatim>\<open>crates/otdel-core/src/secret.rs\<close>: opaque tokens and their fingerprints, the comparison of
  a CSRF token, password hashes and the recognition of placeholder secrets. The operating
  system's random bytes are the argument \<open>os_random\<close> (a number of bytes to the bytes drawn),
  the crates are the fields of \<open>externs\<close>.
\<close>

definition TOKEN_BYTES :: nat where
  "TOKEN_BYTES = 32"

definition PASSWORD_MIN_CHARS :: nat where
  "PASSWORD_MIN_CHARS = 12"

definition generate_token :: "externs \<Rightarrow> (nat \<Rightarrow> bytes) \<Rightarrow> ustr" where
  "generate_token x os_random = base64_url_no_pad x (os_random TOKEN_BYTES)"

fun hex_lower :: "bytes \<Rightarrow> ustr" where
  "hex_lower [] = []"
| "hex_lower (b # bs) = hex_byte b @ hex_lower bs"

definition token_fingerprint :: "externs \<Rightarrow> ustr \<Rightarrow> ustr" where
  "token_fingerprint x token = hex_lower (sha256_digest x (utf8 token))"

definition tokens_match :: "externs \<Rightarrow> ustr \<Rightarrow> ustr \<Rightarrow> bool" where
  "tokens_match x expected provided =
     (let e = utf8 expected; p = utf8 provided
      in if length e \<noteq> length p then False else slices_ct_eq x e p)"

text \<open>\<open>argon2_hash\<close> is the crate's salted hash of the bytes, \<open>None\<close> where it fails.\<close>

definition hash_password :: "(bytes \<Rightarrow> ustr option) \<Rightarrow> ustr \<Rightarrow> (app_error, ustr) outcome" where
  "hash_password argon2_hash password =
     (if length password < PASSWORD_MIN_CHARS then
        Err (ae_validation (lit ''password must be at least '' @ dec PASSWORD_MIN_CHARS
          @ lit '' characters''))
      else ok_or (ae_internal (lit ''could not hash the password''))
             (argon2_hash (utf8 password)))"

definition verify_password :: "externs \<Rightarrow> ustr \<Rightarrow> ustr \<Rightarrow> bool" where
  "verify_password x phc_hash password =
     (case phc_algorithm x phc_hash of
        None \<Rightarrow> False
      | Some _ \<Rightarrow> argon2_verify x phc_hash (utf8 password))"

definition is_supported_password_hash :: "externs \<Rightarrow> ustr \<Rightarrow> bool" where
  "is_supported_password_hash x value =
     (case phc_algorithm x value of
        Some algorithm \<Rightarrow> prefix (lit ''argon2'') algorithm
      | None \<Rightarrow> False)"

definition placeholder_markers :: "ustr list" where
  "placeholder_markers =
     [lit ''changeme'', lit ''change-me'', lit ''placeholder'', lit ''example'', lit ''your-'',
      lit ''secret-here'', lit ''todo'', lit ''xxxxx'']"

definition looks_like_placeholder :: "ustr \<Rightarrow> bool" where
  "looks_like_placeholder value =
     (let normalised = to_ascii_lowercase (trim value)
      in if normalised = [] then True
         else list_ex (\<lambda>marker. sublist marker normalised) placeholder_markers)"

section \<open>Fingerprints\<close>

definition lower_hex_char :: "uchar \<Rightarrow> bool" where
  "lower_hex_char c \<longleftrightarrow> is_ascii_digit c \<or> (97 \<le> c \<and> c \<le> 102)"

lemma length_hex_lower [simp]: "length (hex_lower bs) = 2 * length bs"
  by (induction bs) (auto simp: hex_byte_def)

lemma hex_byte_chars: "c \<in> set (hex_byte b) \<Longrightarrow> lower_hex_char c"
proof -
  have "unat b div 16 < 16" using unat_byte_lt [of b] by simp
  moreover have "unat b mod 16 < 16" by simp
  ultimately show "c \<in> set (hex_byte b) \<Longrightarrow> lower_hex_char c"
    using hex_digit_class [of "unat b div 16"] hex_digit_class [of "unat b mod 16"]
    by (auto simp: hex_byte_def lower_hex_char_def)
qed

lemma hex_lower_chars: "c \<in> set (hex_lower bs) \<Longrightarrow> lower_hex_char c"
  by (induction bs) (auto dest: hex_byte_chars)

lemma hex_lower_inj: "hex_lower a = hex_lower b \<longleftrightarrow> a = b"
proof
  show "hex_lower a = hex_lower b \<Longrightarrow> a = b"
  proof (induction a arbitrary: b)
    case Nil
    then show ?case by (cases b) (auto simp: hex_byte_def)
  next
    case (Cons x xs)
    then obtain y ys where b: "b = y # ys" by (cases b) (auto simp: hex_byte_def)
    have "length (hex_byte x) = length (hex_byte y)" by (simp add: hex_byte_def)
    with Cons.prems b have "hex_byte x = hex_byte y" "hex_lower xs = hex_lower ys" by auto
    with Cons.IH b show ?case by simp
  qed
qed simp

lemma fingerprint_shape:
  "sha256_documented x \<Longrightarrow> length (token_fingerprint x t) = 64
     \<and> (\<forall>c\<in>set (token_fingerprint x t). lower_hex_char c)"
  by (auto simp: token_fingerprint_def sha256_documented_def dest: hex_lower_chars)

lemma tokens_match_iff: "ct_eq_documented x \<Longrightarrow> tokens_match x e p \<longleftrightarrow> utf8 e = utf8 p"
  by (auto simp: tokens_match_def Let_def ct_eq_documented_def)

section \<open>Placeholders\<close>

lemma placeholder_marker_found:
  "marker \<in> set placeholder_markers \<Longrightarrow> sublist marker (to_ascii_lowercase (trim v))
    \<Longrightarrow> looks_like_placeholder v"
  by (auto simp: looks_like_placeholder_def Let_def list_ex_iff)

lemma blank_is_placeholder: "trim v = [] \<Longrightarrow> looks_like_placeholder v"
  by (simp add: looks_like_placeholder_def to_ascii_lowercase_def)

end
