(* ===== verification/Db.thy ===== *)
theory Db
  imports Model Secret "HOL-Library.Product_Lexorder"
begin

text \<open>
  The database as the server uses it: the tables of \<^verbatim>\<open>migrations/0001_schema.sql\<close> with their
  constraints and row-level security, the error type of \<^verbatim>\<open>crates/otdel-db/src/error.rs\<close> and the
  bureau-scoped transactions of \<^verbatim>\<open>tenancy.rs\<close>.

  A table is the list of its rows. A statement runs against the tables a transaction sees; a
  transaction that is not committed changes nothing. Every statement and every commit can fail
  (\<open>db_faults\<close>); a commit can also take effect and still be reported as failed, when the
  connection is lost in between. \<open>now()\<close> is the start of the transaction; \<open>gen_random_uuid()\<close>
  is the next value of the parameter \<open>db_gen\<close>.
\<close>

section \<open>Errors\<close>

datatype sql_error =
    SqlDatabase ustr "ustr option"
  | SqlPoolTimedOut
  | SqlConnection
  | SqlRowNotFound
  | SqlOther

datatype db_error =
    DbSqlx sql_error
  | DbMigrate
  | DbDecode ustr
  | DbUnsafeRuntimeRole ustr "ustr list"

definition unique_violation :: "db_error \<Rightarrow> ustr option" where
  "unique_violation e =
     (case e of
        DbSqlx (SqlDatabase code constraint) \<Rightarrow>
          if code \<noteq> lit ''23505'' then None else constraint
      | _ \<Rightarrow> None)"

definition is_rls_violation :: "db_error \<Rightarrow> bool" where
  "is_rls_violation e =
     (case e of DbSqlx (SqlDatabase code constraint) \<Rightarrow> code = lit ''42501'' | _ \<Rightarrow> False)"

definition db_to_app_error :: "db_error \<Rightarrow> app_error" where
  "db_to_app_error e =
     (case e of
        DbSqlx SqlPoolTimedOut \<Rightarrow> ae_unavailable (lit ''the database is not available right now'')
      | DbSqlx SqlConnection \<Rightarrow> ae_unavailable (lit ''the database is not available right now'')
      | _ \<Rightarrow> app_error_new Internal (lit ''internal server error''))"

section \<open>Tables\<close>

record bureau_row =
  br_id :: uuid
  br_slug :: ustr
  br_name :: ustr

record partner_row =
  pr_id :: uuid
  pr_bureau_id :: uuid
  pr_name :: ustr
  pr_note :: "ustr option"
  pr_created_at :: timestamp
  pr_updated_at :: timestamp

record material_row =
  mr_id :: uuid
  mr_bureau_id :: uuid
  mr_partner_id :: uuid
  mr_filename :: ustr
  mr_media_type :: ustr
  mr_size_bytes :: int
  mr_sha256 :: ustr
  mr_storage_key :: ustr
  mr_status :: ustr
  mr_page_count :: "int option"
  mr_error :: "ustr option"
  mr_created_at :: timestamp
  mr_updated_at :: timestamp

record job_row =
  jr_id :: uuid
  jr_bureau_id :: uuid
  jr_partner_id :: uuid
  jr_material_id :: uuid
  jr_kind :: ustr
  jr_status :: ustr
  jr_stage :: "ustr option"
  jr_attempts :: int
  jr_max_attempts :: int
  jr_idempotency_key :: ustr
  jr_run_after :: timestamp
  jr_lease_owner :: "ustr option"
  jr_lease_expires_at :: "timestamp option"
  jr_error :: "ustr option"
  jr_created_at :: timestamp
  jr_updated_at :: timestamp

record session_row =
  sr_id :: uuid
  sr_bureau_id :: uuid
  sr_token_fingerprint :: ustr
  sr_csrf_token :: ustr
  sr_created_at :: timestamp
  sr_last_seen_at :: timestamp
  sr_expires_at :: timestamp

record tables =
  bureaus :: "bureau_row list"
  partners :: "partner_row list"
  materials :: "material_row list"
  jobs :: "job_row list"
  sessions :: "session_row list"

datatype db_fault = DbFine | DbFail sql_error | DbFailAfter sql_error

record db =
  db_tables :: tables
  db_faults :: "db_fault list"
  db_now :: timestamp
  db_gen :: "nat \<Rightarrow> uuid"
  db_gen_next :: nat

section \<open>Constraints\<close>

text \<open>PostgreSQL text holds every character but NUL.\<close>

definition pg_text :: "ustr \<Rightarrow> bool" where
  "pg_text s \<longleftrightarrow> 0 \<notin> set s"

definition pg_text_opt :: "ustr option \<Rightarrow> bool" where
  "pg_text_opt s = (case s of None \<Rightarrow> True | Some s \<Rightarrow> pg_text s)"

definition btrim :: "ustr \<Rightarrow> ustr" where
  "btrim s = trim_by (\<lambda>c. c = 32) s"

definition opt_at_most :: "nat \<Rightarrow> ustr option \<Rightarrow> bool" where
  "opt_at_most n s = (case s of None \<Rightarrow> True | Some s \<Rightarrow> length s \<le> n)"

definition hex64 :: "ustr \<Rightarrow> bool" where
  "hex64 s \<longleftrightarrow> length s = 64 \<and> list_all lower_hex_char s"

definition partner_check :: "partner_row \<Rightarrow> bool" where
  "partner_check r \<longleftrightarrow>
     1 \<le> length (btrim (pr_name r)) \<and> length (btrim (pr_name r)) \<le> 200
     \<and> opt_at_most 10000 (pr_note r)"

definition partner_text :: "partner_row \<Rightarrow> bool" where
  "partner_text r \<longleftrightarrow> pg_text (pr_name r) \<and> pg_text_opt (pr_note r)"

definition material_statuses :: "ustr list" where
  "material_statuses = map lit [''queued'', ''processing'', ''completed'', ''partial'', ''failed'', ''quarantined'']"

definition material_check :: "material_row \<Rightarrow> bool" where
  "material_check r \<longleftrightarrow>
     1 \<le> length (mr_filename r) \<and> length (mr_filename r) \<le> 200
     \<and> mr_media_type r \<in> set (map lit [''application/pdf'', ''image/png'', ''image/jpeg''])
     \<and> 0 < mr_size_bytes r
     \<and> hex64 (mr_sha256 r)
     \<and> 1 \<le> length (mr_storage_key r) \<and> length (mr_storage_key r) \<le> 512
     \<and> mr_status r \<in> set material_statuses
     \<and> (case mr_page_count r of None \<Rightarrow> True | Some n \<Rightarrow> 0 \<le> n)
     \<and> opt_at_most 2000 (mr_error r)"

definition material_text :: "material_row \<Rightarrow> bool" where
  "material_text r \<longleftrightarrow> pg_text (mr_filename r) \<and> pg_text (mr_media_type r) \<and> pg_text (mr_sha256 r)
     \<and> pg_text (mr_storage_key r) \<and> pg_text_opt (mr_error r)"

definition job_statuses :: "ustr list" where
  "job_statuses = map lit [''queued'', ''running'', ''completed'', ''failed'', ''cancelled'']"

definition job_check :: "job_row \<Rightarrow> bool" where
  "job_check r \<longleftrightarrow>
     jr_kind r = lit ''extract_document''
     \<and> jr_status r \<in> set job_statuses
     \<and> opt_at_most 100 (jr_stage r)
     \<and> 0 \<le> jr_attempts r \<and> 0 < jr_max_attempts r
     \<and> opt_at_most 200 (jr_lease_owner r)
     \<and> opt_at_most 2000 (jr_error r)
     \<and> (jr_lease_owner r = None) = (jr_lease_expires_at r = None)"

definition session_check :: "session_row \<Rightarrow> bool" where
  "session_check r \<longleftrightarrow> hex64 (sr_token_fingerprint r)
     \<and> 20 \<le> length (sr_csrf_token r) \<and> length (sr_csrf_token r) \<le> 200"

definition bureau_check :: "bureau_row \<Rightarrow> bool" where
  "bureau_check r \<longleftrightarrow>
     1 \<le> length (br_slug r) \<and> length (br_slug r) \<le> 64
     \<and> list_all (\<lambda>c. is_ascii_lowercase c \<or> is_ascii_digit c \<or> c = 45) (br_slug r)
     \<and> 1 \<le> length (br_name r) \<and> length (br_name r) \<le> 200"

text \<open>
  The keys of the unique constraints and of the composite foreign keys, and what the
  constraints of the schema make of each table and of the tables as a whole. The first argument
  of a table's predicate is the set of keys its rows may refer to.
\<close>

definition partner_key :: "partner_row \<Rightarrow> uuid \<times> uuid" where
  "partner_key p = (pr_bureau_id p, pr_id p)"

definition material_key :: "material_row \<Rightarrow> uuid \<times> uuid \<times> uuid" where
  "material_key m = (mr_bureau_id m, mr_partner_id m, mr_id m)"

definition content_key :: "material_row \<Rightarrow> uuid \<times> ustr" where
  "content_key m = (mr_partner_id m, mr_sha256 m)"

definition queue_key :: "job_row \<Rightarrow> uuid \<times> ustr" where
  "queue_key j = (jr_bureau_id j, jr_idempotency_key j)"

definition job_material_key :: "job_row \<Rightarrow> uuid \<times> uuid \<times> uuid" where
  "job_material_key j = (jr_bureau_id j, jr_partner_id j, jr_material_id j)"

definition bureau_table_ok :: "bureau_row list \<Rightarrow> bool" where
  "bureau_table_ok bs \<longleftrightarrow> distinct (map br_id bs) \<and> distinct (map br_slug bs) \<and> list_all bureau_check bs"

definition partner_table_ok :: "uuid set \<Rightarrow> partner_row list \<Rightarrow> bool" where
  "partner_table_ok ids ps \<longleftrightarrow>
     distinct (map pr_id ps) \<and> list_all (\<lambda>p. partner_check p \<and> pr_bureau_id p \<in> ids) ps"

definition material_table_ok :: "(uuid \<times> uuid) set \<Rightarrow> material_row list \<Rightarrow> bool" where
  "material_table_ok ids ms \<longleftrightarrow>
     distinct (map mr_id ms) \<and> distinct (map content_key ms)
     \<and> list_all (\<lambda>m. material_check m \<and> (mr_bureau_id m, mr_partner_id m) \<in> ids) ms"

definition job_table_ok :: "(uuid \<times> uuid \<times> uuid) set \<Rightarrow> job_row list \<Rightarrow> bool" where
  "job_table_ok ids js \<longleftrightarrow>
     distinct (map jr_id js) \<and> distinct (map queue_key js)
     \<and> list_all (\<lambda>j. job_check j \<and> job_material_key j \<in> ids) js"

definition session_table_ok :: "uuid set \<Rightarrow> session_row list \<Rightarrow> bool" where
  "session_table_ok ids ss \<longleftrightarrow>
     distinct (map sr_id ss) \<and> distinct (map sr_token_fingerprint ss)
     \<and> list_all (\<lambda>s. session_check s \<and> sr_bureau_id s \<in> ids) ss"

definition tables_ok :: "tables \<Rightarrow> bool" where
  "tables_ok t \<longleftrightarrow>
     bureau_table_ok (bureaus t)
     \<and> partner_table_ok (br_id ` set (bureaus t)) (partners t)
     \<and> material_table_ok (partner_key ` set (partners t)) (materials t)
     \<and> job_table_ok (material_key ` set (materials t)) (jobs t)
     \<and> session_table_ok (br_id ` set (bureaus t)) (sessions t)"

section \<open>Transactions\<close>

text \<open>
  \<^verbatim>\<open>ScopedTx\<close>: the transaction with the bureau it was opened for, and the run-time parameter
  \<^verbatim>\<open>otdel.bureau_id\<close> that \<^verbatim>\<open>set_config(..., true)\<close> binds to it.
\<close>

record scoped_tx =
  tx_db :: db
  tx_bureau_id :: uuid
  tx_context :: "uuid option"

definition next_db_fault :: "db \<Rightarrow> db_fault \<times> db" where
  "next_db_fault d =
     (case db_faults d of [] \<Rightarrow> (DbFine, d) | f # fs \<Rightarrow> (f, d\<lparr>db_faults := fs\<rparr>))"

definition gen_random_uuid :: "db \<Rightarrow> uuid \<times> db" where
  "gen_random_uuid d = (db_gen d (db_gen_next d), d\<lparr>db_gen_next := Suc (db_gen_next d)\<rparr>)"

text \<open>A statement in a transaction. Whether it took effect before it failed does not matter: the
  code returns on the error and the transaction is rolled back.\<close>

definition statement :: "(scoped_tx, sql_error, 'a) stateful \<Rightarrow> (scoped_tx, db_error, 'a) stateful"
  where
  "statement q t =
     (case next_db_fault (tx_db t) of
        (DbFine, d) \<Rightarrow> st_map_err DbSqlx q (t\<lparr>tx_db := d\<rparr>)
      | (DbFail e, d) \<Rightarrow> (Err (DbSqlx e), t\<lparr>tx_db := d\<rparr>)
      | (DbFailAfter e, d) \<Rightarrow> (Err (DbSqlx e), t\<lparr>tx_db := d\<rparr>))"

text \<open>\<^verbatim>\<open>pool.begin()\<close>, then the statement that sets the context.\<close>

definition begin_scoped :: "uuid \<Rightarrow> db \<Rightarrow> (db_error, scoped_tx) outcome \<times> db" where
  "begin_scoped bureau_id d =
     (case next_db_fault d of
        (DbFine, d) \<Rightarrow>
          (case next_db_fault d of
             (DbFine, d) \<Rightarrow>
               (Ok \<lparr>tx_db = d, tx_bureau_id = bureau_id, tx_context = Some bureau_id\<rparr>, d)
           | (DbFail e, d) \<Rightarrow> (Err (DbSqlx e), d)
           | (DbFailAfter e, d) \<Rightarrow> (Err (DbSqlx e), d))
      | (DbFail e, d) \<Rightarrow> (Err (DbSqlx e), d)
      | (DbFailAfter e, d) \<Rightarrow> (Err (DbSqlx e), d))"

text \<open>The end of a transaction: its tables become those of the database, or are forgotten.\<close>

definition tx_commit :: "tables \<Rightarrow> scoped_tx \<Rightarrow> (db_error, unit) outcome \<times> db" where
  "tx_commit before t =
     (case next_db_fault (tx_db t) of
        (DbFine, d) \<Rightarrow> (Ok (), d)
      | (DbFail e, d) \<Rightarrow> (Err (DbSqlx e), d\<lparr>db_tables := before\<rparr>)
      | (DbFailAfter e, d) \<Rightarrow> (Err (DbSqlx e), d))"

definition tx_rollback :: "tables \<Rightarrow> scoped_tx \<Rightarrow> db" where
  "tx_rollback before t = (tx_db t)\<lparr>db_tables := before\<rparr>"

text \<open>
  The shape every caller has: begin, some statements, commit; leaving early (an error, or the
  request going away) drops the transaction, which rolls it back. \<open>conv\<close> is the error
  conversion of the \<^verbatim>\<open>?\<close> operator at the call site.
\<close>

definition in_scoped_tx ::
    "(db_error \<Rightarrow> 'e) \<Rightarrow> uuid \<Rightarrow> (scoped_tx, 'e, 'a) stateful \<Rightarrow> (db, 'e, 'a) stateful" where
  "in_scoped_tx conv bureau_id body d =
     (case begin_scoped bureau_id d of
        (Ok t, d1) \<Rightarrow>
          (case body t of
             (Ok a, t') \<Rightarrow>
               (case tx_commit (db_tables d) t' of
                  (Ok u, d2) \<Rightarrow> (Ok a, d2)
                | (Err e, d2) \<Rightarrow> (Err (conv e), d2)
                | (Panic, d2) \<Rightarrow> (Panic, d2))
           | (Err e, t') \<Rightarrow> (Err e, tx_rollback (db_tables d) t')
           | (Panic, t') \<Rightarrow> (Panic, tx_rollback (db_tables d) t'))
      | (Err e, d1) \<Rightarrow> (Err (conv e), d1)
      | (Panic, d1) \<Rightarrow> (Panic, d1))"

text \<open>A statement outside a transaction is one of its own: it takes effect as a whole or not at all.\<close>

definition auto_statement :: "(db, sql_error, 'a) stateful \<Rightarrow> (db, db_error, 'a) stateful" where
  "auto_statement q d =
     (case next_db_fault d of
        (DbFine, d) \<Rightarrow>
          (case q d of
             (Ok a, d') \<Rightarrow> (Ok a, d')
           | (Err e, d') \<Rightarrow> (Err (DbSqlx e), d'\<lparr>db_tables := db_tables d\<rparr>)
           | (Panic, d') \<Rightarrow> (Panic, d'\<lparr>db_tables := db_tables d\<rparr>))
      | (DbFail e, d) \<Rightarrow> (Err (DbSqlx e), d)
      | (DbFailAfter e, d) \<Rightarrow>
          (case q d of
             (Ok a, d') \<Rightarrow> (Err (DbSqlx e), d')
           | (_, d') \<Rightarrow> (Err (DbSqlx e), d'\<lparr>db_tables := db_tables d\<rparr>)))"

text \<open>Row-level security: a row is visible, and may be written, in the context of its bureau.\<close>

definition rls_visible :: "scoped_tx \<Rightarrow> uuid \<Rightarrow> bool" where
  "rls_visible t bureau \<longleftrightarrow> tx_context t = Some bureau"

definition tx_tables :: "scoped_tx \<Rightarrow> tables" where
  "tx_tables t = db_tables (tx_db t)"

definition set_tables :: "tables \<Rightarrow> scoped_tx \<Rightarrow> scoped_tx" where
  "set_tables tb t = t\<lparr>tx_db := (tx_db t)\<lparr>db_tables := tb\<rparr>\<rparr>"

definition rls_refused :: sql_error where
  "rls_refused = SqlDatabase (lit ''42501'') None"

definition check_violated :: sql_error where
  "check_violated = SqlDatabase (lit ''23514'') None"

definition fk_violated :: sql_error where
  "fk_violated = SqlDatabase (lit ''23503'') None"

definition unique_violated :: sql_error where
  "unique_violated = SqlDatabase (lit ''23505'') None"

definition bad_text :: sql_error where
  "bad_text = SqlDatabase (lit ''22021'') None"

definition out_of_range :: sql_error where
  "out_of_range = SqlDatabase (lit ''22003'') None"

definition i32_max :: int where
  "i32_max = 2 ^ 31 - 1"

text \<open>\<^verbatim>\<open>ORDER BY created_at DESC, id DESC\<close>.\<close>

definition newest_first :: "('r \<Rightarrow> timestamp) \<Rightarrow> ('r \<Rightarrow> uuid) \<Rightarrow> 'r list \<Rightarrow> 'r list" where
  "newest_first created ident rows = rev (sort_key (\<lambda>r. (created r, unat (ident r))) rows)"

end
