(* ===== verification/DbRepo.thy ===== *)
theory DbRepo
  imports Db
begin

text \<open>
  The repositories of \<^verbatim>\<open>crates/otdel-db/src\<close>: \<^verbatim>\<open>partners.rs\<close>, \<^verbatim>\<open>materials.rs\<close> and
  \<^verbatim>\<open>jobs.rs\<close>, one definition per function, with the SQL of its statements read as what it does
  to the tables. A statement sees and writes the rows that row-level security lets through.
\<close>

section \<open>Updates\<close>

text \<open>\<^verbatim>\<open>UPDATE ... WHERE ... RETURNING\<close>, of which \<^verbatim>\<open>fetch_optional\<close> keeps the first row.\<close>

definition update_rows :: "('r \<Rightarrow> bool) \<Rightarrow> ('r \<Rightarrow> 'r) \<Rightarrow> 'r list \<Rightarrow> 'r list" where
  "update_rows hit f rows = map (\<lambda>r. if hit r then f r else r) rows"

definition first_updated :: "('r \<Rightarrow> bool) \<Rightarrow> ('r \<Rightarrow> 'r) \<Rightarrow> 'r list \<Rightarrow> 'r option" where
  "first_updated hit f rows = map_option f (find hit rows)"

section \<open>Partners\<close>

definition partner_from_row :: "partner_row \<Rightarrow> partner" where
  "partner_from_row r =
     \<lparr>partner_id = pr_id r, partner_name_of = pr_name r, partner_note_of = pr_note r,
      partner_created_at = pr_created_at r, partner_updated_at = pr_updated_at r\<rparr>"

definition own_row :: "scoped_tx \<Rightarrow> uuid \<Rightarrow> bool" where
  "own_row t bureau \<longleftrightarrow> rls_visible t bureau \<and> bureau = tx_bureau_id t"

definition visible_partners :: "scoped_tx \<Rightarrow> partner_row list" where
  "visible_partners t = filter (\<lambda>r. own_row t (pr_bureau_id r)) (partners (tx_tables t))"

definition partners_list :: "(scoped_tx, db_error, partner list) stateful" where
  "partners_list = statement (\<lambda>t.
     (Ok (map partner_from_row (newest_first pr_created_at pr_id (visible_partners t))), t))"

definition partner_insert_error :: "scoped_tx \<Rightarrow> partner_row \<Rightarrow> sql_error option" where
  "partner_insert_error t r =
     (if \<not> partner_text r then Some bad_text
      else if \<not> rls_visible t (pr_bureau_id r) then Some rls_refused
      else if \<not> partner_check r then Some check_violated
      else if pr_id r \<in> pr_id ` set (partners (tx_tables t)) then Some unique_violated
      else if pr_bureau_id r \<notin> br_id ` set (bureaus (tx_tables t)) then Some fk_violated
      else None)"

definition new_partner_row :: "db \<Rightarrow> uuid \<Rightarrow> uuid \<Rightarrow> ustr \<Rightarrow> ustr option \<Rightarrow> partner_row" where
  "new_partner_row d u bureau name note =
     \<lparr>pr_id = u, pr_bureau_id = bureau, pr_name = name, pr_note = note,
      pr_created_at = db_now d, pr_updated_at = db_now d\<rparr>"

definition partner_insert :: "ustr \<Rightarrow> ustr option \<Rightarrow> (scoped_tx, sql_error, partner_row) stateful" where
  "partner_insert name note t =
     (case gen_random_uuid (tx_db t) of (u, d) \<Rightarrow>
       let t = t\<lparr>tx_db := d\<rparr>; r = new_partner_row d u (tx_bureau_id t) name note
       in case partner_insert_error t r of
            Some e \<Rightarrow> (Err e, t)
          | None \<Rightarrow> (Ok r, set_tables ((tx_tables t)\<lparr>partners := partners (tx_tables t) @ [r]\<rparr>) t))"

definition partners_create :: "ustr \<Rightarrow> ustr option \<Rightarrow> (scoped_tx, db_error, partner) stateful" where
  "partners_create name note =
     st_then (statement (partner_insert name note)) (\<lambda>r. st_ok (partner_from_row r))"

definition partners_get :: "uuid \<Rightarrow> (scoped_tx, db_error, partner option) stateful" where
  "partners_get pid = statement (\<lambda>t.
     (Ok (map_option partner_from_row (find (\<lambda>r. pr_id r = pid) (visible_partners t))), t))"

record partner_patch =
  patch_name :: "ustr option"
  patch_note :: "ustr option option"

definition patch_is_empty :: "partner_patch \<Rightarrow> bool" where
  "patch_is_empty p \<longleftrightarrow> patch_name p = None \<and> patch_note p = None"

definition patched_partner :: "timestamp \<Rightarrow> partner_patch \<Rightarrow> partner_row \<Rightarrow> partner_row" where
  "patched_partner now p r =
     r\<lparr>pr_name := (case patch_name p of None \<Rightarrow> pr_name r | Some n \<Rightarrow> n),
       pr_note := (case patch_note p of None \<Rightarrow> pr_note r | Some n \<Rightarrow> n),
       pr_updated_at := now\<rparr>"

definition patch_text :: "partner_patch \<Rightarrow> bool" where
  "patch_text p \<longleftrightarrow> pg_text_opt (patch_name p)
     \<and> (case patch_note p of None \<Rightarrow> True | Some n \<Rightarrow> pg_text_opt n)"

definition partners_update_row :: "uuid \<Rightarrow> partner_patch \<Rightarrow> (scoped_tx, db_error, partner option) stateful"
  where
  "partners_update_row pid p = statement (\<lambda>t.
     let hit = (\<lambda>r. own_row t (pr_bureau_id r) \<and> pr_id r = pid);
         f = patched_partner (db_now (tx_db t)) p;
         rows = partners (tx_tables t)
     in if \<not> patch_text p then (Err bad_text, t)
        else if \<not> list_all (\<lambda>r. hit r \<longrightarrow> partner_check (f r)) rows then (Err check_violated, t)
        else (Ok (map_option partner_from_row (first_updated hit f rows)),
              set_tables ((tx_tables t)\<lparr>partners := update_rows hit f rows\<rparr>) t))"

definition partners_exists :: "uuid \<Rightarrow> (scoped_tx, db_error, bool) stateful" where
  "partners_exists pid = statement (\<lambda>t. (Ok (list_ex (\<lambda>r. pr_id r = pid) (visible_partners t)), t))"

section \<open>Materials\<close>

record stored_material =
  sm_material :: material
  sm_storage_key :: ustr

record new_material =
  nm_partner_id :: uuid
  nm_filename :: ustr
  nm_media_type :: ustr
  nm_size_bytes :: int
  nm_sha256 :: ustr
  nm_storage_key :: ustr

datatype insert_outcome = Created material | Duplicate material

definition material_from_row :: "material_row \<Rightarrow> (db_error, material) outcome" where
  "material_from_row r =
     and_then (ok_or (DbDecode (lit ''unknown material status `'' @ mr_status r @ lit ''`''))
       (material_status_parse (mr_status r))) (\<lambda>status.
     Ok \<lparr>mat_id = mr_id r, mat_partner_id = mr_partner_id r, mat_filename = mr_filename r,
         mat_media_type = mr_media_type r, mat_size_bytes = mr_size_bytes r,
         mat_sha256 = mr_sha256 r, mat_status = status, mat_page_count = mr_page_count r,
         mat_created_at = mr_created_at r, mat_error = mr_error r\<rparr>)"

text \<open>\<^verbatim>\<open>collect\<close> of an iterator of results: the first error ends it.\<close>

fun collect_ok :: "('e, 'a) outcome list \<Rightarrow> ('e, 'a list) outcome" where
  "collect_ok [] = Ok []"
| "collect_ok (r # rs) = and_then r (\<lambda>a. and_then (collect_ok rs) (\<lambda>as. Ok (a # as)))"

fun transpose_ok :: "('e, 'a) outcome option \<Rightarrow> ('e, 'a option) outcome" where
  "transpose_ok None = Ok None"
| "transpose_ok (Some r) = and_then r (\<lambda>a. Ok (Some a))"

definition visible_materials :: "scoped_tx \<Rightarrow> uuid \<Rightarrow> material_row list" where
  "visible_materials t pid =
     filter (\<lambda>r. own_row t (mr_bureau_id r) \<and> mr_partner_id r = pid)
       (materials (tx_tables t))"

definition materials_list_for_partner :: "uuid \<Rightarrow> (scoped_tx, db_error, material list) stateful" where
  "materials_list_for_partner pid =
     st_then (statement (\<lambda>t. (Ok (newest_first mr_created_at mr_id (visible_materials t pid)), t)))
       (\<lambda>rows. st_lift (collect_ok (map material_from_row rows)))"

definition materials_find_by_digest ::
    "uuid \<Rightarrow> ustr \<Rightarrow> (scoped_tx, db_error, material option) stateful" where
  "materials_find_by_digest pid sha256 =
     st_then (statement (\<lambda>t. (Ok (find (\<lambda>r. mr_sha256 r = sha256) (visible_materials t pid)), t)))
       (\<lambda>row. st_lift (transpose_ok (map_option material_from_row row)))"

definition materials_get_in_partner ::
    "uuid \<Rightarrow> uuid \<Rightarrow> (scoped_tx, db_error, stored_material option) stateful" where
  "materials_get_in_partner pid mid =
     st_then (statement (\<lambda>t. (Ok (find (\<lambda>r. mr_id r = mid) (visible_materials t pid)), t)))
       (\<lambda>row. case row of
          None \<Rightarrow> st_ok None
        | Some r \<Rightarrow>
            st_then (st_lift (material_from_row r)) (\<lambda>m.
              st_ok (Some \<lparr>sm_material = m, sm_storage_key = mr_storage_key r\<rparr>)))"

definition new_material_row :: "db \<Rightarrow> uuid \<Rightarrow> uuid \<Rightarrow> new_material \<Rightarrow> material_row" where
  "new_material_row d u bureau n =
     \<lparr>mr_id = u, mr_bureau_id = bureau, mr_partner_id = nm_partner_id n,
      mr_filename = nm_filename n, mr_media_type = nm_media_type n,
      mr_size_bytes = nm_size_bytes n, mr_sha256 = nm_sha256 n,
      mr_storage_key = nm_storage_key n, mr_status = lit ''queued'', mr_page_count = None,
      mr_error = None, mr_created_at = db_now d, mr_updated_at = db_now d\<rparr>"

text \<open>
  \<^verbatim>\<open>INSERT ... ON CONFLICT (partner_id, sha256) DO NOTHING RETURNING\<close>: policies and checks come
  first, then the conflict (with any row, visible or not), then the primary key and the
  foreign key.
\<close>

definition material_insert :: "new_material \<Rightarrow> (scoped_tx, sql_error, material_row option) stateful" where
  "material_insert n t =
     (case gen_random_uuid (tx_db t) of (u, d) \<Rightarrow>
       let t = t\<lparr>tx_db := d\<rparr>;
           r = new_material_row d u (tx_bureau_id t) n
       in if \<not> material_text r then (Err bad_text, t)
          else if \<not> rls_visible t (mr_bureau_id r) then (Err rls_refused, t)
          else if \<not> material_check r then (Err check_violated, t)
          else if content_key r \<in> content_key ` set (materials (tx_tables t)) then
            (Ok None, t)
          else if u \<in> mr_id ` set (materials (tx_tables t)) then (Err unique_violated, t)
          else if (mr_bureau_id r, mr_partner_id r) \<notin> partner_key ` set (partners (tx_tables t)) then
            (Err fk_violated, t)
          else (Ok (Some r),
                set_tables ((tx_tables t)\<lparr>materials := materials (tx_tables t) @ [r]\<rparr>) t))"

definition materials_insert :: "new_material \<Rightarrow> (scoped_tx, db_error, insert_outcome) stateful" where
  "materials_insert n =
     st_then (statement (material_insert n)) (\<lambda>inserted.
       case inserted of
         Some r \<Rightarrow> st_then (st_lift (material_from_row r)) (\<lambda>m. st_ok (Created m))
       | None \<Rightarrow>
           st_then (materials_find_by_digest (nm_partner_id n) (nm_sha256 n)) (\<lambda>existing.
           st_then (st_lift (ok_or (DbDecode (lit ''insert reported a duplicate but the existing material is not visible''))
             existing)) (\<lambda>m. st_ok (Duplicate m))))"

definition requeued_material :: "timestamp \<Rightarrow> material_row \<Rightarrow> material_row" where
  "requeued_material now r = r\<lparr>mr_status := lit ''queued'', mr_error := None, mr_updated_at := now\<rparr>"

definition materials_requeue :: "uuid \<Rightarrow> uuid \<Rightarrow> (scoped_tx, db_error, material option) stateful" where
  "materials_requeue pid mid =
     st_then (statement (\<lambda>t.
       let hit = (\<lambda>r. own_row t (mr_bureau_id r) \<and> mr_partner_id r = pid \<and> mr_id r = mid);
           f = requeued_material (db_now (tx_db t));
           rows = materials (tx_tables t)
       in (Ok (first_updated hit f rows),
           set_tables ((tx_tables t)\<lparr>materials := update_rows hit f rows\<rparr>) t)))
       (\<lambda>row. st_lift (transpose_ok (map_option material_from_row row)))"

section \<open>Jobs\<close>

definition job_from_row :: "job_row \<Rightarrow> (db_error, job) outcome" where
  "job_from_row r =
     and_then (ok_or (DbDecode (lit ''unknown job kind `'' @ jr_kind r @ lit ''`''))
       (job_kind_parse (jr_kind r))) (\<lambda>kind.
     and_then (ok_or (DbDecode (lit ''unknown job status `'' @ jr_status r @ lit ''`''))
       (job_status_parse (jr_status r))) (\<lambda>status.
     Ok \<lparr>job_id = jr_id r, job_partner_id = jr_partner_id r, job_material_id = jr_material_id r,
         job_kind_of = kind, job_status_of = status, job_stage = jr_stage r,
         job_attempts = jr_attempts r, job_created_at = jr_created_at r,
         job_updated_at = jr_updated_at r, job_error = jr_error r\<rparr>))"

definition visible_jobs :: "scoped_tx \<Rightarrow> job_row list" where
  "visible_jobs t = filter (\<lambda>r. own_row t (jr_bureau_id r)) (jobs (tx_tables t))"

definition jobs_list_for_partner :: "uuid \<Rightarrow> (scoped_tx, db_error, job list) stateful" where
  "jobs_list_for_partner pid =
     st_then (statement (\<lambda>t.
         (Ok (newest_first jr_created_at jr_id (filter (\<lambda>r. jr_partner_id r = pid) (visible_jobs t))), t)))
       (\<lambda>rows. st_lift (collect_ok (map job_from_row rows)))"

definition new_job_row :: "db \<Rightarrow> uuid \<Rightarrow> uuid \<Rightarrow> uuid \<Rightarrow> uuid \<Rightarrow> job_kind \<Rightarrow> ustr \<Rightarrow> job_row" where
  "new_job_row d u bureau pid mid kind key =
     \<lparr>jr_id = u, jr_bureau_id = bureau, jr_partner_id = pid, jr_material_id = mid,
      jr_kind = job_kind_as_str kind, jr_status = lit ''queued'', jr_stage = None,
      jr_attempts = 0, jr_max_attempts = 5, jr_idempotency_key = key, jr_run_after = db_now d,
      jr_lease_owner = None, jr_lease_expires_at = None, jr_error = None,
      jr_created_at = db_now d, jr_updated_at = db_now d\<rparr>"

definition job_insert ::
    "uuid \<Rightarrow> uuid \<Rightarrow> job_kind \<Rightarrow> ustr \<Rightarrow> (scoped_tx, sql_error, job_row option) stateful" where
  "job_insert pid mid kind key t =
     (case gen_random_uuid (tx_db t) of (u, d) \<Rightarrow>
       let t = t\<lparr>tx_db := d\<rparr>;
           r = new_job_row d u (tx_bureau_id t) pid mid kind key
       in if \<not> rls_visible t (jr_bureau_id r) then (Err rls_refused, t)
          else if \<not> job_check r then (Err check_violated, t)
          else if queue_key r \<in> queue_key ` set (jobs (tx_tables t)) then
            (Ok None, t)
          else if u \<in> jr_id ` set (jobs (tx_tables t)) then (Err unique_violated, t)
          else if job_material_key r \<notin> material_key ` set (materials (tx_tables t)) then
            (Err fk_violated, t)
          else (Ok (Some r), set_tables ((tx_tables t)\<lparr>jobs := jobs (tx_tables t) @ [r]\<rparr>) t))"

definition enqueue_extraction :: "externs \<Rightarrow> uuid \<Rightarrow> uuid \<Rightarrow> (scoped_tx, db_error, job) stateful" where
  "enqueue_extraction x pid mid =
     (let kind = ExtractDocument; key = extraction_idempotency_key (uuid_to_string x) mid kind
      in st_then (statement (job_insert pid mid kind key)) (\<lambda>inserted.
         case inserted of
           Some r \<Rightarrow> st_lift (job_from_row r)
         | None \<Rightarrow>
             st_then (statement (\<lambda>t. (Ok (find (\<lambda>r. jr_idempotency_key r = key) (visible_jobs t)), t)))
               (\<lambda>row.
             st_then (st_lift (ok_or (DbDecode (lit ''job insert conflicted but the existing job is not visible''))
               row)) (\<lambda>r. st_lift (job_from_row r)))))"

definition requeued_job :: "timestamp \<Rightarrow> job_row \<Rightarrow> job_row" where
  "requeued_job now r =
     r\<lparr>jr_status := lit ''queued'', jr_stage := None, jr_error := None, jr_run_after := now,
       jr_lease_owner := None, jr_lease_expires_at := None,
       jr_max_attempts := max (jr_max_attempts r) (jr_attempts r + 1), jr_updated_at := now\<rparr>"

definition requeue_extraction :: "externs \<Rightarrow> uuid \<Rightarrow> uuid \<Rightarrow> (scoped_tx, db_error, job) stateful" where
  "requeue_extraction x pid mid =
     (let key = extraction_idempotency_key (uuid_to_string x) mid ExtractDocument
      in st_then (statement (\<lambda>t.
           let hit = (\<lambda>r. own_row t (jr_bureau_id r) \<and> jr_partner_id r = pid
                 \<and> jr_material_id r = mid \<and> jr_idempotency_key r = key);
               f = requeued_job (db_now (tx_db t));
               rows = jobs (tx_tables t)
           in if \<not> list_all (\<lambda>r. hit r \<longrightarrow> jr_attempts r + 1 \<le> i32_max) rows then (Err out_of_range, t)
              else (Ok (first_updated hit f rows),
                    set_tables ((tx_tables t)\<lparr>jobs := update_rows hit f rows\<rparr>) t)))
         (\<lambda>updated. case updated of
            Some r \<Rightarrow> st_lift (job_from_row r)
          | None \<Rightarrow> enqueue_extraction x pid mid))"

definition lease_expired :: "timestamp \<Rightarrow> job_row \<Rightarrow> bool" where
  "lease_expired now r \<longleftrightarrow> jr_status r = lit ''running''
     \<and> (case jr_lease_expires_at r of None \<Rightarrow> False | Some e \<Rightarrow> e < now)"

definition reclaimed_job :: "timestamp \<Rightarrow> job_row \<Rightarrow> job_row" where
  "reclaimed_job now r =
     r\<lparr>jr_status := (if jr_attempts r \<ge> jr_max_attempts r then lit ''failed'' else lit ''queued''),
       jr_error := (if jr_attempts r \<ge> jr_max_attempts r
                    then Some (lit ''attempt limit reached after an interrupted run'')
                    else jr_error r),
       jr_lease_owner := None, jr_lease_expires_at := None, jr_run_after := now,
       jr_updated_at := now\<rparr>"

definition reclaim_expired_leases :: "(scoped_tx, db_error, nat) stateful" where
  "reclaim_expired_leases = statement (\<lambda>t.
     let now = db_now (tx_db t);
         hit = (\<lambda>r. own_row t (jr_bureau_id r) \<and> lease_expired now r);
         rows = jobs (tx_tables t)
     in (Ok (length (filter hit rows)),
         set_tables ((tx_tables t)\<lparr>jobs := update_rows hit (reclaimed_job now) rows\<rparr>) t))"

text \<open>\<^verbatim>\<open>GROUP BY\<close> in the order of the first row of each group; PostgreSQL promises no order.\<close>

definition count_by_status :: "(scoped_tx, db_error, (job_status \<times> nat) list) stateful" where
  "count_by_status =
     st_then (statement (\<lambda>t.
       let ss = map jr_status (visible_jobs t)
       in (Ok (map (\<lambda>s. (s, length (filter (\<lambda>s'. s' = s) ss))) (remdups ss)), t)))
       (\<lambda>rows. st_lift (collect_ok (map (\<lambda>(s, n).
          and_then (ok_or (DbDecode (lit ''unknown job status `'' @ s @ lit ''`''))
            (job_status_parse s)) (\<lambda>status. Ok (status, n))) rows)))"

end
