(* ===== verification/StorageErrors.thy ===== *)
theory StorageErrors
  imports RustBase
begin

text \<open>
  \<^verbatim>\<open>crates/otdel-storage/src/error.rs\<close>: the failures of the object store. An \<^verbatim>\<open>io::Error\<close> is
  its kind, as far as the code looks at it (\<^verbatim>\<open>ErrorKind::NotFound\<close> or anything else).
\<close>

datatype stream_error_kind = TooLarge | UnsupportedContent | Upstream

record stream_error =
  se_kind :: stream_error_kind
  se_message :: ustr

definition stream_error_new :: "stream_error_kind \<Rightarrow> ustr \<Rightarrow> stream_error" where
  "stream_error_new k msg = \<lparr>se_kind = k, se_message = msg\<rparr>"

definition stream_too_large :: "ustr \<Rightarrow> stream_error" where
  "stream_too_large msg = stream_error_new TooLarge msg"

definition stream_unsupported :: "ustr \<Rightarrow> stream_error" where
  "stream_unsupported msg = stream_error_new UnsupportedContent msg"

definition stream_upstream :: "ustr \<Rightarrow> stream_error" where
  "stream_upstream msg = stream_error_new Upstream msg"

datatype io_kind = IoNotFound | IoOther

datatype storage_error =
    InvalidKey ustr
  | StorageNotFound ustr
  | StorageStream stream_error
  | StorageIo ustr io_kind
  | StorageUnavailable ustr

definition storage_stream_error :: "storage_error \<Rightarrow> stream_error option" where
  "storage_stream_error e = (case e of StorageStream se \<Rightarrow> Some se | _ \<Rightarrow> None)"

lemma stream_kind_simps [simp]:
  "se_kind (stream_too_large m) = TooLarge"
  "se_kind (stream_unsupported m) = UnsupportedContent"
  "se_kind (stream_upstream m) = Upstream"
  by (simp_all add: stream_too_large_def stream_unsupported_def stream_upstream_def
      stream_error_new_def)

lemma storage_stream_error_Some [simp]:
  "storage_stream_error e = Some se \<longleftrightarrow> e = StorageStream se"
  by (cases e) (simp_all add: storage_stream_error_def)

end
