(* ===== verification/ObjectKey.thy ===== *)
theory ObjectKey
  imports StorageErrors Secret
begin

text \<open>
  \<^verbatim>\<open>crates/otdel-storage/src/key.rs\<close>: the key of a stored object, the only thing that decides
  where bytes are written. A path is its list of components below the file system's root; code
  point 47 is the slash.
\<close>

type_synonym path = "ustr list"

record object_namespace =
  ns_bureau_id :: uuid
  ns_partner_id :: uuid

datatype object_key = ObjectKey (key_str: ustr)

definition is_lower_hex :: "byte \<Rightarrow> bool" where
  "is_lower_hex b \<longleftrightarrow> (48 \<le> unat b \<and> unat b \<le> 57) \<or> (97 \<le> unat b \<and> unat b \<le> 102)"

definition is_sha256_hex :: "ustr \<Rightarrow> bool" where
  "is_sha256_hex value \<longleftrightarrow> length (utf8 value) = 64 \<and> list_all is_lower_hex (utf8 value)"

definition object_key_parse :: "externs \<Rightarrow> ustr \<Rightarrow> (storage_error, object_key) outcome" where
  "object_key_parse x raw =
     (let parts = split_on 47 raw
      in if length parts \<noteq> 4 then Err (InvalidKey (lit ''key must have exactly four segments''))
         else
           and_then (ok_or (InvalidKey (lit ''first segment must be `bureau-<uuid>`''))
             (strip_prefix (lit ''bureau-'') (parts ! 0))) (\<lambda>bureau.
           and_then (ok_or (InvalidKey (lit ''bureau segment is not a UUID''))
             (uuid_parse_str x bureau)) (\<lambda>_.
           and_then (ok_or (InvalidKey (lit ''second segment must be `partner-<uuid>`''))
             (strip_prefix (lit ''partner-'') (parts ! 1))) (\<lambda>partner.
           and_then (ok_or (InvalidKey (lit ''partner segment is not a UUID''))
             (uuid_parse_str x partner)) (\<lambda>_.
           if length (utf8 (parts ! 2)) \<noteq> 2 \<or> \<not> list_all is_lower_hex (utf8 (parts ! 2))
           then Err (InvalidKey (lit ''third segment must be two lowercase hex characters''))
           else if \<not> is_sha256_hex (parts ! 3)
           then Err (InvalidKey
             (lit ''fourth segment must be a 64-character lowercase hex digest''))
           else (case slice_to 2 (parts ! 3) of
                   None \<Rightarrow> Panic
                 | Some shard \<Rightarrow>
                     if parts ! 2 \<noteq> shard
                     then Err (InvalidKey (lit ''shard segment does not match the digest''))
                     else Ok (ObjectKey raw)))))))"

definition key_for_digest ::
    "externs \<Rightarrow> object_namespace \<Rightarrow> ustr \<Rightarrow> (storage_error, object_key) outcome" where
  "key_for_digest x ns sha256_hex =
     (if \<not> is_sha256_hex sha256_hex then
        Err (InvalidKey (lit ''content digest is not a 64-character lowercase hex string''))
      else (case slice_to 2 sha256_hex of
              None \<Rightarrow> Panic
            | Some shard \<Rightarrow>
                object_key_parse x
                  (lit ''bureau-'' @ uuid_to_string x (ns_bureau_id ns)
                   @ lit ''/partner-'' @ uuid_to_string x (ns_partner_id ns)
                   @ lit ''/'' @ shard @ lit ''/'' @ sha256_hex)))"

definition key_digest :: "object_key \<Rightarrow> ustr" where
  "key_digest k = last_segment (\<lambda>c. c = 47) (key_str k)"

definition key_namespace ::
    "externs \<Rightarrow> object_key \<Rightarrow> (storage_error, object_namespace) outcome" where
  "key_namespace x k =
     (let parts = split_on 47 (key_str k);
          next_part = (\<lambda>i. if i < length parts then Some (parts ! i) else None)
      in and_then (ok_or (InvalidKey (lit ''missing bureau segment''))
           (Option.bind (Option.bind (next_part 0) (strip_prefix (lit ''bureau-'')))
             (uuid_parse_str x))) (\<lambda>bureau.
         and_then (ok_or (InvalidKey (lit ''missing partner segment''))
           (Option.bind (Option.bind (next_part (1::nat)) (strip_prefix (lit ''partner-'')))
             (uuid_parse_str x))) (\<lambda>partner.
         Ok \<lparr>ns_bureau_id = bureau, ns_partner_id = partner\<rparr>)))"

text \<open>\<^verbatim>\<open>Path::components\<close> on Unix: empty parts vanish, a dot stays only in front.\<close>

datatype component = RootDir | CurDir | ParentDir | Normal ustr

fun body_components :: "ustr list \<Rightarrow> component list" where
  "body_components [] = []"
| "body_components (seg # segs) =
     (if seg = [] \<or> seg = [46] then body_components segs
      else if seg = [46, 46] then ParentDir # body_components segs
      else Normal seg # body_components segs)"

definition path_components :: "ustr \<Rightarrow> component list" where
  "path_components s =
     (let segs = split_on 47 s
      in if prefix [47] s then RootDir # body_components segs
         else (case segs of
                 seg # rest \<Rightarrow> if seg = [46] then CurDir # body_components rest
                                else body_components segs
               | [] \<Rightarrow> []))"

fun push_segments :: "path \<Rightarrow> ustr list \<Rightarrow> (storage_error, path) outcome" where
  "push_segments path [] = Ok path"
| "push_segments path (seg # segs) =
     (case path_components seg of
        [Normal part] \<Rightarrow> push_segments (path @ [part]) segs
      | _ \<Rightarrow> Err (InvalidKey (lit ''key segment is not a plain path component'')))"

definition resolve_within :: "path \<Rightarrow> object_key \<Rightarrow> (storage_error, path) outcome" where
  "resolve_within root k =
     and_then (push_segments root (split_on 47 (key_str k))) (\<lambda>path.
       if \<not> prefix root path
       then Err (InvalidKey (lit ''resolved path escapes the storage root''))
       else Ok path)"

section \<open>Shapes\<close>

lemma is_lower_hex_all: "list_all is_lower_hex (utf8 s) \<longleftrightarrow> (\<forall>c\<in>set s. lower_hex_char c)"
proof -
  have "is_lower_hex b \<longleftrightarrow> lower_hex_char (unat b)" for b
    by (simp add: is_lower_hex_def lower_hex_char_def is_ascii_digit_def)
  moreover have "\<And>n. lower_hex_char n \<Longrightarrow> n < 128"
    by (auto simp: lower_hex_char_def is_ascii_digit_def)
  ultimately show ?thesis
    using utf8_all_ascii [of lower_hex_char s] by (simp add: list_all_iff)
qed

lemma lower_hex_ascii: "lower_hex_char c \<Longrightarrow> c < 128"
  by (auto simp: lower_hex_char_def is_ascii_digit_def)

lemma is_lower_hex_length:
  "list_all is_lower_hex (utf8 s) \<Longrightarrow> length (utf8 s) = length s"
  by (simp add: is_lower_hex_all utf8_ascii lower_hex_ascii)

lemma is_sha256_hex_iff:
  "is_sha256_hex s \<longleftrightarrow> length s = 64 \<and> (\<forall>c\<in>set s. lower_hex_char c)"
  using is_lower_hex_length [of s] by (auto simp: is_sha256_hex_def is_lower_hex_all)

lemma slice_sha256: "is_sha256_hex s \<Longrightarrow> slice_to 2 s = Some (take 2 s)"
  by (rule slice_to_ascii) (auto simp: is_sha256_hex_iff lower_hex_ascii)

lemma fingerprint_is_sha256_hex: "length d = 32 \<Longrightarrow> is_sha256_hex (hex_lower d)"
  by (auto simp: is_sha256_hex_iff dest: hex_lower_chars)

text \<open>What an accepted key looks like.\<close>

definition key_shape :: "externs \<Rightarrow> ustr \<Rightarrow> ustr \<Rightarrow> ustr \<Rightarrow> ustr \<Rightarrow> bool" where
  "key_shape x raw b p d \<longleftrightarrow>
     split_on 47 raw = [lit ''bureau-'' @ b, lit ''partner-'' @ p, take 2 d, d]
     \<and> uuid_parse_str x b \<noteq> None \<and> uuid_parse_str x p \<noteq> None \<and> is_sha256_hex d"

lemma length_4_cases: "length xs = 4 \<Longrightarrow> \<exists>a b c d. xs = [a, b, c, d]"
  by (auto simp: numeral_eq_Suc length_Suc_conv)

lemma shard_hex: "is_sha256_hex d \<Longrightarrow> length (utf8 (take 2 d)) = 2 \<and> list_all is_lower_hex (utf8 (take 2 d))"
proof -
  assume d: "is_sha256_hex d"
  then have "list_all is_lower_hex (utf8 (take 2 d))"
    by (auto simp: is_lower_hex_all is_sha256_hex_iff dest: in_set_takeD)
  moreover from this have "length (utf8 (take 2 d)) = 2"
    using d is_lower_hex_length by (simp add: is_sha256_hex_iff)
  ultimately show ?thesis by simp
qed

lemma object_key_parse_Ok:
  "object_key_parse x raw = Ok k \<longleftrightarrow> k = ObjectKey raw \<and> (\<exists>b p d. key_shape x raw b p d)"
proof
  assume ok: "object_key_parse x raw = Ok k"
  then have "length (split_on 47 raw) = 4"
    by (auto simp: object_key_parse_def Let_def split: if_splits)
  then obtain a b c d where s: "split_on 47 raw = [a, b, c, d]"
    using length_4_cases by blast
  from ok s show "k = ObjectKey raw \<and> (\<exists>b p d. key_shape x raw b p d)"
    by (auto simp: object_key_parse_def Let_def outcome_simps strip_prefix_Some slice_sha256
        key_shape_def split: if_splits)
next
  assume "k = ObjectKey raw \<and> (\<exists>b p d. key_shape x raw b p d)"
  then obtain b p d where k: "k = ObjectKey raw" and sh: "key_shape x raw b p d" by blast
  from sh have "slice_to 2 d = Some (take 2 d)" by (simp add: key_shape_def slice_sha256)
  with sh k shard_hex [of d] show "object_key_parse x raw = Ok k"
    by (auto simp: object_key_parse_def Let_def outcome_simps key_shape_def)
qed

lemma object_key_parse_no_panic: "object_key_parse x raw \<noteq> Panic"
  by (auto simp: object_key_parse_def Let_def outcome_simps slice_sha256 split: if_splits)

section \<open>Building a key\<close>

definition key_text :: "externs \<Rightarrow> object_namespace \<Rightarrow> ustr \<Rightarrow> ustr" where
  "key_text x ns d =
     lit ''bureau-'' @ uuid_to_string x (ns_bureau_id ns) @ lit ''/partner-''
     @ uuid_to_string x (ns_partner_id ns) @ lit ''/'' @ take 2 d @ lit ''/'' @ d"

lemma slash_notin: "47 \<notin> set (lit ''bureau-'')" "47 \<notin> set (lit ''partner-'')"
  by (simp_all add: lit_def)

lemma is_sha256_hex_no_slash: "is_sha256_hex d \<Longrightarrow> 47 \<notin> set d"
  by (auto simp: is_sha256_hex_iff lower_hex_char_def is_ascii_digit_def)

lemma split_key_text:
  assumes "uuid_documented x" "is_sha256_hex d"
  shows "split_on 47 (key_text x ns d) =
    [lit ''bureau-'' @ uuid_to_string x (ns_bureau_id ns),
     lit ''partner-'' @ uuid_to_string x (ns_partner_id ns), take 2 d, d]"
proof -
  have u: "47 \<notin> set (uuid_to_string x u)" for u
    using assms(1) by (intro uuid_text_no_slash uuid_display_text)
  have d: "47 \<notin> set d" using assms(2) by (rule is_sha256_hex_no_slash)
  then have t: "47 \<notin> set (take 2 d)" by (auto dest: in_set_takeD)
  let ?b = "lit ''bureau-'' @ uuid_to_string x (ns_bureau_id ns)"
  let ?p = "lit ''partner-'' @ uuid_to_string x (ns_partner_id ns)"
  have "key_text x ns d = str_join [47] [?b, ?p, take 2 d, d]"
    by (simp add: key_text_def lit_def)
  then show ?thesis using u d t slash_notin by (simp del: str_join.simps add: split_on_join)
qed

lemma key_text_parses:
  assumes "uuid_documented x" "is_sha256_hex d"
  shows "object_key_parse x (key_text x ns d) = Ok (ObjectKey (key_text x ns d))"
proof -
  have "key_shape x (key_text x ns d) (uuid_to_string x (ns_bureau_id ns))
      (uuid_to_string x (ns_partner_id ns)) d"
    using assms by (simp add: key_shape_def split_key_text uuid_parse_display)
  then show ?thesis by (auto simp: object_key_parse_Ok)
qed

lemma key_for_digest_Ok:
  assumes "uuid_documented x" "is_sha256_hex d"
  shows "key_for_digest x ns d = Ok (ObjectKey (key_text x ns d))"
  using assms by (simp add: key_for_digest_def slice_sha256 key_text_parses flip: key_text_def)

lemma key_for_digest_Err: "\<not> is_sha256_hex d \<Longrightarrow> \<exists>m. key_for_digest x ns d = Err (InvalidKey m)"
  by (simp add: key_for_digest_def)

lemma key_digest_parse:
  assumes "object_key_parse x raw = Ok k" "key_shape x raw b p d"
  shows "key_digest k = d"
  using assms by (auto simp: object_key_parse_Ok key_digest_def last_segment_split key_shape_def)

lemma key_namespace_shape:
  assumes "key_shape x raw b p d" "uuid_parse_str x b = Some ub" "uuid_parse_str x p = Some up"
  shows "key_namespace x (ObjectKey raw) = Ok \<lparr>ns_bureau_id = ub, ns_partner_id = up\<rparr>"
  using assms by (simp add: key_namespace_def key_shape_def)

lemma key_text_roundtrip:
  assumes "uuid_documented x" "is_sha256_hex d"
  shows "key_namespace x (ObjectKey (key_text x ns d)) = Ok ns"
    and "key_digest (ObjectKey (key_text x ns d)) = d"
  using assms
  by (simp_all add: key_namespace_def key_digest_def last_segment_split split_key_text
      uuid_parse_display)

lemma key_text_inj:
  assumes "uuid_documented x" "is_sha256_hex d" "is_sha256_hex d'"
  shows "key_text x ns d = key_text x ns' d' \<longleftrightarrow> ns = ns' \<and> d = d'"
proof
  assume "key_text x ns d = key_text x ns' d'"
  with key_text_roundtrip [OF assms(1,2), of ns] key_text_roundtrip [OF assms(1,3), of ns']
  show "ns = ns' \<and> d = d'" by auto
qed simp

section \<open>Resolving a key\<close>

lemma plain_components:
  "47 \<notin> set s \<Longrightarrow> s \<noteq> [] \<Longrightarrow> s \<noteq> [46] \<Longrightarrow> s \<noteq> [46, 46] \<Longrightarrow> path_components s = [Normal s]"
  by (auto simp: path_components_def Let_def split_on_clean prefix_def)

lemma push_plain:
  "(\<forall>s\<in>set segs. 47 \<notin> set s \<and> s \<noteq> [] \<and> s \<noteq> [46] \<and> s \<noteq> [46, 46])
    \<Longrightarrow> push_segments root segs = Ok (root @ segs)"
  by (induction segs arbitrary: root) (auto simp: plain_components)

lemma push_segments_Ok:
  "push_segments root segs = Ok path \<Longrightarrow>
     \<exists>parts. path = root @ parts \<and> length parts = length segs"
proof (induction segs arbitrary: root)
  case (Cons seg segs)
  then obtain part where "push_segments (root @ [part]) segs = Ok path"
    by (auto split: list.splits component.splits)
  from Cons.IH [OF this] show ?case by fastforce
qed simp

lemma lower_hex_not_dot: "\<forall>c\<in>set s. lower_hex_char c \<Longrightarrow> s \<noteq> [] \<Longrightarrow> 47 \<notin> set s \<and> hd s \<noteq> 46"
  by (cases s) (auto simp: lower_hex_char_def is_ascii_digit_def)

lemma resolve_shape:
  assumes "key_shape x raw b p d"
  shows "resolve_within root (ObjectKey raw)
    = Ok (root @ [lit ''bureau-'' @ b, lit ''partner-'' @ p, take 2 d, d])"
proof -
  let ?segs = "[lit ''bureau-'' @ b, lit ''partner-'' @ p, take 2 d, d]"
  have parts: "split_on 47 raw = ?segs" and d: "is_sha256_hex d"
    using assms by (simp_all add: key_shape_def)
  have slash: "\<forall>seg\<in>set ?segs. 47 \<notin> set seg"
    using split_on_segments [of _ 47 raw] unfolding parts by blast
  have "length d = 64" using d by (simp add: is_sha256_hex_iff)
  then obtain c d' where d': "d = c # d'" by (cases d) auto
  then have "c \<noteq> 46" using d lower_hex_not_dot [of d] by (auto simp: is_sha256_hex_iff)
  with d' have "\<forall>seg\<in>set ?segs. seg \<noteq> [] \<and> hd seg \<noteq> 46"
    by (simp add: lit_def)
  with slash have "\<forall>s\<in>set ?segs. 47 \<notin> set s \<and> s \<noteq> [] \<and> s \<noteq> [46] \<and> s \<noteq> [46, 46]"
    by (metis list.sel(1))
  then have "push_segments root ?segs = Ok (root @ ?segs)" by (rule push_plain)
  then show ?thesis by (simp add: resolve_within_def parts del: push_segments.simps)
qed

lemma parsed_key_resolves:
  assumes "object_key_parse x raw = Ok k"
  shows "\<exists>b p d. key_shape x raw b p d \<and> key_digest k = d \<and> resolve_within root k
    = Ok (root @ [lit ''bureau-'' @ b, lit ''partner-'' @ p, take 2 d, d])"
proof -
  from assms obtain b p d where k: "k = ObjectKey raw" and sh: "key_shape x raw b p d"
    by (auto simp: object_key_parse_Ok)
  from key_digest_parse [OF assms sh] resolve_shape [OF sh, of root] sh k show ?thesis by blast
qed

lemma resolve_within_inj:
  assumes "object_key_parse x r1 = Ok k1" "object_key_parse x r2 = Ok k2"
    and "resolve_within root k1 = Ok q" "resolve_within root k2 = Ok q"
  shows "k1 = k2"
proof -
  from assms obtain b p d b' p' d' where
    s: "key_shape x r1 b p d" "key_shape x r2 b' p' d'" "k1 = ObjectKey r1" "k2 = ObjectKey r2"
    by (auto simp: object_key_parse_Ok)
  from assms(3,4) s resolve_shape [OF s(1), of root] resolve_shape [OF s(2), of root]
  have "root @ [lit ''bureau-'' @ b, lit ''partner-'' @ p, take 2 d, d]
      = root @ [lit ''bureau-'' @ b', lit ''partner-'' @ p', take 2 d', d']"
    by (metis outcome.inject(1))
  with s(1,2) have "split_on 47 r1 = split_on 47 r2" by (simp add: key_shape_def)
  then have "r1 = r2" by (metis join_split_on)
  with s show ?thesis by simp
qed

end
