(* ===== verification/FileSystem.thy ===== *)
theory FileSystem
  imports ObjectKey "HOL-Library.AList"
begin

text \<open>
  The part of \<^verbatim>\<open>std::fs\<close>/\<^verbatim>\<open>tokio::fs\<close> the object store uses, on a tree of nodes. Every call can
  go wrong: the state carries the list of what happens to the calls to come (\<open>fs_faults\<close>, \<open>Fine\<close>
  once the list is used up), so a theorem about all states is a theorem about every pattern
  of failures. A failure (\<open>Fail\<close>, with the bytes a write got done) is never \<^verbatim>\<open>NotFound\<close>: that is
  reported exactly for what is not there.

  An \<^verbatim>\<open>await\<close> is also a place where the future can be dropped (the client disconnects). The
  call in flight is then on a blocking thread: it takes effect never, before the destructors
  of the future run, or after them (\<open>late\<close>). A dropped future and an unwinding panic run the
  same destructors, so both are the outcome \<open>Panic\<close>.

  Paths are absolute and free of symbolic links except possibly in the last component, which is
  \<open>Other\<close> with what following it finds. Times are nanoseconds since the epoch.
\<close>

datatype node =
    File nat bytes int
  | Dir nat
  | Other "bool option"

datatype fs_op =
    OpCreate path
  | OpWrite path bytes
  | OpFlush
  | OpRename path path
  | OpMkdirAll path
  | OpChmod path nat
  | OpRemove path

datatype drop_time = EffectNever | EffectBefore | EffectAfter

datatype fault = Fine | Fail nat | DropFuture drop_time

type_synonym tree = "(path \<times> node) list"

record fs =
  fs_tree :: tree
  fs_faults :: "fault list"
  fs_late :: "fs_op list"
  fs_drop_faults :: "bool list"
  fs_now :: int
  fs_dir_mode :: nat

definition node_at :: "fs \<Rightarrow> path \<Rightarrow> node option" where
  "node_at s p = map_of (fs_tree s) p"

definition put_node :: "path \<Rightarrow> node \<Rightarrow> fs \<Rightarrow> fs" where
  "put_node p n s = s\<lparr>fs_tree := AList.update p n (fs_tree s)\<rparr>"

definition del_node :: "path \<Rightarrow> fs \<Rightarrow> fs" where
  "del_node p s = s\<lparr>fs_tree := AList.delete p (fs_tree s)\<rparr>"

definition parent_check :: "path \<Rightarrow> fs \<Rightarrow> io_kind option" where
  "parent_check p s =
     (case node_at s (butlast p) of
        Some (Dir m) \<Rightarrow> None
      | None \<Rightarrow> Some IoNotFound
      | _ \<Rightarrow> Some IoOther)"

text \<open>\<^verbatim>\<open>create_dir_all\<close>: the missing directories of a path, outermost first.\<close>

fun mkdirs :: "path list \<Rightarrow> fs \<Rightarrow> (io_kind, unit) outcome \<times> fs" where
  "mkdirs [] s = (Ok (), s)"
| "mkdirs (p # ps) s =
     (case node_at s p of
        None \<Rightarrow> mkdirs ps (put_node p (Dir (fs_dir_mode s)) s)
      | Some (Dir m) \<Rightarrow> mkdirs ps s
      | Some (Other (Some True)) \<Rightarrow> mkdirs ps s
      | _ \<Rightarrow> (Err IoOther, s))"

definition ancestors :: "path \<Rightarrow> path list" where
  "ancestors p = map (\<lambda>n. take (Suc n) p) [0..<length p]"

text \<open>The effect of one call. Only regular files are renamed.\<close>

fun perform :: "fs_op \<Rightarrow> fs \<Rightarrow> (io_kind, unit) outcome \<times> fs" where
  "perform (OpCreate p) s =
     (case parent_check p s of
        Some k \<Rightarrow> (Err k, s)
      | None \<Rightarrow> if node_at s p \<noteq> None then (Err IoOther, s)
                else (Ok (), put_node p (File 0x180 [] (fs_now s)) s))"
| "perform (OpWrite p bs) s =
     (case node_at s p of
        Some (File m c t) \<Rightarrow> (Ok (), put_node p (File m (c @ bs) (fs_now s)) s)
      | _ \<Rightarrow> (Ok (), s))"
| "perform OpFlush s = (Ok (), s)"
| "perform (OpRename a b) s =
     (case node_at s a of
        None \<Rightarrow> (Err IoNotFound, s)
      | Some (File m c t) \<Rightarrow>
          (case parent_check b s of
             Some k \<Rightarrow> (Err k, s)
           | None \<Rightarrow>
               (case node_at s b of
                  Some (Dir _) \<Rightarrow> (Err IoOther, s)
                | _ \<Rightarrow> (Ok (), put_node b (File m c t) (del_node a s))))
      | _ \<Rightarrow> (Err IoOther, s))"
| "perform (OpMkdirAll p) s = mkdirs (ancestors p) s"
| "perform (OpChmod p m) s =
     (case node_at s p of
        None \<Rightarrow> (Err IoNotFound, s)
      | Some (File m' c t) \<Rightarrow> (Ok (), put_node p (File m c t) s)
      | Some (Dir m') \<Rightarrow> (Ok (), put_node p (Dir m) s)
      | Some (Other None) \<Rightarrow> (Err IoNotFound, s)
      | Some (Other (Some b)) \<Rightarrow> (Ok (), s))"
| "perform (OpRemove p) s =
     (case node_at s p of
        None \<Rightarrow> (Err IoNotFound, s)
      | Some (Dir m) \<Rightarrow> (Err IoOther, s)
      | _ \<Rightarrow> (Ok (), del_node p s))"

text \<open>A write that fails may have written a part.\<close>

fun partial_op :: "fs_op \<Rightarrow> nat \<Rightarrow> fs_op" where
  "partial_op (OpWrite p bs) n = OpWrite p (take n bs)"
| "partial_op op n = OpFlush"

definition next_fault :: "fs \<Rightarrow> fault \<times> fs" where
  "next_fault s = (case fs_faults s of [] \<Rightarrow> (Fine, s) | f # fs \<Rightarrow> (f, s\<lparr>fs_faults := fs\<rparr>))"

text \<open>A call with an effect, awaited.\<close>

definition sys_call :: "fs_op \<Rightarrow> (fs, io_kind, unit) stateful" where
  "sys_call op s =
     (case next_fault s of
        (Fine, s) \<Rightarrow> perform op s
      | (Fail n, s) \<Rightarrow> (Err IoOther, snd (perform (partial_op op n) s))
      | (DropFuture EffectNever, s) \<Rightarrow> (Panic, s)
      | (DropFuture EffectBefore, s) \<Rightarrow> (Panic, snd (perform op s))
      | (DropFuture EffectAfter, s) \<Rightarrow> (Panic, s\<lparr>fs_late := fs_late s @ [op]\<rparr>))"

text \<open>A call that only looks, awaited.\<close>

definition sys_look :: "(fs \<Rightarrow> (io_kind, 'a) outcome) \<Rightarrow> (fs, io_kind, 'a) stateful" where
  "sys_look look s =
     (case next_fault s of
        (Fine, s) \<Rightarrow> (look s, s)
      | (Fail n, s) \<Rightarrow> (Err IoOther, s)
      | (DropFuture d, s) \<Rightarrow> (Panic, s))"

definition look_node :: "path \<Rightarrow> fs \<Rightarrow> (io_kind, node) outcome" where
  "look_node p s = ok_or IoNotFound (node_at s p)"

definition symlink_metadata :: "path \<Rightarrow> (fs, io_kind, node) stateful" where
  "symlink_metadata p = sys_look (look_node p)"

text \<open>\<^verbatim>\<open>fs::metadata\<close> follows a link: whether the path is a directory.\<close>

definition metadata_is_dir :: "path \<Rightarrow> (fs, io_kind, bool) stateful" where
  "metadata_is_dir p = sys_look (\<lambda>s.
     case node_at s p of
       None \<Rightarrow> Err IoNotFound
     | Some (Other None) \<Rightarrow> Err IoNotFound
     | Some (Other (Some b)) \<Rightarrow> Ok b
     | Some (Dir m) \<Rightarrow> Ok True
     | Some (File m c t) \<Rightarrow> Ok False)"

text \<open>\<^verbatim>\<open>read_dir\<close>: the names in a directory, in the order of the tree (any order is some tree's).\<close>

definition children :: "path \<Rightarrow> fs \<Rightarrow> ustr list" where
  "children d s = map last (filter (\<lambda>p. p \<noteq> [] \<and> butlast p = d) (map fst (fs_tree s)))"

definition read_dir :: "path \<Rightarrow> (fs, io_kind, ustr list) stateful" where
  "read_dir d = sys_look (\<lambda>s.
     case node_at s d of
       None \<Rightarrow> Err IoNotFound
     | Some (Dir m) \<Rightarrow> Ok (children d s)
     | _ \<Rightarrow> Err IoOther)"

text \<open>\<^verbatim>\<open>next_entry\<close>: only whether the call fails.\<close>

definition next_entry :: "(fs, io_kind, unit) stateful" where
  "next_entry = sys_look (\<lambda>s. Ok ())"

text \<open>A name that is not UTF-8 contains something that is no character.\<close>

definition os_to_str :: "ustr \<Rightarrow> ustr option" where
  "os_to_str name = (if list_all valid_char name then Some name else None)"

fun node_len :: "node \<Rightarrow> nat" where
  "node_len (File m c t) = length c"
| "node_len (Dir m) = 0"
| "node_len (Other b) = 0"

fun node_is_file :: "node \<Rightarrow> bool" where
  "node_is_file (File m c t) = True"
| "node_is_file (Dir m) = False"
| "node_is_file (Other b) = False"

fun node_is_dir :: "node \<Rightarrow> bool" where
  "node_is_dir (File m c t) = False"
| "node_is_dir (Dir m) = True"
| "node_is_dir (Other b) = False"

fun node_modified :: "node \<Rightarrow> int" where
  "node_modified (File m c t) = t"
| "node_modified (Dir m) = 0"
| "node_modified (Other b) = 0"

text \<open>A synchronous call in a destructor cannot be dropped, only fail (\<open>fs_drop_faults\<close>).\<close>

definition sync_remove :: "path \<Rightarrow> fs \<Rightarrow> fs" where
  "sync_remove p s =
     (case fs_drop_faults s of
        [] \<Rightarrow> snd (perform (OpRemove p) s)
      | fails # rest \<Rightarrow>
          let s = s\<lparr>fs_drop_faults := rest\<rparr>
          in if fails then s else snd (perform (OpRemove p) s))"

text \<open>The calls that were in flight when the future was dropped.\<close>

definition run_late :: "fs \<Rightarrow> fs" where
  "run_late s = (fold (\<lambda>op t. snd (perform op t)) (fs_late s) s)\<lparr>fs_late := []\<rparr>"

section \<open>Looking at the tree after a change\<close>

lemma node_at_put [simp]: "node_at (put_node p n s) q = (if q = p then Some n else node_at s q)"
  by (simp add: node_at_def put_node_def update_conv')

lemma node_at_del [simp]: "node_at (del_node p s) q = (if q = p then None else node_at s q)"
  by (simp add: node_at_def del_node_def delete_conv')

lemma node_at_faults [simp]: "node_at (s\<lparr>fs_faults := f\<rparr>) q = node_at s q"
  "node_at (s\<lparr>fs_late := l\<rparr>) q = node_at s q"
  "node_at (s\<lparr>fs_drop_faults := d\<rparr>) q = node_at s q"
  by (simp_all add: node_at_def)

lemma put_del_fields [simp]:
  "fs_faults (put_node p n s) = fs_faults s" "fs_faults (del_node p s) = fs_faults s"
  "fs_late (put_node p n s) = fs_late s" "fs_late (del_node p s) = fs_late s"
  "fs_drop_faults (put_node p n s) = fs_drop_faults s"
  "fs_drop_faults (del_node p s) = fs_drop_faults s"
  "fs_now (put_node p n s) = fs_now s" "fs_now (del_node p s) = fs_now s"
  "fs_dir_mode (put_node p n s) = fs_dir_mode s" "fs_dir_mode (del_node p s) = fs_dir_mode s"
  by (simp_all add: put_node_def del_node_def)

lemma mkdirs_fields:
  "mkdirs ps s = (r, s') \<Longrightarrow> fs_faults s' = fs_faults s \<and> fs_late s' = fs_late s
     \<and> fs_drop_faults s' = fs_drop_faults s \<and> fs_now s' = fs_now s
     \<and> fs_dir_mode s' = fs_dir_mode s \<and> r \<noteq> Panic"
  by (induction ps arbitrary: s) (fastforce split: option.splits node.splits bool.splits)+

lemma perform_fields:
  "perform op s = (r, s') \<Longrightarrow> fs_faults s' = fs_faults s \<and> fs_late s' = fs_late s
     \<and> fs_drop_faults s' = fs_drop_faults s \<and> fs_now s' = fs_now s
     \<and> fs_dir_mode s' = fs_dir_mode s \<and> r \<noteq> Panic"
  by (induction op s rule: perform.induct)
     (auto dest: mkdirs_fields split: option.splits node.splits if_splits)

lemma perform_snd_fields [simp]:
  "fs_faults (snd (perform op s)) = fs_faults s" "fs_late (snd (perform op s)) = fs_late s"
  "fs_drop_faults (snd (perform op s)) = fs_drop_faults s" "fs_now (snd (perform op s)) = fs_now s"
  using perform_fields [of op s] by (metis prod.collapse)+

declare perform.simps [simp del]

end
