(* ===== verification/FsStore.thy ===== *)
theory FsStore
  imports FileSystem
begin

text \<open>
  \<^verbatim>\<open>crates/otdel-storage/src/fs.rs\<close> (with the types of \<^verbatim>\<open>lib.rs\<close>): the object store on the local
  file system. Uploads are written to a staging file under a guard that removes it, hashed on
  the way, and published by a rename to a path derived from the digest.
\<close>


record fs_store =
  root_dir :: path
  objects_root :: path
  staging_root :: path

record stored_object =
  so_key :: object_key
  so_sha256 :: ustr
  so_size_bytes :: u64
  so_already_present :: bool

record object_body =
  ob_size_bytes :: u64
  ob_content :: bytes

record object_listing =
  listing_keys :: "object_key list"
  listing_truncated :: bool

record staging_sweep =
  removed_files :: u64
  removed_bytes :: u64

text \<open>A chunk of an upload: bytes, an error of the stream, or the request going away.\<close>

type_synonym chunk = "(stream_error, bytes) outcome"

definition OBJECTS_DIR :: ustr where
  "OBJECTS_DIR = lit ''objects''"

definition STAGING_DIR :: ustr where
  "STAGING_DIR = lit ''staging''"

definition io_call :: "string \<Rightarrow> (fs, io_kind, 'a) stateful \<Rightarrow> (fs, storage_error, 'a) stateful"
  where
  "io_call context m = st_map_err (StorageIo (lit context)) m"

definition create_private_dir :: "path \<Rightarrow> (fs, storage_error, unit) stateful" where
  "create_private_dir p =
     st_then (io_call ''create storage directory'' (sys_call (OpMkdirAll p))) (\<lambda>_.
       io_call ''restrict storage directory'' (sys_call (OpChmod p 0x1C0)))"

definition private_create :: "path \<Rightarrow> (fs, storage_error, unit) stateful" where
  "private_create p = io_call ''create staging file'' (sys_call (OpCreate p))"

text \<open>\<^verbatim>\<open>canonicalize\<close> is left to the operating system: \<open>canon\<close> is what it makes of the root.\<close>

definition open_at :: "(path \<Rightarrow> path) \<Rightarrow> path \<Rightarrow> (fs, storage_error, fs_store) stateful" where
  "open_at canon root =
     st_then (create_private_dir root) (\<lambda>_.
     st_then (io_call ''canonicalize storage root'' (sys_look (\<lambda>s. Ok (canon root)))) (\<lambda>root.
     let objects = root @ [OBJECTS_DIR]; staging = root @ [STAGING_DIR] in
     st_then (create_private_dir objects) (\<lambda>_.
     st_then (create_private_dir staging) (\<lambda>_.
     st_ok \<lparr>root_dir = root, objects_root = objects, staging_root = staging\<rparr>))))"

text \<open>
  \<^verbatim>\<open>StagingGuard\<close>: the code it guards ends with its result and whether the guard was disarmed;
  on every other exit the guard removes the file.
\<close>

definition guard_drop :: "path \<Rightarrow> fs \<Rightarrow> fs" where
  "guard_drop p s = sync_remove p s"

definition guarded ::
    "path \<Rightarrow> (fs, 'e, 'a \<times> bool) stateful \<Rightarrow> (fs, 'e, 'a) stateful" where
  "guarded p m s =
     (case m s of
        (Ok (a, disarmed), s) \<Rightarrow> (Ok a, if disarmed then s else guard_drop p s)
      | (Err e, s) \<Rightarrow> (Err e, guard_drop p s)
      | (Panic, s) \<Rightarrow> (Panic, guard_drop p s))"

text \<open>A future that is dropped lets its calls in flight finish after its destructors ran.\<close>

definition future :: "(fs, 'e, 'a) stateful \<Rightarrow> (fs, 'e, 'a) stateful" where
  "future m s = (case m s of (Panic, s) \<Rightarrow> (Panic, run_late s) | (r, s) \<Rightarrow> (r, s))"

text \<open>The hasher is what it has been fed so far.\<close>

fun write_chunks ::
    "path \<Rightarrow> chunk list \<Rightarrow> bytes \<Rightarrow> u64 \<Rightarrow> (fs, storage_error, bytes \<times> u64) stateful" where
  "write_chunks p [] hasher size_bytes = st_ok (hasher, size_bytes)"
| "write_chunks p (c # cs) hasher size_bytes =
     st_then (st_lift (map_err StorageStream c)) (\<lambda>chunk.
     st_then (io_call ''write staging file'' (sys_call (OpWrite p chunk))) (\<lambda>_.
     write_chunks p cs (hasher @ chunk) (size_bytes + of_nat (length chunk))))"

text \<open>Whether the object is stored already; a copy of another size is to be replaced.\<close>

definition stat_existing :: "path \<Rightarrow> u64 \<Rightarrow> (fs, storage_error, bool) stateful" where
  "stat_existing p size_bytes s =
     (case symlink_metadata p s of
        (Ok n, s) \<Rightarrow> (Ok (node_is_file n \<and> of_nat (node_len n) = size_bytes), s)
      | (Err IoNotFound, s) \<Rightarrow> (Ok False, s)
      | (Err k, s) \<Rightarrow> (Err (StorageIo (lit ''stat stored object'') k), s)
      | (Panic, s) \<Rightarrow> (Panic, s))"

text \<open>\<^verbatim>\<open>sync_dir\<close> opens and syncs a directory; failures are ignored, the future can be dropped.\<close>

definition ignore_err :: "(fs, 'e, 'a) stateful \<Rightarrow> (fs, 'f, unit) stateful" where
  "ignore_err m s = (case m s of (Panic, s) \<Rightarrow> (Panic, s) | (_, s) \<Rightarrow> (Ok (), s))"

definition sync_dir :: "path \<Rightarrow> (fs, storage_error, unit) stateful" where
  "sync_dir p =
     ignore_err (st_then (sys_look (look_node p)) (\<lambda>_. sys_call OpFlush))"

definition staging_path :: "externs \<Rightarrow> fs_store \<Rightarrow> uuid \<Rightarrow> path" where
  "staging_path x st fresh = staging_root st @ [uuid_to_string x fresh @ lit ''.part'']"

text \<open>The code under the guard, up to the rename. It returns the object and the directory to sync.\<close>

definition publish ::
    "path \<Rightarrow> path \<Rightarrow> object_key \<Rightarrow> ustr \<Rightarrow> u64 \<Rightarrow>
      (fs, storage_error, (stored_object \<times> path option) \<times> bool) stateful" where
  "publish staging final key sha256 size_bytes =
     st_then (create_private_dir (butlast final)) (\<lambda>_.
     st_then (stat_existing final size_bytes) (\<lambda>already_present.
     if already_present then
       st_ok ((\<lparr>so_key = key, so_sha256 = sha256, so_size_bytes = size_bytes,
                so_already_present = True\<rparr>, None), False)
     else
       st_then (io_call ''publish staging file'' (sys_call (OpRename staging final))) (\<lambda>_.
       st_ok ((\<lparr>so_key = key, so_sha256 = sha256, so_size_bytes = size_bytes,
                so_already_present = False\<rparr>, Some (butlast final)), True))))"

definition put_staged ::
    "externs \<Rightarrow> fs_store \<Rightarrow> path \<Rightarrow> object_namespace \<Rightarrow> chunk list \<Rightarrow>
      (fs, storage_error, (stored_object \<times> path option) \<times> bool) stateful" where
  "put_staged x st staging ns body =
     st_then (private_create staging) (\<lambda>_.
     st_then (write_chunks staging body [] 0) (\<lambda>(hasher, size_bytes).
     st_then (io_call ''flush staging file'' (sys_call OpFlush)) (\<lambda>_.
     st_then (io_call ''fsync staging file'' (sys_call OpFlush)) (\<lambda>_.
     let sha256 = hex_lower (sha256_digest x hasher) in
     st_then (st_lift (key_for_digest x ns sha256)) (\<lambda>key.
     st_then (st_lift (resolve_within (objects_root st) key)) (\<lambda>final.
     publish staging final key sha256 size_bytes))))))"

definition put_stream ::
    "externs \<Rightarrow> fs_store \<Rightarrow> uuid \<Rightarrow> object_namespace \<Rightarrow> chunk list \<Rightarrow>
      (fs, storage_error, stored_object) stateful" where
  "put_stream x st fresh ns body =
     (let staging = staging_path x st fresh in
      future (
        st_then (guarded staging (put_staged x st staging ns body)) (\<lambda>(stored, to_sync).
        case to_sync of
          None \<Rightarrow> st_ok stored
        | Some dir \<Rightarrow> st_then (sync_dir dir) (\<lambda>_. st_ok stored))))"

definition stat_object :: "object_key \<Rightarrow> path \<Rightarrow> (fs, storage_error, node) stateful" where
  "stat_object key path =
     st_map_err (\<lambda>k. case k of
         IoNotFound \<Rightarrow> StorageNotFound (key_str key)
       | IoOther \<Rightarrow> StorageIo (lit ''stat object'') k) (symlink_metadata path)"

definition open_object :: "fs_store \<Rightarrow> object_key \<Rightarrow> (fs, storage_error, object_body) stateful" where
  "open_object st key =
     st_then (st_lift (resolve_within (objects_root st) key)) (\<lambda>path.
     st_then (stat_object key path) (\<lambda>metadata.
     if \<not> node_is_file metadata
     then st_err (InvalidKey (lit ''stored path is not a regular file''))
     else
       st_then (io_call ''open object'' (sys_look (look_node path))) (\<lambda>opened.
       st_ok \<lparr>ob_size_bytes = of_nat (node_len metadata),
              ob_content = (case opened of File m c t \<Rightarrow> c | _ \<Rightarrow> [])\<rparr>)))"

definition delete_object :: "fs_store \<Rightarrow> object_key \<Rightarrow> (fs, storage_error, unit) stateful" where
  "delete_object st key =
     future (
       st_then (st_lift (resolve_within (objects_root st) key)) (\<lambda>path s.
         case sys_call (OpRemove path) s of
           (Ok u, s) \<Rightarrow> (Ok (), s)
         | (Err IoNotFound, s) \<Rightarrow> (Ok (), s)
         | (Err k, s) \<Rightarrow> (Err (StorageIo (lit ''delete object'') k), s)
         | (Panic, s) \<Rightarrow> (Panic, s)))"

fun check_dirs :: "path list \<Rightarrow> (fs, storage_error, unit) stateful" where
  "check_dirs [] = st_ok ()"
| "check_dirs (d # ds) =
     st_then (io_call ''stat storage directory'' (metadata_is_dir d)) (\<lambda>is_dir.
     if \<not> is_dir then st_err (StorageUnavailable (lit ''storage path is not a directory''))
     else check_dirs ds)"

definition probe_path :: "externs \<Rightarrow> fs_store \<Rightarrow> uuid \<Rightarrow> path" where
  "probe_path x st fresh =
     staging_root st @ [lit ''health-'' @ uuid_to_string x fresh @ lit ''.probe'']"

definition store_health :: "externs \<Rightarrow> fs_store \<Rightarrow> uuid \<Rightarrow> (fs, storage_error, unit) stateful" where
  "store_health x st fresh = future (
     st_then (check_dirs [objects_root st, staging_root st]) (\<lambda>_.
     guarded (probe_path x st fresh) (
       st_then (private_create (probe_path x st fresh)) (\<lambda>_.
       st_then (io_call ''write health probe''
                 (sys_call (OpWrite (probe_path x st fresh) (utf8 (lit ''ok''))))) (\<lambda>_.
       st_then (io_call ''flush health probe'' (sys_call OpFlush)) (\<lambda>_.
       st_ok ((), False)))))))"

text \<open>
  The sweep of the staging directory. \<^verbatim>\<open>checked_sub\<close> has no result before the first instant the
  platform represents (a signed 64-bit number of seconds); the epoch takes its place.
\<close>

definition sweep_cutoff :: "int \<Rightarrow> nat \<Rightarrow> int" where
  "sweep_cutoff now older_than =
     (if now - int older_than < - (2 ^ 63) * 10 ^ 9 then 0 else now - int older_than)"

definition sweep_one ::
    "path \<Rightarrow> int \<Rightarrow> staging_sweep \<Rightarrow> (fs, storage_error, staging_sweep) stateful" where
  "sweep_one p cutoff sweep s =
     (case symlink_metadata p s of
        (Err IoNotFound, s) \<Rightarrow> (Ok sweep, s)
      | (Err k, s) \<Rightarrow> (Err (StorageIo (lit ''stat staging entry'') k), s)
      | (Panic, s) \<Rightarrow> (Panic, s)
      | (Ok metadata, s) \<Rightarrow>
          if \<not> node_is_file metadata then (Ok sweep, s)
          else if node_modified metadata > cutoff then (Ok sweep, s)
          else (case sys_call (OpRemove p) s of
                  (Ok u, s) \<Rightarrow>
                    (Ok \<lparr>removed_files = removed_files sweep + 1,
                         removed_bytes = removed_bytes sweep + of_nat (node_len metadata)\<rparr>, s)
                | (Err IoNotFound, s) \<Rightarrow> (Ok sweep, s)
                | (Err k, s) \<Rightarrow> (Err (StorageIo (lit ''remove staging entry'') k), s)
                | (Panic, s) \<Rightarrow> (Panic, s)))"

fun sweep_entries ::
    "path \<Rightarrow> int \<Rightarrow> ustr list \<Rightarrow> staging_sweep \<Rightarrow> (fs, storage_error, staging_sweep) stateful" where
  "sweep_entries d cutoff [] sweep =
     st_then (io_call ''iterate staging directory'' next_entry) (\<lambda>_. st_ok sweep)"
| "sweep_entries d cutoff (name # names) sweep =
     st_then (io_call ''iterate staging directory'' next_entry) (\<lambda>_.
     st_then (sweep_one (d @ [name]) cutoff sweep) (\<lambda>sweep.
     sweep_entries d cutoff names sweep))"

definition sweep_staging :: "fs_store \<Rightarrow> nat \<Rightarrow> (fs, storage_error, staging_sweep) stateful" where
  "sweep_staging st older_than = future (
     st_then (io_call ''read staging directory'' (read_dir (staging_root st))) (\<lambda>names s.
     sweep_entries (staging_root st) (sweep_cutoff (fs_now s) older_than) names
       \<lparr>removed_files = 0, removed_bytes = 0\<rparr> s))"

text \<open>
  The listing: a depth-first walk with an explicit stack of directories, each with the segments
  below the objects root. \<open>scan_dir\<close> is the inner loop; it ends early, with \<open>True\<close>, when the
  limit is reached.
\<close>

type_synonym walk_stack = "(path \<times> ustr list) list"

definition scan_entry ::
    "externs \<Rightarrow> nat \<Rightarrow> path \<Rightarrow> ustr list \<Rightarrow> ustr \<Rightarrow> walk_stack \<Rightarrow> object_listing
      \<Rightarrow> (fs, storage_error, bool \<times> walk_stack \<times> object_listing) stateful" where
  "scan_entry x limit dir pre name stack listing s =
     (case os_to_str name of
        None \<Rightarrow> (Ok (False, stack, listing), s)
      | Some name' \<Rightarrow>
          (case symlink_metadata (dir @ [name]) s of
             (Err IoNotFound, s) \<Rightarrow> (Ok (False, stack, listing), s)
           | (Err k, s) \<Rightarrow> (Err (StorageIo (lit ''stat object entry'') k), s)
           | (Panic, s) \<Rightarrow> (Panic, s)
           | (Ok metadata, s) \<Rightarrow>
               let segments = pre @ [name'] in
               if node_is_dir metadata then
                 (Ok (False, if length segments \<le> 3 then (dir @ [name], segments) # stack else stack,
                      listing), s)
               else if \<not> node_is_file metadata then (Ok (False, stack, listing), s)
               else (case object_key_parse x (str_join (lit ''/'') segments) of
                       Ok key \<Rightarrow>
                         let keys = listing_keys listing @ [key] in
                         if length keys \<ge> limit
                         then (Ok (True, stack, \<lparr>listing_keys = keys, listing_truncated = True\<rparr>), s)
                         else (Ok (False, stack, listing\<lparr>listing_keys := keys\<rparr>), s)
                     | Err e \<Rightarrow> (Ok (False, stack, listing), s)
                     | Panic \<Rightarrow> (Panic, s))))"

fun scan_dir ::
    "externs \<Rightarrow> nat \<Rightarrow> path \<Rightarrow> ustr list \<Rightarrow> ustr list \<Rightarrow> walk_stack \<Rightarrow> object_listing
      \<Rightarrow> (fs, storage_error, bool \<times> walk_stack \<times> object_listing) stateful" where
  "scan_dir x limit dir pre [] stack listing =
     st_then (io_call ''iterate objects directory'' next_entry) (\<lambda>_. st_ok (False, stack, listing))"
| "scan_dir x limit dir pre (name # names) stack listing =
     st_then (io_call ''iterate objects directory'' next_entry) (\<lambda>_.
     st_then (scan_entry x limit dir pre name stack listing) (\<lambda>(full, stack, listing).
     if full then st_ok (True, stack, listing)
     else scan_dir x limit dir pre names stack listing))"

definition walk_weight :: "nat \<Rightarrow> walk_stack \<Rightarrow> nat" where
  "walk_weight n stack = sum_list (map (\<lambda>(d, pre). (n + 2) ^ (4 - length pre)) stack)"

text \<open>The calls of the walk only look: the tree stays what it is.\<close>

lemma sys_look_tree: "sys_look look s = (r, s') \<Longrightarrow> fs_tree s' = fs_tree s"
  by (auto simp: sys_look_def next_fault_def split: list.splits fault.splits drop_time.splits)

lemma io_call_look_tree: "io_call c (sys_look look) s = (r, s') \<Longrightarrow> fs_tree s' = fs_tree s"
  by (auto simp: io_call_def st_map_err_def dest: sys_look_tree split: prod.splits)

lemma scan_entry_tree: "scan_entry x limit dir pre name stack l s = (r, s') \<Longrightarrow> fs_tree s' = fs_tree s"
  by (auto simp: scan_entry_def symlink_metadata_def Let_def dest!: sys_look_tree
      split: option.splits prod.splits outcome.splits io_kind.splits if_splits)

lemma scan_entry_stack:
  "scan_entry x limit dir pre name stack l s = (Ok (full, stack', l'), s') \<Longrightarrow>
   stack' = stack \<or> (length pre < 3 \<and> stack' = (dir @ [name], pre @ [name]) # stack)"
  by (auto simp: scan_entry_def symlink_metadata_def Let_def os_to_str_def
      split: option.splits prod.splits outcome.splits io_kind.splits if_splits)

lemma scan_dir_tree:
  "scan_dir x limit dir pre names stack l s = (r, s') \<Longrightarrow> fs_tree s' = fs_tree s"
proof (induction names arbitrary: stack l s)
  case Nil
  then show ?case
    by (auto simp: st_then_def st_ok_def next_entry_def dest!: io_call_look_tree
        split: prod.splits outcome.splits)
next
  case (Cons name names)
  obtain r1 s1 where e: "io_call ''iterate objects directory'' next_entry s = (r1, s1)" by fastforce
  then have t1: "fs_tree s1 = fs_tree s" by (simp add: next_entry_def io_call_look_tree)
  show ?case
  proof (cases r1)
    case (Ok u)
    obtain r2 s2 where f: "scan_entry x limit dir pre name stack l s1 = (r2, s2)" by fastforce
    then have t2: "fs_tree s2 = fs_tree s1" by (rule scan_entry_tree)
    show ?thesis
    proof (cases r2)
      case (Ok a)
      with Cons e f t1 t2 \<open>r1 = _\<close> show ?thesis
        by (cases a) (auto simp: st_ok_def split: if_splits)
    qed (use Cons.prems e f t1 t2 \<open>r1 = _\<close> in auto)
  qed (use Cons.prems e t1 in auto)
qed

lemma scan_dir_stack:
  "scan_dir x limit dir pre names stack l s = (Ok (full, stack', l'), s') \<Longrightarrow>
   \<exists>new. stack' = new @ stack \<and> length new \<le> length names
     \<and> (\<forall>(d, p)\<in>set new. \<exists>name\<in>set names. d = dir @ [name] \<and> p = pre @ [name] \<and> length pre < 3)"
proof (induction names arbitrary: stack l s)
  case Nil
  then show ?case by (auto simp: outcome_simps)
next
  case (Cons name names)
  then obtain s1 s2 f st2 l2 where
      e: "scan_entry x limit dir pre name stack l s1 = (Ok (f, st2, l2), s2)" and
      r: "if f then st2 = stack' else scan_dir x limit dir pre names st2 l2 s2 = (Ok (full, stack', l'), s')"
    by (auto simp: outcome_simps st_ok_def split: if_splits)
  have "\<exists>new1. st2 = new1 @ stack \<and> length new1 \<le> 1
      \<and> (\<forall>(d, p)\<in>set new1. d = dir @ [name] \<and> p = pre @ [name] \<and> length pre < 3)"
    using scan_entry_stack [OF e]
  proof
    assume "st2 = stack"
    then show ?thesis by (intro exI [of _ "[]"]) simp
  next
    assume "length pre < 3 \<and> st2 = (dir @ [name], pre @ [name]) # stack"
    then show ?thesis by (intro exI [of _ "[(dir @ [name], pre @ [name])]"]) simp
  qed
  then obtain new1 where new1: "st2 = new1 @ stack" "length new1 \<le> 1"
      "\<forall>(d, p)\<in>set new1. d = dir @ [name] \<and> p = pre @ [name] \<and> length pre < 3"
    by blast
  show ?case
  proof (cases f)
    case True
    with r new1 show ?thesis by (intro exI [of _ new1]) auto
  next
    case False
    with r have "scan_dir x limit dir pre names st2 l2 s2 = (Ok (full, stack', l'), s')" by simp
    from Cons.IH [OF this] obtain new where "stack' = new @ st2" "length new \<le> length names"
      "\<forall>(d, p)\<in>set new. \<exists>name\<in>set names. d = dir @ [name] \<and> p = pre @ [name] \<and> length pre < 3"
      by blast
    with new1 show ?thesis by (intro exI [of _ "new @ new1"]) auto
  qed
qed

lemma walk_weight_new:
  assumes "length new \<le> n" "\<forall>(d, p)\<in>set new. length p = Suc k" "new \<noteq> [] \<longrightarrow> k < 3"
  shows "walk_weight n new < (n + 2) ^ (4 - k)"
proof (cases "new = []")
  case False
  with assms have k: "k < 3" by simp
  have "walk_weight n new \<le> length new * (n + 2) ^ (4 - Suc k)"
    using assms(2) by (induction new) (auto simp: walk_weight_def)
  also have "\<dots> \<le> n * (n + 2) ^ (4 - Suc k)" using assms(1) by (rule mult_right_mono) simp
  also have "\<dots> < (n + 2) * (n + 2) ^ (4 - Suc k)" by simp
  also have "\<dots> = (n + 2) ^ Suc (4 - Suc k)" by simp
  also have "Suc (4 - Suc k) = 4 - k" using k by simp
  finally show ?thesis .
qed (simp add: walk_weight_def)

lemma walk_weight_append: "walk_weight n (a @ b) = walk_weight n a + walk_weight n b"
  by (simp add: walk_weight_def)

lemma children_length: "length (children d s) \<le> length (fs_tree s)"
  using le_trans [OF length_filter_le] by (auto simp: children_def)

lemma children_faults [simp]: "children d (s\<lparr>fs_faults := f\<rparr>) = children d s"
  by (simp add: children_def)

lemma read_dir_Ok: "read_dir d s = (Ok names, s') \<Longrightarrow> names = children d s"
  by (auto simp: read_dir_def sys_look_def next_fault_def
      split: list.splits fault.splits option.splits node.splits prod.splits)

lemma scan_dir_weight:
  assumes "read_dir dir s = (Ok names, s1)"
    and "scan_dir x limit dir pre names stack l s1 = (Ok (full, stack', l'), s2)"
  shows "fs_tree s2 = fs_tree s
    \<and> walk_weight (length (fs_tree s)) stack' < walk_weight (length (fs_tree s)) ((dir, pre) # stack)"
proof -
  have t: "fs_tree s1 = fs_tree s" using assms(1) by (simp add: read_dir_def sys_look_tree)
  have len: "length names \<le> length (fs_tree s)"
    using read_dir_Ok [OF assms(1)] children_length by simp
  from scan_dir_stack [OF assms(2)] obtain new where new: "stack' = new @ stack"
      "length new \<le> length names"
      "\<forall>(d, p)\<in>set new. \<exists>name\<in>set names. d = dir @ [name] \<and> p = pre @ [name] \<and> length pre < 3"
    by blast
  have "walk_weight (length (fs_tree s)) new < (length (fs_tree s) + 2) ^ (4 - length pre)"
    using new len by (intro walk_weight_new) (auto, (cases new, auto))
  with new t scan_dir_tree [OF assms(2)] show ?thesis
    by (simp add: walk_weight_append) (simp add: walk_weight_def)
qed

lemma walk_weight_Cons_less: "walk_weight n stack < walk_weight n (dp # stack)"
  by (cases dp) (simp add: walk_weight_def)

lemma read_dir_tree: "read_dir d s = (r, s') \<Longrightarrow> fs_tree s' = fs_tree s"
  by (simp add: read_dir_def sys_look_tree)

function list_walk ::
    "externs \<Rightarrow> nat \<Rightarrow> walk_stack \<Rightarrow> object_listing \<Rightarrow> (fs, storage_error, object_listing) stateful"
  where
  "list_walk x limit [] listing s = (Ok listing, s)"
| "list_walk x limit ((dir, pre) # stack) listing s =
     (case read_dir dir s of
        (Err IoNotFound, s) \<Rightarrow> list_walk x limit stack listing s
      | (Err k, s) \<Rightarrow> (Err (StorageIo (lit ''read objects directory'') k), s)
      | (Panic, s) \<Rightarrow> (Panic, s)
      | (Ok names, s) \<Rightarrow>
          (case scan_dir x limit dir pre names stack listing s of
             (Ok (True, stack, listing), s) \<Rightarrow> (Ok listing, s)
           | (Ok (False, stack, listing), s) \<Rightarrow> list_walk x limit stack listing s
           | (Err e, s) \<Rightarrow> (Err e, s)
           | (Panic, s) \<Rightarrow> (Panic, s)))"
  by pat_completeness auto

termination
  by (relation "measure (\<lambda>(x, limit, stack, l, s). walk_weight (length (fs_tree s)) stack)")
     (auto dest!: sym [where t = "read_dir _ _"] sym [where t = "scan_dir _ _ _ _ _ _ _ _"]
       dest: read_dir_tree scan_dir_weight simp: walk_weight_Cons_less)

definition list_objects :: "externs \<Rightarrow> fs_store \<Rightarrow> nat \<Rightarrow> (fs, storage_error, object_listing) stateful"
  where
  "list_objects x st limit =
     (if limit = 0 then st_ok \<lparr>listing_keys = [], listing_truncated = False\<rparr>
      else list_walk x limit [(objects_root st, [])]
             \<lparr>listing_keys = [], listing_truncated = False\<rparr>)"

definition describe :: "fs_store \<Rightarrow> ustr" where
  "describe st = lit ''filesystem:'' @ lit ''/'' @ str_join (lit ''/'') (root_dir st)"

end
