(* ===== verification/ApiErrors.thy ===== *)
theory ApiErrors
  imports DbRepo FsStore
begin

text \<open>
  \<^verbatim>\<open>crates/otdel-api/src/error.rs\<close> and \<^verbatim>\<open>dto.rs\<close>: the errors of the HTTP layer, the conversions
  from the layers below, the bodies of the responses and how an error becomes a response. The
  JSON text of a body is serde's; a body here is the value that is serialised. \<open>header_ok\<close> is
  \<^verbatim>\<open>HeaderValue::from_str\<close> accepting a value.
\<close>

record api_error =
  api_inner :: app_error
  api_retry_after :: "nat option"

definition api_error_new :: "app_error \<Rightarrow> api_error" where
  "api_error_new e = \<lparr>api_inner = e, api_retry_after = None\<rparr>"

definition with_retry_after :: "nat \<Rightarrow> api_error \<Rightarrow> api_error" where
  "with_retry_after d e = e\<lparr>api_retry_after := Some d\<rparr>"

definition api_code :: "api_error \<Rightarrow> error_code" where
  "api_code e = ae_code (api_inner e)"

definition api_unauthorized :: api_error where
  "api_unauthorized = api_error_new (ae_unauthorized (lit ''authentication required''))"

definition api_not_found :: "ustr \<Rightarrow> api_error" where
  "api_not_found msg = api_error_new (ae_not_found msg)"

definition api_of_db :: "db_error \<Rightarrow> api_error" where
  "api_of_db e = api_error_new (db_to_app_error e)"

definition api_of_storage :: "storage_error \<Rightarrow> api_error" where
  "api_of_storage e =
     (case storage_stream_error e of
        Some se \<Rightarrow>
          api_error_new
            (case se_kind se of
               TooLarge \<Rightarrow> app_error_new PayloadTooLarge (se_message se)
             | UnsupportedContent \<Rightarrow> app_error_new UnsupportedMediaType (se_message se)
             | Upstream \<Rightarrow> app_error_new BadRequest
                 (lit ''the upload was interrupted before the file was fully received''))
      | None \<Rightarrow>
          (case e of
             StorageNotFound _ \<Rightarrow>
               api_error_new (ae_internal (lit ''the stored original is currently unavailable''))
           | InvalidKey _ \<Rightarrow> api_error_new (ae_internal (lit ''internal server error''))
           | _ \<Rightarrow> api_error_new (ae_unavailable (lit ''file storage is not available right now''))))"

section \<open>Responses\<close>

datatype body =
    ErrorBody ustr ustr bool
  | PartnerBody partner
  | PartnersBody "partner list"
  | MaterialBody material
  | MaterialsBody "material list"
  | JobsBody "job list"
  | SessionBody bool ustr
  | SessionEndedBody bool
  | HealthBody ustr
  | ReadyBody ustr ustr ustr ustr ustr
  | BytesBody bytes

record response =
  rs_status :: nat
  rs_headers :: "(ustr \<times> ustr) list"
  rs_body :: body

text \<open>\<^verbatim>\<open>HeaderMap::insert\<close> replaces the value of a name.\<close>

definition insert_header :: "ustr \<Rightarrow> ustr \<Rightarrow> (ustr \<times> ustr) list \<Rightarrow> (ustr \<times> ustr) list" where
  "insert_header name value hs = (name, value) # filter (\<lambda>(n, v). n \<noteq> name) hs"

definition with_header :: "string \<Rightarrow> ustr \<Rightarrow> response \<Rightarrow> response" where
  "with_header name value r = r\<lparr>rs_headers := insert_header (lit name) value (rs_headers r)\<rparr>"

definition json_response :: "nat \<Rightarrow> body \<Rightarrow> response" where
  "json_response status b =
     \<lparr>rs_status = status, rs_headers = [(lit ''content-type'', lit ''application/json'')], rs_body = b\<rparr>"

text \<open>Durations are nanoseconds; \<^verbatim>\<open>as_secs\<close> drops the fraction.\<close>

definition as_secs :: "nat \<Rightarrow> nat" where
  "as_secs d = d div 10 ^ 9"

definition api_error_response :: "(ustr \<Rightarrow> bool) \<Rightarrow> api_error \<Rightarrow> response" where
  "api_error_response header_ok e =
     (let inner = api_inner e;
          response = json_response (app_error_http_status inner)
            (ErrorBody (error_code_as_str (ae_code inner)) (ae_message inner) (ae_retryable inner))
      in case api_retry_after e of
           None \<Rightarrow> response
         | Some d \<Rightarrow>
             (let value = dec (max (as_secs d) 1)
              in if header_ok value then with_header ''retry-after'' value response else response))"

lemmas api_error_defs =
  api_error_new_def api_unauthorized_def api_not_found_def api_of_db_def with_retry_after_def

lemma api_code_simps [simp]:
  "api_code (api_error_new e) = ae_code e" "api_code api_unauthorized = Unauthorized"
  "api_code (api_not_found m) = NotFound"
  by (simp_all add: api_error_defs api_code_def)

text \<open>An accepted value of a header: the printable characters of ASCII.\<close>

definition header_text :: "ustr \<Rightarrow> bool" where
  "header_text s \<longleftrightarrow> (\<forall>c\<in>set s. 32 \<le> c \<and> c < 127)"

definition header_documented :: "(ustr \<Rightarrow> bool) \<Rightarrow> bool" where
  "header_documented header_ok \<longleftrightarrow> (\<forall>s. header_text s \<longrightarrow> header_ok s)"

lemma header_text_append [simp]: "header_text (a @ b) \<longleftrightarrow> header_text a \<and> header_text b"
  by (auto simp: header_text_def)

lemma header_text_dec [simp]: "header_text (dec n)"
  by (auto simp: header_text_def is_ascii_digit_def dest!: dec_digits)

section \<open>What a client learns\<close>

text \<open>The messages a failure of the layers below can show, apart from the two that quote the
  client's own upload.\<close>

definition generic_messages :: "ustr list" where
  "generic_messages = map lit
     [''the database is not available right now'', ''internal server error'',
      ''the upload was interrupted before the file was fully received'',
      ''the stored original is currently unavailable'', ''file storage is not available right now'']"

lemma api_of_db_message: "ae_message (api_inner (api_of_db e)) \<in> set generic_messages"
  by (simp add: api_of_db_def api_error_new_def db_to_app_error_def app_error_defs
      generic_messages_def split: db_error.split sql_error.split)

lemma api_of_storage_message:
  "ae_message (api_inner (api_of_storage e)) \<in> set generic_messages
   \<or> (\<exists>se. e = StorageStream se \<and> se_kind se \<noteq> Upstream \<and> ae_message (api_inner (api_of_storage e)) = se_message se)"
  by (cases e) (auto simp: api_of_storage_def storage_stream_error_def api_error_new_def app_error_defs
      generic_messages_def split: stream_error_kind.split)


lemma retry_after_header:
  "header_documented header_ok \<Longrightarrow>
   map_of (rs_headers (api_error_response header_ok (with_retry_after d (api_error_new e)))) (lit ''retry-after'')
     = Some (dec (max (d div 10 ^ 9) 1))"
  by (simp add: api_error_response_def with_retry_after_def api_error_new_def Let_def
      header_documented_def with_header_def insert_header_def as_secs_def)

lemma api_error_response_status [simp]:
  "rs_status (api_error_response h e) = app_error_http_status (api_inner e)"
  by (simp add: api_error_response_def Let_def json_response_def with_header_def split: option.split)

end
