(* ===== verification/Extract.thy ===== *)
theory Extract
  imports ApiErrors
begin

text \<open>
  \<^verbatim>\<open>crates/otdel-api/src/extract.rs\<close> and the request bodies of \<^verbatim>\<open>dto.rs\<close>: what a handler is
  given of a request's body and path, and the errors it answers when axum and serde reject them.
  An extraction is the crate's result, \<open>Panic\<close> where the request went away while it was read.
\<close>

datatype json_rejection = MissingJsonContentType | BytesRejection | OtherJsonRejection

datatype path_rejection = FailedToDeserializePathParams | OtherPathRejection

record create_partner_request =
  cp_name :: ustr
  cp_note :: "ustr option"

text \<open>\<^verbatim>\<open>note\<close> is absent, null or a string.\<close>

record patch_partner_request =
  pp_name :: "ustr option"
  pp_note :: "ustr option option"

definition json_rejected :: "json_rejection \<Rightarrow> api_error" where
  "json_rejected rejection =
     api_error_new (ae_bad_request
       (case rejection of
          MissingJsonContentType \<Rightarrow> lit ''request body must be sent as application/json''
        | BytesRejection \<Rightarrow> lit ''request body could not be read''
        | OtherJsonRejection \<Rightarrow> lit ''request body is not valid JSON for this endpoint''))"

text \<open>A multipart rejection is its HTTP status.\<close>

definition multipart_rejected :: "nat \<Rightarrow> api_error" where
  "multipart_rejected status =
     api_error_new (app_error_new
       (if status = 413 then PayloadTooLarge
        else if status = 415 then UnsupportedMediaType
        else BadRequest)
       (lit ''request must be a multipart/form-data body with a `file` part''))"

definition path_rejected :: "path_rejection \<Rightarrow> api_error" where
  "path_rejected rejection =
     (case rejection of
        FailedToDeserializePathParams \<Rightarrow>
          api_error_new (ae_validation (lit ''path identifiers must be UUIDs''))
      | OtherPathRejection \<Rightarrow>
          api_error_new (ae_bad_request (lit ''request path could not be parsed'')))"

definition api_json :: "(json_rejection, 'a) outcome \<Rightarrow> ('s, api_error, 'a) stateful" where
  "api_json r = st_lift (map_err json_rejected r)"

definition api_path :: "(path_rejection, 'a) outcome \<Rightarrow> ('s, api_error, 'a) stateful" where
  "api_path r = st_lift (map_err path_rejected r)"

definition api_multipart :: "(nat, 'a) outcome \<Rightarrow> ('s, api_error, 'a) stateful" where
  "api_multipart r = st_lift (map_err multipart_rejected r)"

end
