(* ===== verification/Throttle.thy ===== *)
theory Throttle
  imports RustBase
begin

text \<open>
  \<^verbatim>\<open>crates/otdel-api/src/auth/throttle.rs\<close> and the parameters of \<^verbatim>\<open>config.rs\<close> it runs with:
  the login attempts counted per client, the lockout, and the two permits for a password hash.

  Instants and durations are nanoseconds. \<^verbatim>\<open>Instant + Duration\<close> panics past the last instant the
  platform represents (a signed 64-bit number of seconds on Unix); \<^verbatim>\<open>duration_since\<close> saturates
  at zero. The mutex makes each call atomic, so a concurrent burst is some sequence of calls,
  whose instants need not be in order (\<^verbatim>\<open>Instant::now\<close> is read before the lock is taken).
\<close>

type_synonym instant = nat
type_synonym duration = nat
type_synonym u32 = "32 word"

definition instant_max :: instant where
  "instant_max = 2 ^ 63 * 10 ^ 9 - 1"

definition instant_add :: "instant \<Rightarrow> duration \<Rightarrow> instant option" where
  "instant_add t d = (if t + d \<le> instant_max then Some (t + d) else None)"

definition duration_since :: "instant \<Rightarrow> instant \<Rightarrow> duration" where
  "duration_since t earlier = t - earlier"

record throttle_config =
  max_failures :: u32
  window :: duration
  lockout :: duration

record attempts =
  started :: u32
  window_started :: instant
  locked_until :: "instant option"

type_synonym throttle_state = "ustr \<Rightarrow> attempts option"

definition throttle_new :: throttle_state where
  "throttle_new = (\<lambda>_. None)"

definition is_stale :: "attempts \<Rightarrow> instant \<Rightarrow> duration \<Rightarrow> bool" where
  "is_stale a now win =
     (let lock_expired = (case locked_until a of None \<Rightarrow> True | Some t \<Rightarrow> t \<le> now)
      in lock_expired \<and> duration_since now (window_started a) > win)"

definition retain_fresh :: "throttle_config \<Rightarrow> instant \<Rightarrow> throttle_state \<Rightarrow> throttle_state" where
  "retain_fresh c now m =
     (\<lambda>k. case m k of None \<Rightarrow> None
          | Some a \<Rightarrow> if is_stale a now (window c) then None else Some a)"

definition fresh_attempts :: "instant \<Rightarrow> attempts" where
  "fresh_attempts now = \<lparr>started = 0, window_started = now, locked_until = None\<rparr>"

text \<open>The part of \<^verbatim>\<open>reserve_at\<close> after the check of the lockout: restart the window, then count.\<close>

definition count_attempt ::
    "throttle_config \<Rightarrow> ustr \<Rightarrow> instant \<Rightarrow> attempts \<Rightarrow> throttle_state
      \<Rightarrow> (duration, unit) outcome \<times> throttle_state" where
  "count_attempt c key now entry m =
     (let entry = (if duration_since now (window_started entry) > window c
                   then entry\<lparr>started := 0, window_started := now\<rparr> else entry)
      in if started entry \<ge> max_failures c then
           (case instant_add now (lockout c) of
              None \<Rightarrow> (Panic, m(key \<mapsto> entry))
            | Some t \<Rightarrow> (Err (lockout c), m(key \<mapsto> entry\<lparr>locked_until := Some t\<rparr>)))
         else (Ok (), m(key \<mapsto> entry\<lparr>started := started entry + 1\<rparr>)))"

definition reserve_at ::
    "throttle_config \<Rightarrow> ustr \<Rightarrow> instant \<Rightarrow> throttle_state
      \<Rightarrow> (duration, unit) outcome \<times> throttle_state" where
  "reserve_at c key now m =
     (let m = retain_fresh c now m;
          entry = (case m key of None \<Rightarrow> fresh_attempts now | Some a \<Rightarrow> a)
      in case locked_until entry of
           Some t \<Rightarrow>
             if t > now then (Err (t - now), m(key \<mapsto> entry))
             else count_attempt c key now (fresh_attempts now) m
         | None \<Rightarrow> count_attempt c key now entry m)"

definition record_success :: "ustr \<Rightarrow> throttle_state \<Rightarrow> throttle_state" where
  "record_success key m = m(key := None)"

section \<open>Rate limiters\<close>

text \<open>
  The contract the login handler relies on, stated once: there is a budget for a client
  that every admission of that client uses up by one and nothing that happens in the allowed
  times gives back. Then no interleaving of attempts admits more than the budget.
\<close>

datatype throttle_event = Attempt ustr nat | Success ustr

fun admitted ::
    "(ustr \<Rightarrow> nat \<Rightarrow> 's \<Rightarrow> ('e, unit) outcome \<times> 's) \<Rightarrow> (ustr \<Rightarrow> 's \<Rightarrow> 's)
      \<Rightarrow> ustr \<Rightarrow> throttle_event list \<Rightarrow> 's \<Rightarrow> nat" where
  "admitted res succ k [] s = 0"
| "admitted res succ k (Success k' # evs) s = admitted res succ k evs (succ k' s)"
| "admitted res succ k (Attempt k' t # evs) s =
     (if k' = k \<and> is_ok (fst (res k' t s)) then 1 else 0)
       + admitted res succ k evs (snd (res k' t s))"

definition allowed_events :: "(nat \<Rightarrow> bool) \<Rightarrow> ustr \<Rightarrow> throttle_event list \<Rightarrow> bool" where
  "allowed_events ok_time k evs \<longleftrightarrow>
     (\<forall>e\<in>set evs. case e of Attempt k' t \<Rightarrow> ok_time t | Success k' \<Rightarrow> k' \<noteq> k)"

locale rate_limiter =
  fixes res :: "ustr \<Rightarrow> nat \<Rightarrow> 's \<Rightarrow> ('e, unit) outcome \<times> 's"
    and succ :: "ustr \<Rightarrow> 's \<Rightarrow> 's"
    and ok_time :: "nat \<Rightarrow> bool"
    and budget :: "ustr \<Rightarrow> 's \<Rightarrow> nat"
  assumes admit_costs:
      "ok_time t \<Longrightarrow> res k t s = (Ok (), s') \<Longrightarrow> Suc (budget k s') \<le> budget k s"
    and refuse_keeps: "ok_time t \<Longrightarrow> budget k (snd (res k t s)) \<le> budget k s"
    and other_keeps: "ok_time t \<Longrightarrow> k' \<noteq> k \<Longrightarrow> budget k (snd (res k' t s)) \<le> budget k s"
    and success_keeps: "k' \<noteq> k \<Longrightarrow> budget k (succ k' s) \<le> budget k s"
begin

lemma admitted_le_budget:
  "allowed_events ok_time k evs \<Longrightarrow> admitted res succ k evs s \<le> budget k s"
proof (induction evs arbitrary: s)
  case (Cons e evs)
  then have rest: "admitted res succ k evs s' \<le> budget k s'" for s'
    by (simp add: allowed_events_def)
  show ?case
  proof (cases e)
    case (Attempt k' t)
    with Cons.prems have t: "ok_time t" by (simp add: allowed_events_def)
    obtain r s' where r: "res k' t s = (r, s')" by (cases "res k' t s")
    have "budget k s' \<le> budget k s"
      using refuse_keeps [OF t, of k s] other_keeps [OF t, of k' k s] r by (cases "k' = k") auto
    moreover have "r = Ok () \<and> k' = k \<Longrightarrow> Suc (budget k s') \<le> budget k s"
      using admit_costs [OF t, of k s s'] r by auto
    ultimately show ?thesis using rest [of s'] r Attempt by (cases r) auto
  next
    case (Success k')
    with Cons.prems have "k' \<noteq> k" by (simp add: allowed_events_def)
    from success_keeps [OF this, of s] rest [of "succ k' s"] Success show ?thesis by simp
  qed
qed simp

end

text \<open>
  A limiter that also never refuses a client while its budget lasts, as long as the client is
  in a \<^emph>\<open>settled\<close> state. Then the number of admissions is known exactly.
\<close>

definition attempts_of :: "ustr \<Rightarrow> throttle_event list \<Rightarrow> nat" where
  "attempts_of k evs =
     length (filter (\<lambda>e. case e of Attempt k' t \<Rightarrow> k' = k | Success k' \<Rightarrow> False) evs)"

locale exact_rate_limiter = rate_limiter res succ ok_time budget
  for res :: "ustr \<Rightarrow> nat \<Rightarrow> 's \<Rightarrow> ('e, unit) outcome \<times> 's"
    and succ :: "ustr \<Rightarrow> 's \<Rightarrow> 's"
    and ok_time :: "nat \<Rightarrow> bool"
    and budget :: "ustr \<Rightarrow> 's \<Rightarrow> nat" +
  fixes settled :: "ustr \<Rightarrow> 's \<Rightarrow> bool"
  assumes settled_res: "ok_time t \<Longrightarrow> settled k s \<Longrightarrow> settled k (snd (res k' t s))"
    and settled_success: "k' \<noteq> k \<Longrightarrow> settled k s \<Longrightarrow> settled k (succ k' s)"
    and admits_iff: "ok_time t \<Longrightarrow> settled k s \<Longrightarrow> is_ok (fst (res k t s)) \<longleftrightarrow> 0 < budget k s"
    and budget_res: "ok_time t \<Longrightarrow> settled k s \<Longrightarrow> budget k (snd (res k t s)) = budget k s - 1"
    and budget_res_other:
      "ok_time t \<Longrightarrow> settled k s \<Longrightarrow> k' \<noteq> k \<Longrightarrow> budget k (snd (res k' t s)) = budget k s"
    and budget_success: "k' \<noteq> k \<Longrightarrow> budget k (succ k' s) = budget k s"
begin

lemma admitted_exact:
  "allowed_events ok_time k evs \<Longrightarrow> settled k s \<Longrightarrow>
   admitted res succ k evs s = min (budget k s) (attempts_of k evs)"
proof (induction evs arbitrary: s)
  case Nil
  then show ?case by (simp add: attempts_of_def)
next
  case (Cons e evs)
  then have rest: "settled k s' \<Longrightarrow>
      admitted res succ k evs s' = min (budget k s') (attempts_of k evs)" for s'
    by (simp add: allowed_events_def)
  show ?case
  proof (cases e)
    case (Attempt k' t)
    with Cons.prems have t: "ok_time t" by (simp add: allowed_events_def)
    from rest [OF settled_res [OF t Cons.prems(2)]] Attempt Cons.prems(2)
      admits_iff [OF t Cons.prems(2)] budget_res [OF t Cons.prems(2)]
      budget_res_other [OF t Cons.prems(2)]
    show ?thesis by (auto simp: attempts_of_def min_def)
  next
    case (Success k')
    with Cons.prems have "k' \<noteq> k" by (simp add: allowed_events_def)
    from rest [OF settled_success [OF this Cons.prems(2)]] budget_success [OF this] Success
    show ?thesis by (simp add: attempts_of_def)
  qed
qed

end

section \<open>The budget of a client in an interval\<close>

text \<open>
  Within an interval from \<open>t0\<close> of a length at most the window and less than the lockout, a
  window that starts in the interval does not end in it, and neither does a lockout. An entry
  whose window started earlier may be restarted once.
\<close>

definition in_interval :: "throttle_config \<Rightarrow> instant \<Rightarrow> duration \<Rightarrow> instant \<Rightarrow> bool" where
  "in_interval c t0 w t \<longleftrightarrow> t0 \<le> t \<and> t \<le> t0 + w \<and> w \<le> window c \<and> w < lockout c"

definition entry_budget :: "throttle_config \<Rightarrow> instant \<Rightarrow> duration \<Rightarrow> attempts option \<Rightarrow> nat" where
  "entry_budget c t0 w e =
     (case e of
        None \<Rightarrow> unat (max_failures c)
      | Some a \<Rightarrow>
          if t0 \<le> window_started a
             \<and> (case locked_until a of None \<Rightarrow> True | Some t \<Rightarrow> t0 + w < t)
          then unat (max_failures c) - unat (started a)
          else unat (max_failures c) + (unat (max_failures c) - unat (started a)))"

definition interval_budget ::
    "throttle_config \<Rightarrow> instant \<Rightarrow> duration \<Rightarrow> ustr \<Rightarrow> throttle_state \<Rightarrow> nat" where
  "interval_budget c t0 w k m = entry_budget c t0 w (m k)"

lemma unat_Suc_u32: "(s :: u32) < n \<Longrightarrow> unat (s + 1) = Suc (unat s)"
proof -
  assume "s < n"
  then have "unat s < unat n" by (simp add: word_less_nat_alt)
  moreover have "unat n < 2 ^ 32" using unsigned_less [of n] by simp
  ultimately show ?thesis by (simp add: unat_word_ariths)
qed

text \<open>What a call does to the entry of its own client, the rest of the map left aside.\<close>

definition fresh_entry :: "throttle_config \<Rightarrow> instant \<Rightarrow> attempts option \<Rightarrow> attempts option" where
  "fresh_entry c now e = (case e of None \<Rightarrow> None
     | Some a \<Rightarrow> if is_stale a now (window c) then None else Some a)"

definition entry_count :: "throttle_config \<Rightarrow> instant \<Rightarrow> attempts \<Rightarrow> (duration, unit) outcome \<times> attempts"
  where
  "entry_count c now a =
     (let a = (if now - window_started a > window c
               then a\<lparr>started := 0, window_started := now\<rparr> else a)
      in if started a \<ge> max_failures c then
           (case instant_add now (lockout c) of
              None \<Rightarrow> (Panic, a)
            | Some t \<Rightarrow> (Err (lockout c), a\<lparr>locked_until := Some t\<rparr>))
         else (Ok (), a\<lparr>started := started a + 1\<rparr>))"

definition entry_step ::
    "throttle_config \<Rightarrow> instant \<Rightarrow> attempts option \<Rightarrow> (duration, unit) outcome \<times> attempts" where
  "entry_step c now e =
     (let a = (case fresh_entry c now e of None \<Rightarrow> fresh_attempts now | Some a \<Rightarrow> a)
      in case locked_until a of
           Some t \<Rightarrow> if t > now then (Err (t - now), a) else entry_count c now (fresh_attempts now)
         | None \<Rightarrow> entry_count c now a)"

lemma reserve_at_entry:
  "reserve_at c k now m =
     (fst (entry_step c now (m k)), (retain_fresh c now m)(k \<mapsto> snd (entry_step c now (m k))))"
  by (simp add: reserve_at_def entry_step_def entry_count_def count_attempt_def retain_fresh_def
      fresh_entry_def duration_since_def Let_def split: option.split)

lemma retain_fresh_at: "retain_fresh c now m k = fresh_entry c now (m k)"
  by (simp add: retain_fresh_def fresh_entry_def)

lemma entry_budget_fresh:
  "in_interval c t0 w t \<Longrightarrow> entry_budget c t0 w (fresh_entry c t e) \<le> entry_budget c t0 w e"
  by (auto simp: fresh_entry_def entry_budget_def is_stale_def duration_since_def in_interval_def
      split: option.splits)

lemma instant_add_Some: "instant_add t d = Some u \<longleftrightarrow> u = t + d \<and> t + d \<le> instant_max"
  by (auto simp: instant_add_def)

lemma entry_count_budget:
  assumes "in_interval c t0 w t" "locked_until a = None" "entry_count c t a = (r, a')"
  shows "entry_budget c t0 w (Some a') \<le> entry_budget c t0 w (Some a)
    \<and> (r = Ok () \<longrightarrow> Suc (entry_budget c t0 w (Some a')) \<le> entry_budget c t0 w (Some a))"
  using assms
  by (auto simp: entry_count_def entry_budget_def in_interval_def Let_def instant_add_Some
      unat_Suc_u32 not_le word_less_nat_alt word_le_nat_alt
      split: if_splits option.splits)

lemma fresh_attempts_budget:
  "in_interval c t0 w t \<Longrightarrow>
   entry_budget c t0 w (Some (fresh_attempts t)) = unat (max_failures c)"
  by (simp add: entry_budget_def fresh_attempts_def in_interval_def)

lemma fresh_attempts_unlocked [simp]: "locked_until (fresh_attempts t) = None"
  by (simp add: fresh_attempts_def)

lemma max_le_budget_stale:
  "is_stale a t (window c) \<Longrightarrow> in_interval c t0 w t \<Longrightarrow>
   unat (max_failures c) \<le> entry_budget c t0 w (Some a)"
  by (auto simp: entry_budget_def is_stale_def duration_since_def in_interval_def
      split: option.splits)

lemma max_le_budget_served:
  "locked_until a = Some u \<Longrightarrow> u \<le> t \<Longrightarrow> in_interval c t0 w t \<Longrightarrow>
   unat (max_failures c) \<le> entry_budget c t0 w (Some a)"
  by (auto simp: entry_budget_def in_interval_def)

lemma max_le_budget_None: "unat (max_failures c) \<le> entry_budget c t0 w None"
  by (simp add: entry_budget_def)

lemma entry_step_budget:
  assumes t: "in_interval c t0 w t" and s: "entry_step c t e = (r, a')"
  shows "entry_budget c t0 w (Some a') \<le> entry_budget c t0 w e
    \<and> (r = Ok () \<longrightarrow> Suc (entry_budget c t0 w (Some a')) \<le> entry_budget c t0 w e)"
proof -
  let ?B = "entry_budget c t0 w"
  have fresh: ?thesis if le: "unat (max_failures c) \<le> ?B e"
    and "entry_count c t (fresh_attempts t) = (r, a')"
    using entry_count_budget [OF t fresh_attempts_unlocked that(2)] le fresh_attempts_budget [OF t]
    by linarith
  show ?thesis
  proof (cases "fresh_entry c t e")
    case None
    then have "unat (max_failures c) \<le> ?B e"
      using max_le_budget_stale [OF _ t] max_le_budget_None
      by (auto simp: fresh_entry_def split: option.splits if_splits)
    with fresh s None show ?thesis by (simp add: entry_step_def)
  next
    case (Some a)
    then have e: "e = Some a" by (auto simp: fresh_entry_def split: option.splits if_splits)
    show ?thesis
    proof (cases "locked_until a")
      case None
      with s Some entry_count_budget [OF t] e show ?thesis by (simp add: entry_step_def)
    next
      case (Some u)
      show ?thesis
      proof (cases "u > t")
        case True
        with s Some e \<open>fresh_entry c t e = Some a\<close> show ?thesis by (auto simp: entry_step_def)
      next
        case False
        then have "unat (max_failures c) \<le> ?B e"
          using max_le_budget_served [OF Some _ t] e by simp
        with fresh s Some False \<open>fresh_entry c t e = Some a\<close> show ?thesis
          by (simp add: entry_step_def)
      qed
    qed
  qed
qed

interpretation throttle: rate_limiter "reserve_at c" record_success "in_interval c t0 w"
    "interval_budget c t0 w" for c t0 w
proof unfold_locales
  fix t k and s s' :: throttle_state
  assume "in_interval c t0 w t" "reserve_at c k t s = (Ok (), s')"
  then show "Suc (interval_budget c t0 w k s') \<le> interval_budget c t0 w k s"
    using entry_step_budget [of c t0 w t "s k"]
    by (cases "entry_step c t (s k)") (auto simp: reserve_at_entry interval_budget_def)
next
  fix t k and s :: throttle_state
  assume "in_interval c t0 w t"
  then show "interval_budget c t0 w k (snd (reserve_at c k t s)) \<le> interval_budget c t0 w k s"
    using entry_step_budget [of c t0 w t "s k"]
    by (cases "entry_step c t (s k)") (auto simp: reserve_at_entry interval_budget_def)
next
  fix t and k' k :: ustr and s :: throttle_state
  assume "in_interval c t0 w t" "k' \<noteq> k"
  then show "interval_budget c t0 w k (snd (reserve_at c k' t s)) \<le> interval_budget c t0 w k s"
    by (simp add: reserve_at_entry interval_budget_def retain_fresh_at entry_budget_fresh)
next
  fix k' k :: ustr and s :: throttle_state
  assume "k' \<noteq> k"
  then show "interval_budget c t0 w k (record_success k' s) \<le> interval_budget c t0 w k s"
    by (simp add: record_success_def interval_budget_def)
qed

section \<open>Properties of the throttle\<close>

lemma interval_budget_le: "interval_budget c t0 w k m \<le> 2 * unat (max_failures c)"
  by (auto simp: interval_budget_def entry_budget_def split: option.splits)

lemma reserve_other:
  "k' \<noteq> k \<Longrightarrow> (snd (reserve_at c k' t m)) k = fresh_entry c t (m k)"
  by (simp add: reserve_at_entry retain_fresh_at)

lemma fresh_entry_mono:
  "t \<le> t' \<Longrightarrow> fresh_entry c t' (fresh_entry c t e) = fresh_entry c t' e"
  by (auto simp: fresh_entry_def is_stale_def duration_since_def split: option.splits)

lemma entry_step_fresh:
  "t \<le> t' \<Longrightarrow> entry_step c t' (fresh_entry c t e) = entry_step c t' e"
  by (simp add: entry_step_def fresh_entry_mono)

lemma entry_step_Panic:
  "fst (entry_step c t e) = Panic \<Longrightarrow> instant_max < t + lockout c"
  by (auto simp: entry_step_def entry_count_def instant_add_def Let_def
      split: option.splits if_splits)

text \<open>Settled: no entry, or one of this interval that is locked only when its budget is used up.\<close>

definition settled_entry :: "throttle_config \<Rightarrow> instant \<Rightarrow> duration \<Rightarrow> attempts option \<Rightarrow> bool" where
  "settled_entry c t0 w e =
     (case e of None \<Rightarrow> True
      | Some a \<Rightarrow> t0 \<le> window_started a
         \<and> (case locked_until a of None \<Rightarrow> True | Some u \<Rightarrow> t0 + w < u \<and> max_failures c \<le> started a))"

definition settled :: "throttle_config \<Rightarrow> instant \<Rightarrow> duration \<Rightarrow> ustr \<Rightarrow> throttle_state \<Rightarrow> bool" where
  "settled c t0 w k m = settled_entry c t0 w (m k)"

lemma settled_fresh_entry:
  "in_interval c t0 w t \<Longrightarrow> settled_entry c t0 w e \<Longrightarrow> fresh_entry c t e = e"
  by (auto simp: settled_entry_def fresh_entry_def in_interval_def is_stale_def duration_since_def
      split: option.splits)

lemma settled_entry_step:
  assumes "in_interval c t0 w t" "settled_entry c t0 w e" "entry_step c t e = (r, a)"
  shows "settled_entry c t0 w (Some a)
    \<and> (is_ok r \<longleftrightarrow> 0 < entry_budget c t0 w e)
    \<and> entry_budget c t0 w (Some a) = entry_budget c t0 w e - 1"
proof (cases e)
  case None
  with assms show ?thesis
    by (auto simp: entry_step_def entry_count_def fresh_entry_def fresh_attempts_def
        settled_entry_def entry_budget_def in_interval_def Let_def instant_add_def
        word_le_nat_alt unat_Suc_u32 [of 0] word_less_nat_alt split: if_splits)
next
  case (Some b)
  show ?thesis
  proof (cases "locked_until b")
    case None
    with assms Some settled_fresh_entry [OF assms(1,2)] show ?thesis
      by (auto simp: entry_step_def entry_count_def settled_entry_def entry_budget_def
          in_interval_def Let_def instant_add_def word_le_nat_alt not_le
          unat_Suc_u32 [of "started b" "max_failures c"] word_less_nat_alt split: if_splits)
  next
    case (Some u)
    with assms \<open>e = Some b\<close> settled_fresh_entry [OF assms(1,2)] show ?thesis
      by (auto simp: entry_step_def settled_entry_def entry_budget_def in_interval_def
          word_le_nat_alt split: if_splits)
  qed
qed

interpretation throttle: exact_rate_limiter "reserve_at c" record_success "in_interval c t0 w"
    "interval_budget c t0 w" "settled c t0 w" for c t0 w
proof unfold_locales
  fix t and k k' :: ustr and s :: throttle_state
  assume t: "in_interval c t0 w t" and st: "settled c t0 w k s"
  show "settled c t0 w k (snd (reserve_at c k' t s))"
    using settled_entry_step [OF t, of "s k" "fst (entry_step c t (s k))" "snd (entry_step c t (s k))"]
      settled_fresh_entry [OF t, of "s k"] st
    by (cases "k' = k") (auto simp: settled_def reserve_at_entry retain_fresh_at)
  show "is_ok (fst (reserve_at c k t s)) \<longleftrightarrow> 0 < interval_budget c t0 w k s"
    using settled_entry_step [OF t, of "s k" "fst (entry_step c t (s k))" "snd (entry_step c t (s k))"] st
    by (simp add: settled_def reserve_at_entry interval_budget_def)
  show "interval_budget c t0 w k (snd (reserve_at c k t s)) = interval_budget c t0 w k s - 1"
    using settled_entry_step [OF t, of "s k" "fst (entry_step c t (s k))" "snd (entry_step c t (s k))"] st
    by (simp add: settled_def reserve_at_entry interval_budget_def)
  show "k' \<noteq> k \<Longrightarrow>
      interval_budget c t0 w k (snd (reserve_at c k' t s)) = interval_budget c t0 w k s"
    using settled_fresh_entry [OF t, of "s k"] st
    by (simp add: settled_def reserve_at_entry interval_budget_def retain_fresh_at)
qed (simp_all add: settled_def record_success_def interval_budget_def)

text \<open>
  C29: No burst of sign-in attempts gets past the limit. Whatever the throttle's state and however
  the attempts of all clients interleave, in an interval at most as long as the window and
  shorter than the lockout a client that does not sign in is admitted at most twice the
  configured number of times (once for the window that was open when the interval began, once
  for a new one).
\<close>

theorem throttle_burst_bound:
  assumes "allowed_events (in_interval c t0 w) k evs"
  shows "admitted (reserve_at c) record_success k evs m \<le> 2 * unat (max_failures c)"
  using throttle.admitted_le_budget [OF assms, of m] interval_budget_le [of c t0 w k m] by linarith

definition sample_throttle :: throttle_config where
  "sample_throttle = \<lparr>max_failures = 2, window = 900, lockout = 300\<rparr>"

definition sample_burst :: "throttle_event list" where
  "sample_burst = [Attempt [1] 1000, Attempt [2] 1003, Attempt [1] 1002, Success [2], Attempt [1] 1000]"

lemma throttle_burst_bound_witness:
  "admitted (reserve_at sample_throttle) record_success [1] sample_burst throttle_new \<le> 4"
  using throttle_burst_bound [of sample_throttle 1000 200 "[1]" sample_burst throttle_new]
  by (simp add: sample_throttle_def sample_burst_def allowed_events_def in_interval_def)

text \<open>
  C13: A client without an entry is admitted exactly as often as the limit says: every one of its
  attempts until the limit is reached, none after it, in whatever order the attempts of all
  clients are counted and whatever instants in the interval they carry.
\<close>

theorem throttle_admits_exactly:
  assumes "m k = None" and "allowed_events (in_interval c t0 w) k evs"
  shows "admitted (reserve_at c) record_success k evs m
           = min (unat (max_failures c)) (attempts_of k evs)"
  using throttle.admitted_exact [OF assms(2), of m] assms(1)
  by (simp add: settled_def settled_entry_def interval_budget_def entry_budget_def)

lemma throttle_admits_exactly_witness:
  "admitted (reserve_at sample_throttle) record_success [1] sample_burst throttle_new = 2"
proof -
  have "allowed_events (in_interval sample_throttle 1000 200) [1] sample_burst"
    by (simp add: sample_throttle_def sample_burst_def allowed_events_def in_interval_def)
  moreover have "attempts_of [1] sample_burst = 3" by code_simp
  ultimately show ?thesis
    using throttle_admits_exactly [of throttle_new "[1]" sample_throttle 1000 200 sample_burst]
    by (simp add: throttle_new_def sample_throttle_def)
qed

text \<open>
  C30: While a client is locked out every attempt is refused, with the time that is left, and
  changes nothing about its entry; once the lockout is served a fresh window starts and, with a
  positive limit, the attempt is admitted as its first.
\<close>

theorem throttle_lockout:
  assumes "m k = Some a" "locked_until a = Some u" "0 < max_failures c"
  shows "fst (reserve_at c k t m) = (if t < u then Err (u - t) else Ok ())
    \<and> snd (reserve_at c k t m) k
        = Some (if t < u then a else \<lparr>started = 1, window_started = t, locked_until = None\<rparr>)"
  using assms
  by (auto simp: reserve_at_entry entry_step_def fresh_entry_def is_stale_def entry_count_def
      fresh_attempts_def Let_def word_le_nat_alt word_less_nat_alt)

lemma throttle_lockout_witness:
  "fst (reserve_at sample_throttle [1] 5 [[1] \<mapsto> \<lparr>started = 2, window_started = 3, locked_until = Some 9\<rparr>])
     = Err 4
   \<and> fst (reserve_at sample_throttle [1] 9 [[1] \<mapsto> \<lparr>started = 2, window_started = 3, locked_until = Some 9\<rparr>])
     = Ok ()"
  using throttle_lockout [of "[[1] \<mapsto> \<lparr>started = 2, window_started = 3, locked_until = Some 9\<rparr>]"
        "[1]" _ 9 sample_throttle 5]
    throttle_lockout [of "[[1] \<mapsto> \<lparr>started = 2, window_started = 3, locked_until = Some 9\<rparr>]"
        "[1]" _ 9 sample_throttle 9]
  by (simp add: sample_throttle_def)

text \<open>
  Clients are independent: an attempt or a success of another client changes neither the
  outcome of a later attempt of this client nor what it leaves in its entry.
\<close>

theorem throttle_isolation:
  assumes "k' \<noteq> k" "t \<le> t'"
  shows "fst (reserve_at c k t' (snd (reserve_at c k' t m))) = fst (reserve_at c k t' m)
    \<and> snd (reserve_at c k t' (snd (reserve_at c k' t m))) k = snd (reserve_at c k t' m) k
    \<and> fst (reserve_at c k t' (record_success k' m)) = fst (reserve_at c k t' m)
    \<and> snd (reserve_at c k t' (record_success k' m)) k = snd (reserve_at c k t' m) k"
  using assms
  by (simp add: reserve_at_entry retain_fresh_at entry_step_fresh record_success_def)

lemma throttle_isolation_witness:
  "fst (reserve_at sample_throttle [1] 5 (snd (reserve_at sample_throttle [2] 4 throttle_new)))
     = fst (reserve_at sample_throttle [1] 5 throttle_new)"
  using throttle_isolation [of "[2]" "[1]" 4 5 sample_throttle throttle_new] by simp

text \<open>
  The deadline of a lockout is computed with an addition that panics on overflow. With a
  lockout longer than the clock can represent (the configuration sets no upper bound) the
  attempt that reaches the limit panics instead of being refused, and no lockout is recorded.
\<close>

theorem throttle_lockout_overflow:
  assumes "m k = Some a" "locked_until a = None" "t - window_started a \<le> window c"
    and "max_failures c \<le> started a" "instant_max < t + lockout c"
  shows "fst (reserve_at c k t m) = Panic \<and> snd (reserve_at c k t m) k = Some a"
  using assms
  by (simp add: reserve_at_entry entry_step_def fresh_entry_def is_stale_def entry_count_def
      duration_since_def instant_add_def Let_def)

lemma throttle_lockout_overflow_witness:
  "fst (reserve_at (sample_throttle\<lparr>lockout := 2 ^ 63 * 10 ^ 9\<rparr>) [1] 5
     [[1] \<mapsto> \<lparr>started = 2, window_started = 3, locked_until = None\<rparr>]) = Panic"
  using throttle_lockout_overflow [of "[[1] \<mapsto> \<lparr>started = 2, window_started = 3, locked_until = None\<rparr>]"
      "[1]" _ 5 "sample_throttle\<lparr>lockout := 2 ^ 63 * 10 ^ 9\<rparr>"]
  by (simp add: sample_throttle_def instant_max_def)

end
