(* ===== verification/Config.thy ===== *)
theory Config
  imports Secret Throttle
begin

text \<open>
  \<^verbatim>\<open>crates/otdel-core/src/config.rs\<close>: the configuration, read from the environment (\<open>source\<close>,
  a partial map from variable names) and checked before the server starts. The reader of a
  \<^verbatim>\<open>SocketAddr\<close> is the argument \<open>parse_addr\<close>; a path is its text; a \<^verbatim>\<open>Duration\<close> read as
  seconds is kept in seconds, except in the throttle, which counts nanoseconds.
\<close>

type_synonym config_source = "ustr \<Rightarrow> ustr option"

definition SESSION_SECONDS_MIN :: nat where
  "SESSION_SECONDS_MIN = 60"

definition SESSION_TTL_MAX :: nat where
  "SESSION_TTL_MAX = 7 * 24 * 3600"

datatype runtime_env = Local | Production

fun runtime_env_as_str :: "runtime_env \<Rightarrow> ustr" where
  "runtime_env_as_str Local = lit ''local''"
| "runtime_env_as_str Production = lit ''production''"

definition runtime_env_parse :: "ustr \<Rightarrow> (app_error, runtime_env) outcome" where
  "runtime_env_parse value =
     (let v = to_ascii_lowercase (trim value)
      in if v \<in> {lit ''local'', lit ''development'', lit ''dev''} then Ok Local
         else if v \<in> {lit ''production'', lit ''prod''} then Ok Production
         else Err (ae_validation (lit ''OTDEL_ENV must be `local` or `production`, got `'' @ v @ lit ''`'')))"

record config =
  env_of :: runtime_env
  bind_addr :: ustr
  database_url :: ustr
  database_admin_url :: "ustr option"
  database_max_connections :: nat
  bureau_slug :: ustr
  owner_password_hash :: ustr
  storage_root :: ustr
  cors_allowed_origins :: "ustr list"
  session_ttl :: nat
  session_idle_timeout :: nat
  cookie_name :: ustr
  cookie_secure :: bool
  max_upload_bytes :: u64
  login_throttle :: throttle_config
  log_filter :: ustr

section \<open>Reading single variables\<close>

definition string_or :: "config_source \<Rightarrow> string \<Rightarrow> string \<Rightarrow> ustr" where
  "string_or source key dflt =
     (case source (lit key) of
        Some value \<Rightarrow> if trim value \<noteq> [] then trim value else lit dflt
      | None \<Rightarrow> lit dflt)"

definition placeholder_error :: "string \<Rightarrow> app_error" where
  "placeholder_error key = ae_validation (lit key
     @ lit '' still contains an empty or example value; generate local credentials with ''
     @ lit ''`scripts/dev-init.sh` (the server refuses to start with a known placeholder)'')"

definition required_secret :: "config_source \<Rightarrow> string \<Rightarrow> (app_error, ustr) outcome" where
  "required_secret source key =
     and_then (ok_or (ae_validation (lit key @ lit '' is not set'')) (source (lit key))) (\<lambda>value.
       if looks_like_placeholder value then Err (placeholder_error key) else Ok value)"

definition parse_bool :: "ustr \<Rightarrow> string \<Rightarrow> (app_error, bool) outcome" where
  "parse_bool value key =
     (let v = to_ascii_lowercase (trim value)
      in if v \<in> {lit ''1'', lit ''true'', lit ''yes'', lit ''on''} then Ok True
         else if v \<in> {lit ''0'', lit ''false'', lit ''no'', lit ''off''} then Ok False
         else Err (ae_validation (lit key @ lit '' must be true or false'')))"

definition parse_u64_or :: "config_source \<Rightarrow> string \<Rightarrow> u64 \<Rightarrow> (app_error, u64) outcome" where
  "parse_u64_or source key dflt =
     (case source (lit key) of
        Some value \<Rightarrow>
          if trim value \<noteq> [] then
            ok_or (ae_validation (lit key @ lit '' must be a non-negative integer''))
              (parse_u64 (trim value))
          else Ok dflt
      | None \<Rightarrow> Ok dflt)"

definition duration_secs_or :: "config_source \<Rightarrow> string \<Rightarrow> u64 \<Rightarrow> (app_error, nat) outcome" where
  "duration_secs_or source key dflt =
     and_then (parse_u64_or source key dflt) (\<lambda>n. Ok (unat n))"

text \<open>\<^verbatim>\<open>u32::try_from\<close>.\<close>

definition u32_try_from :: "u64 \<Rightarrow> u32 option" where
  "u32_try_from n = (if unat n < 2 ^ 32 then Some (of_nat (unat n)) else None)"

section \<open>The groups of variables\<close>

definition load_admin_url :: "config_source \<Rightarrow> (app_error, ustr option) outcome" where
  "load_admin_url source =
     (case source (lit ''OTDEL_DATABASE_ADMIN_URL'') of
        Some value \<Rightarrow>
          if trim value \<noteq> [] then
            (if looks_like_placeholder value
             then Err (placeholder_error ''OTDEL_DATABASE_ADMIN_URL'') else Ok (Some value))
          else Ok None
      | None \<Rightarrow> Ok None)"

definition load_password_hash :: "externs \<Rightarrow> config_source \<Rightarrow> (app_error, ustr) outcome" where
  "load_password_hash x source =
     and_then (required_secret source ''OTDEL_OWNER_PASSWORD_HASH'') (\<lambda>h.
       if \<not> is_supported_password_hash x h then
         Err (ae_validation (lit ''OTDEL_OWNER_PASSWORD_HASH must be an Argon2 PHC hash; ''
           @ lit ''run `scripts/dev-init.sh` to generate the local owner credentials''))
       else Ok h)"

definition slug_char :: "uchar \<Rightarrow> bool" where
  "slug_char c \<longleftrightarrow> is_ascii_lowercase c \<or> is_ascii_digit c \<or> c = 45"

definition load_bureau_slug :: "config_source \<Rightarrow> (app_error, ustr) outcome" where
  "load_bureau_slug source =
     (let slug = string_or source ''OTDEL_BUREAU_SLUG'' ''local''
      in if slug = [] \<or> \<not> list_all slug_char slug then
           Err (ae_validation (lit ''OTDEL_BUREAU_SLUG must be lowercase ASCII letters, digits or `-`''))
         else Ok slug)"

fun check_origins :: "ustr list \<Rightarrow> (app_error, unit) outcome" where
  "check_origins [] = Ok ()"
| "check_origins (origin # rest) =
     (if origin = lit ''*'' then
        Err (ae_validation (lit ''OTDEL_CORS_ALLOWED_ORIGINS must list explicit origins; `*` is not allowed ''
          @ lit ''with credentialed requests''))
      else if \<not> prefix (lit ''http://'') origin \<and> \<not> prefix (lit ''https://'') origin then
        Err (ae_validation (lit ''OTDEL_CORS_ALLOWED_ORIGINS entry `'' @ origin
          @ lit ''` must be a full origin, '' @ lit ''e.g. http://127.0.0.1:15173''))
      else check_origins rest)"

definition load_origins :: "config_source \<Rightarrow> (app_error, ustr list) outcome" where
  "load_origins source =
     (let origins = filter (\<lambda>v. v \<noteq> []) (map trim (split_on 44
            (string_or source ''OTDEL_CORS_ALLOWED_ORIGINS''
              ''http://127.0.0.1:15173,http://localhost:15173'')))
      in and_then (check_origins origins) (\<lambda>_. Ok origins))"

definition load_session_times :: "config_source \<Rightarrow> (app_error, nat \<times> nat) outcome" where
  "load_session_times source =
     and_then (duration_secs_or source ''OTDEL_SESSION_TTL_SECONDS'' (12 * 3600)) (\<lambda>ttl.
     and_then (duration_secs_or source ''OTDEL_SESSION_IDLE_TIMEOUT_SECONDS'' (2 * 3600)) (\<lambda>idle.
     if ttl < SESSION_SECONDS_MIN \<or> ttl > SESSION_TTL_MAX then
       Err (ae_validation (lit ''OTDEL_SESSION_TTL_SECONDS must be between '' @ dec SESSION_SECONDS_MIN
         @ lit '' and '' @ dec SESSION_TTL_MAX))
     else if idle < SESSION_SECONDS_MIN then
       Err (ae_validation (lit ''OTDEL_SESSION_IDLE_TIMEOUT_SECONDS must be at least ''
         @ dec SESSION_SECONDS_MIN
         @ lit '' (the database session functions reject anything shorter)''))
     else if idle > ttl then
       Err (ae_validation
         (lit ''OTDEL_SESSION_IDLE_TIMEOUT_SECONDS must not exceed OTDEL_SESSION_TTL_SECONDS''))
     else Ok (ttl, idle)))"

definition cookie_name_char :: "uchar \<Rightarrow> bool" where
  "cookie_name_char c \<longleftrightarrow> is_ascii_alphanumeric c \<or> c = 95 \<or> c = 45"

definition load_cookie :: "runtime_env \<Rightarrow> config_source \<Rightarrow> (app_error, ustr \<times> bool) outcome" where
  "load_cookie runtime source =
     (let name = string_or source ''OTDEL_SESSION_COOKIE_NAME'' ''otdel_session''
      in if name = [] \<or> \<not> list_all cookie_name_char name then
           Err (ae_validation (lit ''OTDEL_SESSION_COOKIE_NAME must be alphanumeric with `_`/`-`''))
         else
           and_then (case source (lit ''OTDEL_COOKIE_SECURE'') of
               Some value \<Rightarrow> parse_bool value ''OTDEL_COOKIE_SECURE''
             | None \<Rightarrow> Ok (runtime = Production)) (\<lambda>secure.
           if runtime = Production \<and> \<not> secure then
             Err (ae_validation (lit ''OTDEL_COOKIE_SECURE cannot be disabled when OTDEL_ENV=production''))
           else Ok (name, secure)))"

definition load_max_upload :: "config_source \<Rightarrow> (app_error, u64) outcome" where
  "load_max_upload source =
     and_then (parse_u64_or source ''OTDEL_MAX_UPLOAD_BYTES'' (25 * 1024 * 1024)) (\<lambda>n.
       if n = 0 \<or> n > 512 * 1024 * 1024 then
         Err (ae_validation (lit ''OTDEL_MAX_UPLOAD_BYTES must be between 1 and 536870912''))
       else Ok n)"

definition load_throttle :: "config_source \<Rightarrow> (app_error, throttle_config) outcome" where
  "load_throttle source =
     and_then (parse_u64_or source ''OTDEL_LOGIN_MAX_FAILURES'' 10) (\<lambda>n.
     and_then (ok_or (ae_validation (lit ''OTDEL_LOGIN_MAX_FAILURES is too large'')) (u32_try_from n)) (\<lambda>failures.
     and_then (duration_secs_or source ''OTDEL_LOGIN_FAILURE_WINDOW_SECONDS'' 900) (\<lambda>win.
     and_then (duration_secs_or source ''OTDEL_LOGIN_LOCKOUT_SECONDS'' 900) (\<lambda>lock.
     Ok \<lparr>max_failures = max failures 1, window = win * 10 ^ 9, lockout = lock * 10 ^ 9\<rparr>))))"

definition load_max_connections :: "config_source \<Rightarrow> (app_error, nat) outcome" where
  "load_max_connections source =
     and_then (parse_u64_or source ''OTDEL_DATABASE_MAX_CONNECTIONS'' 8) (\<lambda>n.
     and_then (ok_or (ae_validation (lit ''OTDEL_DATABASE_MAX_CONNECTIONS is too large'')) (u32_try_from n)) (\<lambda>m.
     Ok (min 64 (max 1 (unat m)))))"

definition config_load ::
    "externs \<Rightarrow> (ustr \<Rightarrow> ustr option) \<Rightarrow> config_source \<Rightarrow> (app_error, config) outcome" where
  "config_load x parse_addr source =
     and_then (case source (lit ''OTDEL_ENV'') of
         Some value \<Rightarrow> runtime_env_parse value | None \<Rightarrow> Ok Local) (\<lambda>env.
     and_then (ok_or (ae_validation (lit ''OTDEL_BIND_ADDR must be an address like 127.0.0.1:18480''))
         (parse_addr (string_or source ''OTDEL_BIND_ADDR'' ''127.0.0.1:18480''))) (\<lambda>addr.
     and_then (required_secret source ''OTDEL_DATABASE_URL'') (\<lambda>url.
     and_then (load_admin_url source) (\<lambda>admin_url.
     and_then (load_password_hash x source) (\<lambda>password_hash.
     and_then (load_bureau_slug source) (\<lambda>slug.
     and_then (load_origins source) (\<lambda>origins.
     and_then (load_session_times source) (\<lambda>(ttl, idle).
     and_then (load_cookie env source) (\<lambda>(name, secure).
     and_then (load_max_upload source) (\<lambda>max_upload.
     and_then (load_throttle source) (\<lambda>throttle.
     and_then (load_max_connections source) (\<lambda>connections.
     Ok \<lparr>env_of = env, bind_addr = addr, database_url = url, database_admin_url = admin_url,
         database_max_connections = connections, bureau_slug = slug,
         owner_password_hash = password_hash,
         storage_root = string_or source ''OTDEL_STORAGE_ROOT'' ''.local/storage'',
         cors_allowed_origins = origins, session_ttl = ttl, session_idle_timeout = idle,
         cookie_name = name, cookie_secure = secure, max_upload_bytes = max_upload,
         login_throttle = throttle,
         log_filter = string_or source ''OTDEL_LOG'' ''info,otdel_api=info,sqlx=warn''\<rparr>))))))))))))"

definition require_admin_database_url :: "config \<Rightarrow> (app_error, ustr) outcome" where
  "require_admin_database_url c =
     ok_or (ae_validation (lit ''OTDEL_DATABASE_ADMIN_URL is required for migrations (migrations run as the ''
       @ lit ''owning role, never as the RLS-restricted runtime role)'')) (database_admin_url c)"

section \<open>What is printed of a configuration\<close>

text \<open>The fields \<^verbatim>\<open>Debug\<close> hands to the formatter, in order.\<close>

datatype debug_value =
    DebugStr ustr
  | DebugOption "ustr option"
  | DebugNat nat
  | DebugStrs "ustr list"
  | DebugBool bool
  | DebugThrottle throttle_config

definition redacted :: ustr where
  "redacted = lit ''<redacted>''"

definition config_debug :: "config \<Rightarrow> (ustr \<times> debug_value) list" where
  "config_debug c =
     [(lit ''env'', DebugStr (runtime_env_as_str (env_of c))),
      (lit ''bind_addr'', DebugStr (bind_addr c)),
      (lit ''database_url'', DebugStr redacted),
      (lit ''database_admin_url'', DebugOption (map_option (\<lambda>_. redacted) (database_admin_url c))),
      (lit ''database_max_connections'', DebugNat (database_max_connections c)),
      (lit ''bureau_slug'', DebugStr (bureau_slug c)),
      (lit ''owner_password_hash'', DebugStr redacted),
      (lit ''storage_root'', DebugStr (storage_root c)),
      (lit ''cors_allowed_origins'', DebugStrs (cors_allowed_origins c)),
      (lit ''session_ttl_seconds'', DebugNat (session_ttl c)),
      (lit ''session_idle_timeout_seconds'', DebugNat (session_idle_timeout c)),
      (lit ''cookie_name'', DebugStr (cookie_name c)),
      (lit ''cookie_secure'', DebugBool (cookie_secure c)),
      (lit ''max_upload_bytes'', DebugNat (unat (max_upload_bytes c))),
      (lit ''login_throttle'', DebugThrottle (login_throttle c)),
      (lit ''log_filter'', DebugStr (log_filter c))]"

end
