(* ===== verification/ConfigFacts.thy ===== *)
theory ConfigFacts
  imports Config
begin

text \<open>
  What the rest of the program may rely on in a configuration that was loaded, the defaults, and
  the redaction of secrets.
\<close>

section \<open>The groups of variables\<close>

lemma required_secret_Ok:
  "required_secret source key = Ok v \<longleftrightarrow> source (lit key) = Some v \<and> \<not> looks_like_placeholder v"
  by (auto simp: required_secret_def outcome_simps)

lemma load_admin_url_Ok:
  "load_admin_url source = Ok u \<Longrightarrow> u = None \<or> (\<exists>v. u = Some v \<and> \<not> looks_like_placeholder v)"
  by (auto simp: load_admin_url_def split: option.splits if_splits)

lemma load_password_hash_Ok:
  "load_password_hash x source = Ok h \<Longrightarrow> \<not> looks_like_placeholder h \<and> is_supported_password_hash x h"
  by (auto simp: load_password_hash_def outcome_simps required_secret_Ok split: if_splits)

lemma load_bureau_slug_Ok: "load_bureau_slug source = Ok s \<Longrightarrow> s \<noteq> [] \<and> list_all slug_char s"
  by (auto simp: load_bureau_slug_def Let_def split: if_splits)

lemma check_origins_Ok:
  "check_origins os = Ok () \<longleftrightarrow>
     list_all (\<lambda>o'. o' \<noteq> lit ''*'' \<and> (prefix (lit ''http://'') o' \<or> prefix (lit ''https://'') o')) os"
  by (induction os) auto

lemma load_origins_Ok:
  "load_origins source = Ok os \<Longrightarrow>
     list_all (\<lambda>o'. o' \<noteq> lit ''*'' \<and> (prefix (lit ''http://'') o' \<or> prefix (lit ''https://'') o')) os"
  by (auto simp: load_origins_def Let_def outcome_simps check_origins_Ok)

lemma load_session_times_Ok:
  "load_session_times source = Ok (ttl, idle) \<Longrightarrow> 60 \<le> idle \<and> idle \<le> ttl \<and> ttl \<le> 604800"
  by (auto simp: load_session_times_def outcome_simps SESSION_SECONDS_MIN_def SESSION_TTL_MAX_def
      split: if_splits)

lemma load_cookie_Ok:
  "load_cookie e source = Ok (name, secure) \<Longrightarrow>
     name \<noteq> [] \<and> list_all cookie_name_char name \<and> (e = Production \<longrightarrow> secure)"
  by (auto simp: load_cookie_def Let_def outcome_simps split: if_splits)

lemma load_max_upload_Ok: "load_max_upload source = Ok n \<Longrightarrow> 0 < unat n \<and> unat n \<le> 512 * 1024 * 1024"
proof -
  assume "load_max_upload source = Ok n"
  then have "n \<noteq> 0" "n \<le> 536870912"
    by (auto simp: load_max_upload_def outcome_simps split: if_splits)
  then have "unat n \<noteq> 0" "unat n \<le> unat (536870912 :: u64)"
    by (simp_all add: unat_eq_0 word_le_nat_alt)
  then show ?thesis by simp
qed

lemma load_throttle_Ok: "load_throttle source = Ok c \<Longrightarrow> 1 \<le> unat (max_failures c)"
proof -
  assume "load_throttle source = Ok c"
  then obtain f where "max_failures c = max f 1" by (auto simp: load_throttle_def outcome_simps)
  then have "1 \<le> max_failures c" by simp
  then show ?thesis by (simp add: word_le_nat_alt)
qed

lemma load_max_connections_Ok: "load_max_connections source = Ok n \<Longrightarrow> 1 \<le> n \<and> n \<le> 64"
  by (auto simp: load_max_connections_def outcome_simps)

text \<open>The promises a loaded configuration makes.\<close>

definition config_ok :: "externs \<Rightarrow> config \<Rightarrow> bool" where
  "config_ok x c \<longleftrightarrow>
     \<not> looks_like_placeholder (database_url c)
     \<and> (case database_admin_url c of None \<Rightarrow> True | Some u \<Rightarrow> \<not> looks_like_placeholder u)
     \<and> \<not> looks_like_placeholder (owner_password_hash c)
     \<and> is_supported_password_hash x (owner_password_hash c)
     \<and> bureau_slug c \<noteq> [] \<and> list_all slug_char (bureau_slug c)
     \<and> list_all (\<lambda>o'. o' \<noteq> lit ''*'' \<and> (prefix (lit ''http://'') o' \<or> prefix (lit ''https://'') o'))
         (cors_allowed_origins c)
     \<and> 60 \<le> session_idle_timeout c \<and> session_idle_timeout c \<le> session_ttl c \<and> session_ttl c \<le> 604800
     \<and> cookie_name c \<noteq> [] \<and> list_all cookie_name_char (cookie_name c)
     \<and> (env_of c = Production \<longrightarrow> cookie_secure c)
     \<and> 0 < unat (max_upload_bytes c) \<and> unat (max_upload_bytes c) \<le> 512 * 1024 * 1024
     \<and> 1 \<le> unat (max_failures (login_throttle c))
     \<and> 1 \<le> database_max_connections c \<and> database_max_connections c \<le> 64"

lemma config_parts:
  assumes "config_load x parse_addr source = Ok c"
  shows "required_secret source ''OTDEL_DATABASE_URL'' = Ok (database_url c)
    \<and> load_admin_url source = Ok (database_admin_url c)
    \<and> load_password_hash x source = Ok (owner_password_hash c)
    \<and> load_bureau_slug source = Ok (bureau_slug c)
    \<and> load_origins source = Ok (cors_allowed_origins c)
    \<and> load_session_times source = Ok (session_ttl c, session_idle_timeout c)
    \<and> load_cookie (env_of c) source = Ok (cookie_name c, cookie_secure c)
    \<and> load_max_upload source = Ok (max_upload_bytes c)
    \<and> load_throttle source = Ok (login_throttle c)
    \<and> load_max_connections source = Ok (database_max_connections c)"
  using assms unfolding config_load_def
  apply (elim and_then_OkE)
  apply (simp only: split_paired_all prod.case)
  apply (elim and_then_OkE)
  apply (simp only: split_paired_all prod.case)
  apply (elim and_then_OkE)
  apply (drule outcome.inject [THEN iffD1, THEN sym])
  apply (simp (no_asm_simp) only: config.simps simp_thms)
  done

lemma config_load_ok:
  assumes "config_load x parse_addr source = Ok c"
  shows "config_ok x c"
proof -
  note parts = config_parts [OF assms]
  from parts have "\<not> looks_like_placeholder (database_url c)" by (simp add: required_secret_Ok)
  moreover from parts have "case database_admin_url c of None \<Rightarrow> True | Some u \<Rightarrow> \<not> looks_like_placeholder u"
    by (auto dest!: load_admin_url_Ok)
  ultimately show ?thesis
    using parts load_password_hash_Ok load_bureau_slug_Ok load_origins_Ok load_session_times_Ok load_cookie_Ok
      load_max_upload_Ok load_throttle_Ok load_max_connections_Ok
    unfolding config_ok_def by blast
qed

text \<open>
  C36: The server only starts with a configuration it can work with. A configuration that loads has no
  placeholder secret, an Argon2 password hash, explicit origins (never a wildcard), session times
  within what the database functions accept, secure cookies in production, a positive bounded
  upload limit, and at least one sign-in attempt and one connection.
\<close>

theorem config_load_checked:
  assumes "config_load x parse_addr source = Ok c"
  shows "config_ok x c"
  using assms by (rule config_load_ok)

definition sample_source :: config_source where
  "sample_source = (\<lambda>k.
     if k = lit ''OTDEL_DATABASE_URL'' then Some (lit ''postgres://otdel_app@127.0.0.1:58432/otdel'')
     else if k = lit ''OTDEL_OWNER_PASSWORD_HASH'' then Some (lit ''$argon2id$pw'')
     else None)"

definition sample_config :: config where
  "sample_config =
     \<lparr>env_of = Local, bind_addr = lit ''127.0.0.1:18480'',
      database_url = lit ''postgres://otdel_app@127.0.0.1:58432/otdel'', database_admin_url = None,
      database_max_connections = 8, bureau_slug = lit ''local'',
      owner_password_hash = lit ''$argon2id$pw'', storage_root = lit ''.local/storage'',
      cors_allowed_origins = [lit ''http://127.0.0.1:15173'', lit ''http://localhost:15173''],
      session_ttl = 43200, session_idle_timeout = 7200, cookie_name = lit ''otdel_session'',
      cookie_secure = False, max_upload_bytes = 26214400,
      login_throttle = \<lparr>max_failures = 10, window = 900 * 10 ^ 9, lockout = 900 * 10 ^ 9\<rparr>,
      log_filter = lit ''info,otdel_api=info,sqlx=warn''\<rparr>"

lemma sample_config_loads: "config_load sample_externs Some sample_source = Ok sample_config"
  by code_simp

theorem config_load_checked_witness: "config_ok sample_externs sample_config"
  by (rule config_load_checked [OF sample_config_loads])

text \<open>
  Secrets never reach the log. What is printed of a configuration does not depend on the database
  URL, on the password hash, nor on the admin URL beyond whether there is one.
\<close>

theorem config_debug_redacts:
  "config_debug (c\<lparr>database_url := u, owner_password_hash := h, database_admin_url := map_option f (database_admin_url c)\<rparr>)
    = config_debug c"
  by (cases "database_admin_url c") (simp_all add: config_debug_def)

end
