(* ===== verification/Cookie.thy ===== *)
theory Cookie
  imports RustBase
begin

text \<open>
  \<^verbatim>\<open>crates/otdel-api/src/cookie.rs\<close>: the \<^verbatim>\<open>Set-Cookie\<close> values of the session and the reader of
  the \<^verbatim>\<open>Cookie\<close> header. Code points: 59 semicolon, 61 equals sign, 32 space.
\<close>

definition session_cookie :: "ustr \<Rightarrow> ustr \<Rightarrow> nat \<Rightarrow> bool \<Rightarrow> ustr" where
  "session_cookie name token max_age_seconds secure =
     name @ lit ''='' @ token @ lit ''; Path=/; HttpOnly; SameSite=Strict; Max-Age=''
       @ dec max_age_seconds @ (if secure then lit ''; Secure'' else [])"

definition cleared_cookie :: "ustr \<Rightarrow> bool \<Rightarrow> ustr" where
  "cleared_cookie name secure =
     name @ lit ''=; Path=/; HttpOnly; SameSite=Strict; Max-Age=0''
       @ (if secure then lit ''; Secure'' else [])"

definition read_pair :: "ustr \<Rightarrow> ustr \<Rightarrow> ustr option" where
  "read_pair name pair =
     (case split_once 61 pair of
        None \<Rightarrow> None
      | Some (key, value) \<Rightarrow> if trim key = name then Some (trim value) else None)"

definition read_cookie :: "ustr \<Rightarrow> ustr \<Rightarrow> ustr option" where
  "read_cookie header name = find_map (read_pair name) (split_on 59 header)"

section \<open>Reading back what a browser sends\<close>

text \<open>A browser sends the pairs as \<open>k=v\<close> joined by a semicolon and a space.\<close>

definition cookie_word :: "ustr \<Rightarrow> bool" where
  "cookie_word s \<longleftrightarrow> (\<forall>c\<in>set s. \<not> is_whitespace c \<and> c \<noteq> 59 \<and> c \<noteq> 61)"

definition cookie_value :: "ustr \<Rightarrow> bool" where
  "cookie_value s \<longleftrightarrow> (\<forall>c\<in>set s. \<not> is_whitespace c \<and> c \<noteq> 59)"

definition cookie_header :: "(ustr \<times> ustr) list \<Rightarrow> ustr" where
  "cookie_header pairs = str_join (lit ''; '') (map (\<lambda>(k, v). k @ [61] @ v) pairs)"

lemma trim_no_space: "(\<forall>c\<in>set s. \<not> is_whitespace c) \<Longrightarrow> trim s = s"
  unfolding trim_def by (rule trim_by_fixes) auto

lemma trim_leading_space: "trim (32 # s) = trim s"
  by (simp add: trim_def trim_by_def is_whitespace_def)

lemma read_pair_match:
  assumes "cookie_word k" "cookie_value v" "sp \<in> {[], [32]}"
  shows "read_pair n (sp @ k @ [61] @ v) = (if k = n then Some v else None)"
proof -
  have k: "61 \<notin> set (sp @ k)" "trim k = k" "trim v = v"
    using assms by (auto simp: cookie_word_def cookie_value_def intro!: trim_no_space)
  have "split_once 61 ((sp @ k) @ 61 # v) = Some (sp @ k, v)"
    unfolding split_once_Some using k by blast
  moreover have "trim (sp @ k) = k" using assms(3) k by (auto simp: trim_leading_space)
  ultimately show ?thesis using k by (simp add: read_pair_def)
qed

lemma semicolon_space: "lit ''; '' = [59, 32]"
  by (simp add: lit_def)

lemma read_cookie_Cons:
  assumes "cookie_word k" "cookie_value v" "pairs \<noteq> []" "sp \<in> {[], [32]}"
  shows "read_cookie (sp @ cookie_header ((k, v) # pairs)) n =
    (if k = n then Some v else read_cookie ([32] @ cookie_header pairs) n)"
proof -
  have "59 \<notin> set (sp @ k @ [61] @ v)"
    using assms by (auto simp: cookie_word_def cookie_value_def)
  then have "split_on 59 ((sp @ k @ [61] @ v) @ 59 # ([32] @ cookie_header pairs))
      = (sp @ k @ [61] @ v) # split_on 59 ([32] @ cookie_header pairs)"
    by (rule split_on_append)
  moreover have "sp @ cookie_header ((k, v) # pairs)
      = (sp @ k @ [61] @ v) @ 59 # ([32] @ cookie_header pairs)"
    using assms(3) by (simp add: cookie_header_def str_join_Cons semicolon_space)
  moreover have "read_pair n (sp @ k @ [61] @ v) = (if k = n then Some v else None)"
    using assms by (intro read_pair_match)
  ultimately show ?thesis
    by (cases "k = n")
       (simp_all only: read_cookie_def find_map.simps option.case if_True if_False simp_thms)
qed

lemma read_cookie_single:
  assumes "cookie_word k" "cookie_value v" "sp \<in> {[], [32]}"
  shows "read_cookie (sp @ cookie_header [(k, v)]) n = (if k = n then Some v else None)"
proof -
  have "59 \<notin> set (sp @ k @ [61] @ v)"
    using assms by (auto simp: cookie_word_def cookie_value_def)
  then have "split_on 59 (sp @ k @ [61] @ v) = [sp @ k @ [61] @ v]" by (rule split_on_clean)
  then show ?thesis
    using read_pair_match [OF assms, of n] by (simp add: read_cookie_def cookie_header_def)
qed

lemma read_cookie_header_aux:
  "sp \<in> {[], [32]} \<Longrightarrow> pairs \<noteq> [] \<Longrightarrow> (\<forall>(k, v)\<in>set pairs. cookie_word k \<and> cookie_value v)
    \<Longrightarrow> read_cookie (sp @ cookie_header pairs) n = map_of pairs n"
proof (induction pairs arbitrary: sp)
  case (Cons kv pairs)
  obtain k v where kv: "kv = (k, v)" by (cases kv)
  with Cons.prems have ok: "cookie_word k" "cookie_value v" by auto
  show ?case
  proof (cases "pairs = []")
    case True
    with Cons.prems ok kv show ?thesis by (simp add: read_cookie_single)
  next
    case False
    have "read_cookie ([32] @ cookie_header pairs) n = map_of pairs n"
      using Cons.prems False by (intro Cons.IH) auto
    then show ?thesis using Cons.prems ok kv False by (simp add: read_cookie_Cons)
  qed
qed simp

end
