(* ===== verification/DbSessions.thy ===== *)
theory DbSessions
  imports Db
begin

text \<open>
  Sessions: the \<^verbatim>\<open>SECURITY DEFINER\<close> functions of \<^verbatim>\<open>migrations/0001_schema.sql\<close> and their
  callers in \<^verbatim>\<open>crates/otdel-db/src/sessions.rs\<close>. The functions run as the owner of the table,
  to whom row-level security does not apply.
\<close>

record session_record =
  sess_session_id :: uuid
  sess_bureau_id :: uuid
  sess_csrf_token :: ustr
  sess_expires_at :: timestamp

definition record_from_row :: "session_row \<Rightarrow> session_record" where
  "record_from_row r =
     \<lparr>sess_session_id = sr_id r, sess_bureau_id = sr_bureau_id r,
      sess_csrf_token = sr_csrf_token r, sess_expires_at = sr_expires_at r\<rparr>"

definition raised :: sql_error where
  "raised = SqlDatabase (lit ''P0001'') None"

definition seconds :: "int \<Rightarrow> timestamp" where
  "seconds n = n * 1000000"

definition put_sessions :: "session_row list \<Rightarrow> db \<Rightarrow> db" where
  "put_sessions rows d = d\<lparr>db_tables := (db_tables d)\<lparr>sessions := rows\<rparr>\<rparr>"

definition db_sessions :: "db \<Rightarrow> session_row list" where
  "db_sessions d = sessions (db_tables d)"

definition sql_session_open ::
    "ustr \<Rightarrow> ustr \<Rightarrow> ustr \<Rightarrow> int \<Rightarrow> (db, sql_error, session_row) stateful" where
  "sql_session_open slug fingerprint csrf ttl d =
     (if \<not> pg_text slug \<or> \<not> pg_text fingerprint \<or> \<not> pg_text csrf then (Err bad_text, d)
      else if ttl < 60 \<or> ttl > 604800 then (Err raised, d)
      else
        (case find (\<lambda>b. br_slug b = slug) (bureaus (db_tables d)) of
           None \<Rightarrow> (Err raised, d)
         | Some b \<Rightarrow>
             (case gen_random_uuid d of (u, d) \<Rightarrow>
               let r = \<lparr>sr_id = u, sr_bureau_id = br_id b, sr_token_fingerprint = fingerprint,
                        sr_csrf_token = csrf, sr_created_at = db_now d, sr_last_seen_at = db_now d,
                        sr_expires_at = db_now d + seconds ttl\<rparr>
               in if \<not> session_check r then (Err check_violated, d)
                  else if u \<in> set (map sr_id (db_sessions d))
                    \<or> fingerprint \<in> set (map sr_token_fingerprint (db_sessions d)) then
                    (Err unique_violated, d)
                  else (Ok r, put_sessions (db_sessions d @ [r]) d))))"

definition session_live :: "int \<Rightarrow> timestamp \<Rightarrow> session_row \<Rightarrow> bool" where
  "session_live idle now r \<longleftrightarrow> sr_expires_at r > now \<and> sr_last_seen_at r > now - seconds idle"

definition sql_session_touch :: "ustr \<Rightarrow> int \<Rightarrow> (db, sql_error, session_row option) stateful" where
  "sql_session_touch fingerprint idle d =
     (if \<not> pg_text fingerprint then (Err bad_text, d)
      else if idle < 60 then (Err raised, d)
      else
        let hit = (\<lambda>r. sr_token_fingerprint r = fingerprint \<and> session_live idle (db_now d) r)
        in (Ok (map_option (\<lambda>r. r\<lparr>sr_last_seen_at := db_now d\<rparr>) (find hit (db_sessions d))),
            put_sessions (map (\<lambda>r. if hit r then r\<lparr>sr_last_seen_at := db_now d\<rparr> else r)
              (db_sessions d)) d))"

definition sql_bureau_id_by_slug :: "ustr \<Rightarrow> (db, sql_error, uuid option) stateful" where
  "sql_bureau_id_by_slug slug d =
     (if \<not> pg_text slug then (Err bad_text, d)
      else (Ok (map_option br_id (find (\<lambda>b. br_slug b = slug) (bureaus (db_tables d)))), d))"

definition sql_session_close :: "ustr \<Rightarrow> (db, sql_error, int) stateful" where
  "sql_session_close fingerprint d =
     (if \<not> pg_text fingerprint then (Err bad_text, d)
      else
        (Ok (int (length (filter (\<lambda>r. sr_token_fingerprint r = fingerprint) (db_sessions d)))),
         put_sessions (filter (\<lambda>r. sr_token_fingerprint r \<noteq> fingerprint) (db_sessions d)) d))"

definition sql_session_purge_expired :: "int \<Rightarrow> (db, sql_error, int) stateful" where
  "sql_session_purge_expired idle d =
     (if idle < 60 then (Err raised, d)
      else
        let dead = (\<lambda>r. sr_expires_at r \<le> db_now d \<or> sr_last_seen_at r \<le> db_now d - seconds idle)
        in (Ok (int (length (filter dead (db_sessions d)))),
            put_sessions (filter (\<lambda>r. \<not> dead r) (db_sessions d)) d))"

definition sessions_open ::
    "ustr \<Rightarrow> ustr \<Rightarrow> ustr \<Rightarrow> int \<Rightarrow> (db, db_error, session_record) stateful" where
  "sessions_open slug fingerprint csrf ttl =
     st_then (auto_statement (sql_session_open slug fingerprint csrf ttl)) (\<lambda>r.
       st_ok (record_from_row r))"

definition sessions_touch :: "ustr \<Rightarrow> int \<Rightarrow> (db, db_error, session_record option) stateful" where
  "sessions_touch fingerprint idle =
     st_then (auto_statement (sql_session_touch fingerprint idle)) (\<lambda>r.
       st_ok (map_option record_from_row r))"

definition sessions_close :: "ustr \<Rightarrow> (db, db_error, bool) stateful" where
  "sessions_close fingerprint =
     st_then (auto_statement (sql_session_close fingerprint)) (\<lambda>removed. st_ok (removed > 0))"

definition sessions_purge_expired :: "int \<Rightarrow> (db, db_error, int) stateful" where
  "sessions_purge_expired idle = auto_statement (sql_session_purge_expired idle)"

definition bureau_id_by_slug :: "ustr \<Rightarrow> (db, db_error, uuid option) stateful" where
  "bureau_id_by_slug slug = auto_statement (sql_bureau_id_by_slug slug)"

section \<open>The life of a session\<close>

lemma sessions_put [simp]:
  "db_sessions (put_sessions rows d) = rows" "db_now (put_sessions rows d) = db_now d"
  "db_faults (put_sessions rows d) = db_faults d"
  "bureaus (db_tables (put_sessions rows d)) = bureaus (db_tables d)"
  by (simp_all add: db_sessions_def put_sessions_def)

lemma next_db_fault_fields:
  "next_db_fault d = (f, d') \<Longrightarrow> db_tables d' = db_tables d \<and> db_now d' = db_now d
    \<and> db_gen d' = db_gen d \<and> db_gen_next d' = db_gen_next d"
  by (auto simp: next_db_fault_def split: list.splits)

lemma db_sessions_next_fault: "next_db_fault d = (f, d') \<Longrightarrow> db_sessions d' = db_sessions d"
  by (simp add: db_sessions_def next_db_fault_fields)

lemma auto_statement_Ok:
  "auto_statement q d = (Ok a, d') \<Longrightarrow> \<exists>d1. q d1 = (Ok a, d') \<and> db_tables d1 = db_tables d
     \<and> db_now d1 = db_now d"
  by (auto simp: auto_statement_def dest!: next_db_fault_fields
      split: prod.splits db_fault.splits outcome.splits)


lemma sql_session_now [simp]:
  "db_now (snd (sql_session_open slug fp csrf ttl d)) = db_now d"
  "db_now (snd (sql_session_touch fp idle d)) = db_now d"
  "db_now (snd (sql_session_close fp d)) = db_now d"
  "db_now (snd (sql_session_purge_expired idle d)) = db_now d"
  by (auto simp: sql_session_open_def sql_session_touch_def sql_session_close_def
      sql_session_purge_expired_def gen_random_uuid_def Let_def split: option.splits)

lemma auto_statement_cases:
  assumes "auto_statement q d = (r, d')" and now: "\<And>d1. db_now (snd (q d1)) = db_now d1"
  obtains (done_) d1 a where "q d1 = (Ok a, d')" "db_sessions d1 = db_sessions d" "db_now d1 = db_now d"
      "r = Ok a \<or> (\<exists>e. r = Err e)"
  | (unchanged) "db_sessions d' = db_sessions d" "db_now d' = db_now d" "\<forall>a. r \<noteq> Ok a"
proof -
  obtain f d1 where f: "next_db_fault d = (f, d1)" by fastforce
  obtain r1 d2 where q: "q d1 = (r1, d2)" by fastforce
  have d2: "db_now d2 = db_now d1" using now [of d1] q by simp
  note d1 = next_db_fault_fields [OF f]
  show ?thesis
  proof (cases "f \<noteq> DbFine \<and> (\<nexists>e. f = DbFailAfter e) \<or> (\<nexists>a. r1 = Ok a)")
    case True
    then have "db_sessions d' = db_sessions d \<and> db_now d' = db_now d \<and> (\<forall>a. r \<noteq> Ok a)"
      using assms(1) f q d1 d2
      by (auto simp: auto_statement_def db_sessions_def split: db_fault.splits outcome.splits)
    then show ?thesis using unchanged by blast
  next
    case False
    then obtain a where "r1 = Ok a" by auto
    with False assms(1) f q have "d' = d2 \<and> (r = Ok a \<or> (\<exists>e. r = Err e))"
      by (auto simp: auto_statement_def split: db_fault.splits)
    with q \<open>r1 = Ok a\<close> d1 show ?thesis by (intro done_ [of d1 a]) (auto simp: db_sessions_def)
  qed
qed

text \<open>What a statement may do to the sessions at the time \<open>now\<close>, with the idle timeout \<open>idle\<close>.\<close>

definition touched_rows :: "ustr \<Rightarrow> int \<Rightarrow> timestamp \<Rightarrow> session_row list \<Rightarrow> session_row list" where
  "touched_rows fp idle now rows =
     map (\<lambda>r. if sr_token_fingerprint r = fp \<and> session_live idle now r then r\<lparr>sr_last_seen_at := now\<rparr> else r) rows"

lemma touch_rows:
  "sql_session_touch fp idle d = (Ok r, d') \<Longrightarrow>
     db_sessions d' = touched_rows fp idle (db_now d) (db_sessions d) \<and> db_now d' = db_now d"
  by (auto simp: sql_session_touch_def touched_rows_def Let_def split: if_splits)

lemma close_rows:
  "sql_session_close fp d = (Ok n, d') \<Longrightarrow>
     db_sessions d' = filter (\<lambda>r. sr_token_fingerprint r \<noteq> fp) (db_sessions d) \<and> db_now d' = db_now d
     \<and> n = int (length (filter (\<lambda>r. sr_token_fingerprint r = fp) (db_sessions d)))"
  by (auto simp: sql_session_close_def split: if_splits)

lemma purge_rows:
  "sql_session_purge_expired idle d = (Ok n, d') \<Longrightarrow>
     db_sessions d' = filter (session_live idle (db_now d)) (db_sessions d) \<and> db_now d' = db_now d
     \<and> n = int (length (filter (\<lambda>r. \<not> session_live idle (db_now d) r) (db_sessions d)))"
  by (auto simp: sql_session_purge_expired_def session_live_def Let_def not_le not_less
      split: if_splits intro!: filter_cong arg_cong [where f = length])

lemma open_rows:
  assumes "sql_session_open slug fp csrf ttl d = (Ok r, d')"
  shows "db_sessions d' = db_sessions d @ [r] \<and> sr_token_fingerprint r = fp
     \<and> fp \<notin> sr_token_fingerprint ` set (db_sessions d)
     \<and> sr_created_at r = db_now d \<and> sr_last_seen_at r = db_now d
     \<and> sr_expires_at r = db_now d + seconds ttl \<and> 60 \<le> ttl \<and> ttl \<le> 604800
     \<and> sr_csrf_token r = csrf \<and> db_now d' = db_now d
     \<and> (\<exists>b\<in>set (bureaus (db_tables d)). br_slug b = slug \<and> sr_bureau_id r = br_id b)"
proof -
  from assms obtain b where b: "find (\<lambda>b. br_slug b = slug) (bureaus (db_tables d)) = Some b"
    by (auto simp: sql_session_open_def split: if_splits option.splits)
  from find_SomeD [OF b] assms b show ?thesis
    by (auto simp: sql_session_open_def gen_random_uuid_def Let_def put_sessions_def db_sessions_def
        split: if_splits)
qed

section \<open>Sessions over time\<close>

text \<open>
  The steps of the server and of the worker that reach the sessions, with one configured idle
  timeout, and the passing of time; any other step leaves the sessions alone. The label is the
  fingerprint of the token that a step issues.
\<close>

inductive session_step :: "int \<Rightarrow> ustr option \<Rightarrow> db \<Rightarrow> db \<Rightarrow> bool" for idle where
  opened: "sessions_open slug fp csrf ttl d = (r, d') \<Longrightarrow> session_step idle (Some fp) d d'"
| touched: "sessions_touch fp idle d = (r, d') \<Longrightarrow> session_step idle None d d'"
| closed: "sessions_close fp d = (r, d') \<Longrightarrow> session_step idle None d d'"
| purged: "sessions_purge_expired idle d = (r, d') \<Longrightarrow> session_step idle None d d'"
| other: "db_sessions d' = db_sessions d \<Longrightarrow> db_now d \<le> db_now d' \<Longrightarrow> session_step idle None d d'"

inductive_cases session_step_labelled: "session_step idle (Some fp) d d'"
inductive_cases session_step_silent: "session_step idle None d d'"

definition usable :: "int \<Rightarrow> ustr \<Rightarrow> db \<Rightarrow> bool" where
  "usable idle fp d \<longleftrightarrow>
     (\<exists>r\<in>set (db_sessions d). sr_token_fingerprint r = fp \<and> session_live idle (db_now d) r)"

text \<open>The steps that issue no token with the fingerprint \<open>fp\<close>.\<close>

definition step_without :: "int \<Rightarrow> ustr \<Rightarrow> db \<Rightarrow> db \<Rightarrow> bool" where
  "step_without idle fp d d' \<longleftrightarrow> (\<exists>l. l \<noteq> Some fp \<and> session_step idle l d d')"


definition carried_over :: "int \<Rightarrow> timestamp \<Rightarrow> session_row \<Rightarrow> session_row \<Rightarrow> bool" where
  "carried_over idle now r r' \<longleftrightarrow>
     r' = r \<or> (session_live idle now r \<and> r' = r\<lparr>sr_last_seen_at := now\<rparr>)"

definition freshly_opened :: "timestamp \<Rightarrow> session_row \<Rightarrow> bool" where
  "freshly_opened now r \<longleftrightarrow> sr_created_at r = now \<and> sr_last_seen_at r = now
     \<and> now + seconds 60 \<le> sr_expires_at r \<and> sr_expires_at r \<le> now + seconds 604800"

lemma seconds_mono: "a \<le> b \<Longrightarrow> seconds a \<le> seconds b"
  by (simp add: seconds_def)

lemma session_step_rows:
  assumes "session_step idle l d d'"
  shows "db_now d \<le> db_now d' \<and> (\<forall>r'\<in>set (db_sessions d').
     (\<exists>r\<in>set (db_sessions d). carried_over idle (db_now d) r r')
     \<or> (l = Some (sr_token_fingerprint r') \<and> freshly_opened (db_now d) r'))"
  using assms
proof cases
  case (opened slug fp csrf ttl r)
  from opened(2) obtain r0 where "auto_statement (sql_session_open slug fp csrf ttl) d = (r0, d')"
    by (cases "auto_statement (sql_session_open slug fp csrf ttl) d" rule: prod.exhaust)
       (auto simp: sessions_open_def st_then_def st_ok_def split: outcome.splits)
  then show ?thesis
  proof (cases rule: auto_statement_cases [OF _ sql_session_now(1), consumes 1, case_names done_ unchanged])
    case (done_ d1 a)
    with open_rows [OF done_(1)] opened(1) show ?thesis
      by (auto simp: carried_over_def freshly_opened_def intro!: seconds_mono)
  qed (auto simp: carried_over_def)
next
  case (touched fp r)
  from touched(2) obtain r0 where "auto_statement (sql_session_touch fp idle) d = (r0, d')"
    by (cases "auto_statement (sql_session_touch fp idle) d" rule: prod.exhaust)
       (auto simp: sessions_touch_def st_then_def st_ok_def split: outcome.splits)
  then show ?thesis
  proof (cases rule: auto_statement_cases [OF _ sql_session_now(2), consumes 1, case_names done_ unchanged])
    case (done_ d1 a)
    with touch_rows [OF done_(1)] show ?thesis
      by (auto simp: carried_over_def touched_rows_def)
  qed (auto simp: carried_over_def)
next
  case (closed fp r)
  from closed(2) obtain r0 where "auto_statement (sql_session_close fp) d = (r0, d')"
    by (cases "auto_statement (sql_session_close fp) d" rule: prod.exhaust)
       (auto simp: sessions_close_def st_then_def st_ok_def split: outcome.splits)
  then show ?thesis
  proof (cases rule: auto_statement_cases [OF _ sql_session_now(3), consumes 1, case_names done_ unchanged])
    case (done_ d1 a)
    with close_rows [OF done_(1)] show ?thesis by (auto simp: carried_over_def)
  qed (auto simp: carried_over_def)
next
  case (purged r)
  from purged(2) show ?thesis unfolding sessions_purge_expired_def
  proof (cases rule: auto_statement_cases [OF _ sql_session_now(4), consumes 1, case_names done_ unchanged])
    case (done_ d1 a)
    with purge_rows [OF done_(1)] show ?thesis by (auto simp: carried_over_def)
  qed (auto simp: carried_over_def)
qed (auto simp: carried_over_def)

lemma carried_over_fields:
  "carried_over idle now r r' \<Longrightarrow> sr_token_fingerprint r' = sr_token_fingerprint r
     \<and> sr_created_at r' = sr_created_at r \<and> sr_expires_at r' = sr_expires_at r
     \<and> sr_bureau_id r' = sr_bureau_id r \<and> sr_csrf_token r' = sr_csrf_token r"
  by (auto simp: carried_over_def)

lemma carried_over_dead:
  "carried_over idle now r r' \<Longrightarrow> session_live idle later r' \<Longrightarrow> now \<le> later \<Longrightarrow> session_live idle now r"
  by (auto simp: carried_over_def session_live_def)

lemma dead_stays_dead:
  assumes "step_without idle fp d d'" "\<not> usable idle fp d"
  shows "\<not> usable idle fp d'"
proof
  from assms(1) obtain l where l: "l \<noteq> Some fp" "session_step idle l d d'" by (auto simp: step_without_def)
  assume "usable idle fp d'"
  then obtain r' where r': "r' \<in> set (db_sessions d')" "sr_token_fingerprint r' = fp"
      "session_live idle (db_now d') r'"
    by (auto simp: usable_def)
  with session_step_rows [OF l(2)] l(1) obtain r where "r \<in> set (db_sessions d)"
      and c: "carried_over idle (db_now d) r r'" and "db_now d \<le> db_now d'"
    by blast
  moreover have "session_live idle (db_now d) r" by (rule carried_over_dead [OF c r'(3)]) fact
  moreover have "sr_token_fingerprint r = fp" using carried_over_fields [OF c] r'(2) by simp
  ultimately show False using assms(2) by (auto simp: usable_def)
qed

lemma dead_for_good:
  assumes "(step_without idle fp)\<^sup>*\<^sup>* d d'" "\<not> usable idle fp d"
  shows "\<not> usable idle fp d'"
  using assms by (induction rule: rtranclp_induct) (auto dest: dead_stays_dead)

text \<open>Sessions in a database whose sessions were all opened by these steps.\<close>

definition session_ages_ok :: "db \<Rightarrow> bool" where
  "session_ages_ok d \<longleftrightarrow> list_all (\<lambda>r. sr_created_at r \<le> db_now d
     \<and> sr_expires_at r \<le> sr_created_at r + seconds 604800) (db_sessions d)"

lemma session_ages_step: "session_step idle l d d' \<Longrightarrow> session_ages_ok d \<Longrightarrow> session_ages_ok d'"
  by (fastforce simp: session_ages_ok_def list_all_iff freshly_opened_def
      dest: session_step_rows carried_over_fields)

lemma record_from_touched [simp]: "record_from_row (r\<lparr>sr_last_seen_at := now\<rparr>) = record_from_row r"
  by (simp add: record_from_row_def)

lemma touch_Ok_cases:
  assumes "sessions_touch fp idle d = (Ok res, d')"
  shows "60 \<le> idle \<and> db_now d' = db_now d
    \<and> db_sessions d' = touched_rows fp idle (db_now d) (db_sessions d)
    \<and> res = map_option record_from_row
        (find (\<lambda>r. sr_token_fingerprint r = fp \<and> session_live idle (db_now d) r) (db_sessions d))"
proof -
  from assms obtain x where x: "auto_statement (sql_session_touch fp idle) d = (Ok x, d')"
      "res = map_option record_from_row x"
    by (auto simp: sessions_touch_def outcome_simps)
  from auto_statement_Ok [OF x(1)] obtain d1 where
    d1: "sql_session_touch fp idle d1 = (Ok x, d')" "db_tables d1 = db_tables d" "db_now d1 = db_now d"
    by blast
  then have "db_sessions d1 = db_sessions d" by (simp add: db_sessions_def)
  with d1 x(2) touch_rows [OF d1(1)] show ?thesis
    by (auto simp: sql_session_touch_def Let_def option.map_comp comp_def split: if_splits)
qed

end
