(* ===== verification/Auth.thy ===== *)
theory Auth
  imports ApiErrors ConfigFacts Cookie DbSessions
begin

text \<open>
  \<^verbatim>\<open>crates/otdel-api/src/auth/mod.rs\<close>: the session extractor every route with tenant data goes
  through, the CSRF and origin checks and the key of the login throttle.

  A request's header is what the \<^verbatim>\<open>http\<close> crate makes of it: absent, present but not readable as
  text, or a text.
\<close>

datatype http_method = GET | HEAD | OPTIONS | POST | PATCH | DELETE | OtherMethod ustr

datatype header = Absent | Unreadable | HeaderText ustr

record request =
  rq_method :: http_method
  rq_headers :: "ustr \<Rightarrow> header"
  rq_peer_ip :: "ustr option"

text \<open>\<^verbatim>\<open>headers.get(name).and_then(|value| value.to_str().ok())\<close>.\<close>

definition header_str :: "request \<Rightarrow> string \<Rightarrow> ustr option" where
  "header_str rq name =
     (case rq_headers rq (lit name) of HeaderText s \<Rightarrow> Some s | _ \<Rightarrow> None)"

record session =
  session_id :: uuid
  session_bureau_id :: uuid
  session_csrf_token :: ustr
  session_expires_at :: timestamp

definition changes_state :: "http_method \<Rightarrow> bool" where
  "changes_state m = (case m of GET \<Rightarrow> False | HEAD \<Rightarrow> False | OPTIONS \<Rightarrow> False | _ \<Rightarrow> True)"

definition check_csrf :: "externs \<Rightarrow> request \<Rightarrow> ustr \<Rightarrow> (api_error, unit) outcome" where
  "check_csrf x rq expected =
     (let provided = (case header_str rq ''x-csrf-token'' of Some s \<Rightarrow> s | None \<Rightarrow> [])
      in if provided = [] then
           Err (api_error_new (app_error_new InvalidCsrfToken
             (lit ''X-CSRF-Token header is required for this request'')))
         else if \<not> tokens_match x expected provided then
           Err (api_error_new (app_error_new InvalidCsrfToken
             (lit ''X-CSRF-Token does not match this session'')))
         else Ok ())"

definition check_origin :: "request \<Rightarrow> config \<Rightarrow> (api_error, unit) outcome" where
  "check_origin rq c =
     (case header_str rq ''origin'' of
        None \<Rightarrow> Ok ()
      | Some origin \<Rightarrow>
          if list_ex (\<lambda>allowed. allowed = origin) (cors_allowed_origins c) then Ok ()
          else Err (api_error_new (ae_forbidden (lit ''this request origin is not allowed''))))"

definition session_token :: "config \<Rightarrow> request \<Rightarrow> ustr option" where
  "session_token c rq = Option.bind (header_str rq ''cookie'') (\<lambda>h. read_cookie h (cookie_name c))"

text \<open>\<^verbatim>\<open>i32::try_from\<close> of a number of seconds.\<close>

definition i32_try_from :: "nat \<Rightarrow> int option" where
  "i32_try_from n = (if n < 2 ^ 31 then Some (int n) else None)"

definition session_extract ::
    "externs \<Rightarrow> config \<Rightarrow> request \<Rightarrow> (db, api_error, session) stateful" where
  "session_extract x c rq =
     st_then (st_lift (ok_or api_unauthorized
        (Option.bind (session_token c rq) (\<lambda>t. if t \<noteq> [] then Some t else None)))) (\<lambda>token.
     let fingerprint = token_fingerprint x token in
     st_then (st_lift (ok_or (api_error_new (ae_internal (lit ''internal server error'')))
        (i32_try_from (session_idle_timeout c)))) (\<lambda>idle_timeout.
     st_then (st_map_err api_of_db (sessions_touch fingerprint idle_timeout)) (\<lambda>touched.
     st_then (st_lift (ok_or api_unauthorized touched)) (\<lambda>rec.
     st_then (if changes_state (rq_method rq)
              then st_lift (and_then (check_origin rq c) (\<lambda>_. check_csrf x rq (sess_csrf_token rec)))
              else st_ok ()) (\<lambda>_.
     st_ok \<lparr>session_id = sess_session_id rec, session_bureau_id = sess_bureau_id rec,
            session_csrf_token = sess_csrf_token rec,
            session_expires_at = sess_expires_at rec\<rparr>)))))"

definition client_key :: "request \<Rightarrow> ustr" where
  "client_key rq = (case rq_peer_ip rq of Some ip \<Rightarrow> ip | None \<Rightarrow> lit ''unknown-client'')"

section \<open>Who gets a session\<close>

lemma check_csrf_Ok:
  "ct_eq_documented x \<Longrightarrow> check_csrf x rq expected = Ok () \<longleftrightarrow>
     (\<exists>p. header_str rq ''x-csrf-token'' = Some p \<and> p \<noteq> [] \<and> utf8 p = utf8 expected)"
  by (auto simp: check_csrf_def Let_def tokens_match_iff split: option.splits)

lemma check_origin_Ok:
  "check_origin rq c = Ok () \<longleftrightarrow>
     (\<forall>origin. header_str rq ''origin'' = Some origin \<longrightarrow> origin \<in> set (cors_allowed_origins c))"
  by (auto simp: check_origin_def list_ex_iff split: option.splits)

text \<open>What a granted request has shown, on the database it was checked against.\<close>

definition session_of_row :: "session_row \<Rightarrow> session" where
  "session_of_row r = \<lparr>session_id = sr_id r, session_bureau_id = sr_bureau_id r,
     session_csrf_token = sr_csrf_token r, session_expires_at = sr_expires_at r\<rparr>"

definition may_change :: "config \<Rightarrow> request \<Rightarrow> session_row \<Rightarrow> bool" where
  "may_change c rq r \<longleftrightarrow>
     (\<forall>origin. header_str rq ''origin'' = Some origin \<longrightarrow> origin \<in> set (cors_allowed_origins c))
     \<and> (\<exists>p. header_str rq ''x-csrf-token'' = Some p \<and> p \<noteq> [] \<and> utf8 p = utf8 (sr_csrf_token r))"

definition authenticated :: "externs \<Rightarrow> config \<Rightarrow> request \<Rightarrow> db \<Rightarrow> session \<Rightarrow> bool" where
  "authenticated x c rq d s \<longleftrightarrow>
     (\<exists>token r. session_token c rq = Some token \<and> token \<noteq> []
        \<and> r \<in> set (db_sessions d) \<and> sr_token_fingerprint r = token_fingerprint x token
        \<and> session_live (int (session_idle_timeout c)) (db_now d) r \<and> s = session_of_row r
        \<and> (changes_state (rq_method rq) \<longrightarrow> may_change c rq r))"

lemma checks_Ok:
  "ct_eq_documented x \<Longrightarrow>
    and_then (check_origin rq c) (\<lambda>_. check_csrf x rq (sr_csrf_token r)) = Ok () \<longleftrightarrow> may_change c rq r"
  by (auto simp: outcome_simps check_origin_Ok check_csrf_Ok may_change_def)

lemma session_extract_Ok:
  assumes "ct_eq_documented x" "session_extract x c rq d = (Ok s, d')"
  shows "authenticated x c rq d s"
proof -
  from assms(2) obtain token idle rec d1 where
    t: "session_token c rq = Some token" "token \<noteq> []"
    and idle: "i32_try_from (session_idle_timeout c) = Some idle"
    and touch: "sessions_touch (token_fingerprint x token) idle d = (Ok (Some rec), d1)"
    and chk: "changes_state (rq_method rq) \<Longrightarrow>
        and_then (check_origin rq c) (\<lambda>_. check_csrf x rq (sess_csrf_token rec)) = Ok ()"
    and s: "s = \<lparr>session_id = sess_session_id rec, session_bureau_id = sess_bureau_id rec,
            session_csrf_token = sess_csrf_token rec, session_expires_at = sess_expires_at rec\<rparr>"
    by (auto simp: session_extract_def Let_def outcome_simps bind_eq_Some_conv split: if_splits)
  from idle have i: "idle = int (session_idle_timeout c)" by (auto simp: i32_try_from_def split: if_splits)
  from touch_Ok_cases [OF touch] have "map_option record_from_row (find (\<lambda>r. sr_token_fingerprint r
      = token_fingerprint x token \<and> session_live idle (db_now d) r) (db_sessions d)) = Some rec" by simp
  then obtain r where r: "find (\<lambda>r. sr_token_fingerprint r = token_fingerprint x token
      \<and> session_live idle (db_now d) r) (db_sessions d) = Some r" "rec = record_from_row r"
    by (auto simp: map_option_eq_Some)
  from find_SomeD [OF r(1)] have row: "r \<in> set (db_sessions d)"
      "sr_token_fingerprint r = token_fingerprint x token" "session_live idle (db_now d) r" by auto
  have "s = session_of_row r" using r(2) s by (simp add: session_of_row_def record_from_row_def)
  moreover have "changes_state (rq_method rq) \<longrightarrow> may_change c rq r"
    using chk checks_Ok [OF assms(1), of rq c r] r(2) by (simp add: record_from_row_def)
  ultimately show ?thesis using t row i by (auto simp: authenticated_def)
qed

lemma fingerprint_text: "pg_text (token_fingerprint x token)"
  by (auto simp: pg_text_def token_fingerprint_def lower_hex_char_def is_ascii_digit_def dest: hex_lower_chars)

lemma session_extract_complete:
  assumes "ct_eq_documented x" "config_ok x c" "session_table_ok ids (db_sessions d)" "db_faults d = []"
    and "authenticated x c rq d s"
  shows "\<exists>d'. session_extract x c rq d = (Ok s, d')"
proof -
  from assms(5) obtain token r where t: "session_token c rq = Some token" "token \<noteq> []"
    and r: "r \<in> set (db_sessions d)" "sr_token_fingerprint r = token_fingerprint x token"
      "session_live (int (session_idle_timeout c)) (db_now d) r" "s = session_of_row r"
    and chk: "changes_state (rq_method rq) \<longrightarrow> may_change c rq r"
    by (auto simp: authenticated_def)
  let ?idle = "int (session_idle_timeout c)" and ?fp = "token_fingerprint x token"
  have idle: "i32_try_from (session_idle_timeout c) = Some ?idle" "60 \<le> ?idle"
    using assms(2) by (auto simp: config_ok_def i32_try_from_def)
  have "\<exists>res d'. sessions_touch ?fp ?idle d = (Ok res, d')"
    using assms(4) idle(2) fingerprint_text
    by (simp add: sessions_touch_def auto_statement_def next_db_fault_def sql_session_touch_def
        st_then_def st_ok_def Let_def)
  then obtain res d1 where touch: "sessions_touch ?fp ?idle d = (Ok res, d1)" by blast
  have "find (\<lambda>r. sr_token_fingerprint r = ?fp \<and> session_live ?idle (db_now d) r) (db_sessions d) = Some r"
  proof (cases "find (\<lambda>r. sr_token_fingerprint r = ?fp \<and> session_live ?idle (db_now d) r) (db_sessions d)")
    case None
    with find_NoneD [OF None r(1)] r show ?thesis by simp
  next
    case (Some q)
    have "inj_on sr_token_fingerprint (set (db_sessions d))"
      using assms(3) by (simp add: session_table_ok_def distinct_map)
    then have "q = r" by (rule inj_onD) (use find_SomeD [OF Some] r in auto)
    with Some show ?thesis by simp
  qed
  with touch_Ok_cases [OF touch] have res: "res = Some (record_from_row r)" by simp
  have tok: "Option.bind (session_token c rq) (\<lambda>t. if t \<noteq> [] then Some t else None) = Some token"
    using t by simp
  have "sess_csrf_token (record_from_row r) = sr_csrf_token r" by (simp add: record_from_row_def)
  then have "session_extract x c rq d = (Ok s, d1)"
    using chk checks_Ok [OF assms(1), of rq c r] r(4)
    by (auto simp: session_extract_def Let_def tok idle(1) touch res st_then_def st_lift_def
        st_map_err_def st_ok_def record_from_row_def session_of_row_def)
  then show ?thesis by blast
qed

text \<open>
  C11: The session gate is exact. With a checked configuration and a working database a request is
  given a session if and only if its cookie carries a token whose fingerprint is that of a live
  session; a request that changes state must also come from an allowed origin if it names one,
  and repeat the CSRF token of that very session. The session it is given is that of the row,
  so the tenant never comes from the request.
\<close>

theorem session_gate_exact:
  assumes "ct_eq_documented x" "config_ok x c" "session_table_ok ids (db_sessions d)" "db_faults d = []"
  shows "(\<exists>d'. session_extract x c rq d = (Ok s, d')) \<longleftrightarrow> authenticated x c rq d s"
  using session_extract_complete [OF assms] session_extract_Ok [OF assms(1)] by blast

text \<open>A request of the owner with the session cookie, and the database that knows it.\<close>

definition sample_token :: ustr where
  "sample_token = lit ''tok''"

definition sample_csrf_text :: ustr where
  "sample_csrf_text = lit ''csrf-csrf-csrf-csrf-''"

definition sample_headers :: "ustr \<Rightarrow> header" where
  "sample_headers n =
     (if n = lit ''cookie'' then HeaderText (lit ''otdel_session=tok'')
      else if n = lit ''x-csrf-token'' then HeaderText sample_csrf_text
      else if n = lit ''origin'' then HeaderText (lit ''http://localhost:15173'')
      else Absent)"

definition sample_request :: "http_method \<Rightarrow> request" where
  "sample_request m = \<lparr>rq_method = m, rq_headers = sample_headers, rq_peer_ip = None\<rparr>"

definition sample_session_row :: session_row where
  "sample_session_row = \<lparr>sr_id = 77, sr_bureau_id = 1,
     sr_token_fingerprint = token_fingerprint sample_externs sample_token,
     sr_csrf_token = sample_csrf_text, sr_created_at = 0, sr_last_seen_at = 0,
     sr_expires_at = 43200000000\<rparr>"

definition sample_auth_db :: db where
  "sample_auth_db = \<lparr>db_tables = \<lparr>bureaus = [\<lparr>br_id = 1, br_slug = lit ''local'', br_name = lit ''bureau''\<rparr>],
       partners = [], materials = [], jobs = [], sessions = [sample_session_row]\<rparr>,
     db_faults = [], db_now = 5, db_gen = (\<lambda>n. of_nat (n + 100)), db_gen_next = 0\<rparr>"

lemma sample_session_token: "session_token sample_config (sample_request m) = Some sample_token"
proof -
  have "read_cookie (lit ''otdel_session=tok'') (lit ''otdel_session'') = Some sample_token" by code_simp
  then show ?thesis
    by (simp add: session_token_def header_str_def sample_request_def sample_headers_def sample_config_def)
qed

lemma sample_sessions_ok: "session_table_ok {1} (db_sessions sample_auth_db)"
  using fingerprint_shape [OF sample_sha256_documented, of sample_token]
  by (simp add: sample_auth_db_def db_sessions_def session_table_ok_def session_check_def hex64_def
      sample_session_row_def sample_csrf_text_def lit_def list_all_iff)

lemma sample_authenticated:
  "authenticated sample_externs sample_config (sample_request m) sample_auth_db (session_of_row sample_session_row)"
  unfolding authenticated_def
  by (rule exI [of _ sample_token], rule exI [of _ sample_session_row])
     (simp add: sample_session_token, simp add: sample_token_def sample_auth_db_def db_sessions_def
       sample_session_row_def sample_config_def session_live_def seconds_def may_change_def
       header_str_def sample_request_def sample_headers_def, simp add: sample_csrf_text_def)

theorem session_gate_exact_witness:
  "\<exists>d'. session_extract sample_externs sample_config (sample_request POST) sample_auth_db
     = (Ok (session_of_row sample_session_row), d')"
proof -
  have "db_faults sample_auth_db = []" by (simp add: sample_auth_db_def)
  from session_gate_exact [OF sample_ct_eq_documented config_load_ok [OF sample_config_loads]
      sample_sessions_ok this, of "sample_request POST" "session_of_row sample_session_row"]
  show ?thesis using sample_authenticated by blast
qed

text \<open>The extractor changes nothing but when the session was last seen.\<close>

lemma sessions_only_touch:
  "sessions_touch fp idle d = (r, d') \<Longrightarrow> \<exists>rows. db_tables d' = (db_tables d)\<lparr>sessions := rows\<rparr>"
proof -
  assume "sessions_touch fp idle d = (r, d')"
  then obtain r0 where a: "auto_statement (sql_session_touch fp idle) d = (r0, d')"
    by (cases "auto_statement (sql_session_touch fp idle) d" rule: prod.exhaust)
       (auto simp: sessions_touch_def st_then_def st_ok_def split: outcome.splits)
  have q: "\<exists>rows. db_tables (snd (sql_session_touch fp idle d1)) = (db_tables d1)\<lparr>sessions := rows\<rparr>" for d1
    by (auto simp: sql_session_touch_def put_sessions_def Let_def intro: exI [of _ "sessions (db_tables d1)"])
  have same: "\<exists>rows. tb = tb\<lparr>sessions := rows\<rparr>" for tb :: tables
    by (rule exI [of _ "sessions tb"]) simp
  obtain f d1 where f: "next_db_fault d = (f, d1)" by fastforce
  note d1 = next_db_fault_fields [OF f]
  obtain r1 d2 where q1: "sql_session_touch fp idle d1 = (r1, d2)" by fastforce
  have "db_tables d' = db_tables d2 \<or> db_tables d' = db_tables d"
    using a f q1 d1(1) by (cases f; cases r1) (simp_all add: auto_statement_def, auto)
  moreover from q [of d1] q1 d1(1) have "\<exists>rows. db_tables d2 = (db_tables d)\<lparr>sessions := rows\<rparr>" by simp
  ultimately show ?thesis using same [of "db_tables d"] by (elim disjE) simp_all
qed

lemma session_extract_tables:
  assumes "session_extract x c rq d = (r, d')"
  shows "\<exists>rows. db_tables d' = (db_tables d)\<lparr>sessions := rows\<rparr>"
proof -
  have same: "\<exists>rows. tb = tb\<lparr>sessions := rows\<rparr>" for tb :: tables
    by (rule exI [of _ "sessions tb"]) simp
  let ?I = "\<lambda>d' :: db. \<exists>rows. db_tables d' = (db_tables d)\<lparr>sessions := rows\<rparr>"
  have "st_keeps ?I (sessions_touch fp idle)" for fp idle
  proof (rule st_keepsI)
    fix s :: db assume "?I s"
    moreover obtain r2 s' where t: "sessions_touch fp idle s = (r2, s')" by fastforce
    ultimately show "?I (snd (sessions_touch fp idle s))" using sessions_only_touch [OF t] by auto
  qed
  then have "st_keeps ?I (session_extract x c rq)"
    unfolding session_extract_def Let_def by (intro keeps_rules)
  from st_keepsD [where I = ?I, OF this _ assms] same show ?thesis by blast
qed

end
