(* ===== verification/Validate.thy ===== *)
theory Validate
  imports Media
begin

text \<open>
  \<^verbatim>\<open>crates/otdel-core/src/validate.rs\<close>: the partner fields that are validated, the uploaded
  file name that is only normalised for display, and the two forms of the name in
  \<^verbatim>\<open>Content-Disposition\<close>. Code points: 9 tab, 10 newline, 37 percent, 46 dot, 47 slash,
  92 backslash, 95 underscore.
\<close>

definition PARTNER_NAME_MAX_CHARS :: nat where
  "PARTNER_NAME_MAX_CHARS = 200"

definition PARTNER_NOTE_MAX_CHARS :: nat where
  "PARTNER_NOTE_MAX_CHARS = 10000"

definition FILENAME_MAX_CHARS :: nat where
  "FILENAME_MAX_CHARS = 200"

definition is_forbidden_control :: "uchar \<Rightarrow> bool" where
  "is_forbidden_control c = is_control c"

definition partner_name :: "ustr \<Rightarrow> (app_error, ustr) outcome" where
  "partner_name raw =
     (let trimmed = trim raw; len = length trimmed
      in if trimmed = [] then Err (ae_validation (lit ''partner name must not be empty''))
         else if len > PARTNER_NAME_MAX_CHARS then
           Err (ae_validation (lit ''partner name must be at most '' @ dec PARTNER_NAME_MAX_CHARS
             @ lit '' characters, got '' @ dec len))
         else if list_ex is_forbidden_control trimmed then
           Err (ae_validation (lit ''partner name must not contain control characters''))
         else Ok trimmed)"

definition partner_note :: "ustr option \<Rightarrow> (app_error, ustr option) outcome" where
  "partner_note raw =
     (case raw of
        None \<Rightarrow> Ok None
      | Some raw \<Rightarrow>
          (let trimmed = trim raw; len = length trimmed
           in if trimmed = [] then Ok None
              else if len > PARTNER_NOTE_MAX_CHARS then
                Err (ae_validation (lit ''partner note must be at most ''
                  @ dec PARTNER_NOTE_MAX_CHARS @ lit '' characters, got '' @ dec len))
              else if list_ex (\<lambda>c. is_forbidden_control c \<and> c \<noteq> 10 \<and> c \<noteq> 9) trimmed then
                Err (ae_validation (lit ''partner note must not contain control characters''))
              else Ok (Some trimmed)))"

definition display_filename :: "ustr \<Rightarrow> media_type \<Rightarrow> ustr" where
  "display_filename raw m =
     (let seg = last_segment (\<lambda>c. c = 47 \<or> c = 92) raw;
          cleaned = map (\<lambda>c. if is_forbidden_control c then 32 else c) seg;
          cleaned = trim (trim_by (\<lambda>c. c = 46) (trim cleaned));
          truncated = trim (take FILENAME_MAX_CHARS cleaned)
      in if truncated = [] then lit ''upload.'' @ media_extension m else truncated)"

definition disposition_char :: "uchar \<Rightarrow> bool" where
  "disposition_char c \<longleftrightarrow>
     is_ascii_alphanumeric c \<or> c = 46 \<or> c = 45 \<or> c = 95 \<or> c = 32 \<or> c = 40 \<or> c = 41 \<or> c = 43"

definition content_disposition_ascii_fallback :: "ustr \<Rightarrow> media_type \<Rightarrow> ustr" where
  "content_disposition_ascii_fallback name m =
     (let ascii = trim (map (\<lambda>c. if disposition_char c then c else 95) name)
      in if ascii = [] \<or> list_all (\<lambda>c. c = 95 \<or> c = 32) ascii
         then lit ''original.'' @ media_extension m
         else ascii)"

definition UNRESERVED :: bytes where
  "UNRESERVED =
     utf8 (lit ''ABCDEFGHIJKLMNOPQRSTUVWXYZabcdefghijklmnopqrstuvwxyz0123456789-._~'')"

fun percent_encode :: "bytes \<Rightarrow> ustr" where
  "percent_encode [] = []"
| "percent_encode (b # bs) =
     (if b \<in> set UNRESERVED then [unat b] else 37 # hex_byte_upper b) @ percent_encode bs"

definition content_disposition_utf8 :: "ustr \<Rightarrow> ustr" where
  "content_disposition_utf8 name = lit ''UTF-8'' @ [39, 39] @ percent_encode (utf8 name)"

section \<open>Partner fields\<close>

lemma partner_name_Ok:
  "partner_name raw = Ok n \<longleftrightarrow>
     n = trim raw \<and> n \<noteq> [] \<and> length n \<le> 200 \<and> (\<forall>c\<in>set n. \<not> is_control c)"
  by (auto simp: partner_name_def Let_def PARTNER_NAME_MAX_CHARS_def is_forbidden_control_def
      list_ex_iff)

lemma partner_note_Ok:
  "partner_note (Some raw) = Ok n \<longleftrightarrow>
     (if trim raw = [] then n = None
      else n = Some (trim raw) \<and> length (trim raw) \<le> 10000
        \<and> (\<forall>c\<in>set (trim raw). is_control c \<longrightarrow> c = 10 \<or> c = 9))"
  by (auto simp: partner_note_def Let_def PARTNER_NOTE_MAX_CHARS_def is_forbidden_control_def
      list_ex_iff)

lemma partner_name_no_panic: "partner_name raw \<noteq> Panic"
  by (simp add: partner_name_def Let_def)

lemma partner_note_no_panic: "partner_note raw \<noteq> Panic"
  by (simp add: partner_note_def Let_def split: option.splits)

lemma partner_name_Err_code: "partner_name raw = Err e \<Longrightarrow> ae_code e = ValidationFailed"
  by (auto simp: partner_name_def Let_def split: if_splits)

lemma partner_note_Err_code: "partner_note raw = Err e \<Longrightarrow> ae_code e = ValidationFailed"
  by (auto simp: partner_note_def Let_def split: if_splits option.splits)

lemma partner_note_len: "partner_note raw = Ok (Some n) \<Longrightarrow> n \<noteq> [] \<and> length n \<le> 10000"
  by (cases raw) (auto simp: partner_note_def Let_def PARTNER_NOTE_MAX_CHARS_def split: if_splits)

section \<open>Display names\<close>

lemma is_control_ascii_space [simp]: "\<not> is_control 32"
  by (simp add: is_control_def)

lemma extension_chars:
  "c \<in> set (lit ''upload.'' @ media_extension m) \<Longrightarrow> \<not> is_control c \<and> c \<noteq> 47 \<and> c \<noteq> 92"
  by (cases m) (auto simp: lit_def is_control_def)

lemma display_filename_chars:
  assumes "c \<in> set (display_filename raw m)"
  shows "\<not> is_control c \<and> c \<noteq> 47 \<and> c \<noteq> 92"
proof -
  let ?seg = "last_segment (\<lambda>c. c = 47 \<or> c = 92) raw"
  let ?cleaned = "map (\<lambda>c. if is_forbidden_control c then 32 else c) ?seg"
  have clean: "\<not> is_control d \<and> d \<noteq> 47 \<and> d \<noteq> 92" if "d \<in> set ?cleaned" for d
    using that by (auto simp: is_forbidden_control_def dest: last_segment_clean split: if_splits)
  have "c \<in> set (lit ''upload.'' @ media_extension m) \<or> c \<in> set ?cleaned"
    using assms
    by (auto simp: display_filename_def Let_def split: if_splits
        dest!: subsetD [OF set_trim] subsetD [OF set_trim_by] in_set_takeD)
  then show ?thesis using clean extension_chars by blast
qed

lemma display_filename_length:
  "display_filename raw m \<noteq> [] \<and> length (display_filename raw m) \<le> 200"
proof -
  have "length (trim (take FILENAME_MAX_CHARS s)) \<le> 200" for s
    using length_trim [of "take FILENAME_MAX_CHARS s"] by (simp add: FILENAME_MAX_CHARS_def)
  then show ?thesis
    by (cases m) (auto simp: display_filename_def Let_def lit_def)
qed

lemma display_filename_short_name:
  "trim raw = raw \<Longrightarrow> raw \<noteq> [] \<Longrightarrow> hd raw \<noteq> 46 \<Longrightarrow> last raw \<noteq> 46 \<Longrightarrow> length raw \<le> 200
   \<Longrightarrow> (\<forall>c\<in>set raw. \<not> is_control c \<and> c \<noteq> 47 \<and> c \<noteq> 92) \<Longrightarrow> display_filename raw m = raw"
proof -
  assume a: "trim raw = raw" "raw \<noteq> []" "hd raw \<noteq> 46" "last raw \<noteq> 46" "length raw \<le> 200"
    "\<forall>c\<in>set raw. \<not> is_control c \<and> c \<noteq> 47 \<and> c \<noteq> 92"
  from a(6) have "takeWhile (\<lambda>c. \<not> (c = 47 \<or> c = 92)) (rev raw) = rev raw"
    by (subst takeWhile_eq_all_conv) auto
  then have "last_segment (\<lambda>c. c = 47 \<or> c = 92) raw = raw"
    by (simp only: last_segment_def rev_rev_ident)
  moreover have "map (\<lambda>c. if is_forbidden_control c then 32 else c) raw = raw"
    using a(6) by (auto simp: is_forbidden_control_def intro: map_idI)
  moreover have "trim_by (\<lambda>c. c = 46) raw = raw" using a by (intro trim_by_fixes) auto
  ultimately show ?thesis using a
    by (simp add: display_filename_def Let_def FILENAME_MAX_CHARS_def)
qed

section \<open>Content-Disposition\<close>

lemma disposition_char_extension:
  "c \<in> set (lit ''original.'' @ media_extension m) \<Longrightarrow> disposition_char c"
  by (cases m) (auto simp: lit_def disposition_char_def char_class_defs)

lemma ascii_fallback_chars:
  assumes "c \<in> set (content_disposition_ascii_fallback name m)"
  shows "disposition_char c"
proof -
  have "disposition_char 95" by (simp add: disposition_char_def)
  then have "disposition_char d"
    if "d \<in> set (trim (map (\<lambda>c. if disposition_char c then c else 95) name))" for d
    using that subsetD [OF set_trim that] by (auto split: if_splits)
  with assms disposition_char_extension show ?thesis
    by (auto simp: content_disposition_ascii_fallback_def Let_def split: if_splits)
qed

lemma ascii_fallback_not_Nil: "content_disposition_ascii_fallback name m \<noteq> []"
  by (auto simp: content_disposition_ascii_fallback_def Let_def)

lemma disposition_char_visible:
  "disposition_char c \<Longrightarrow> 32 \<le> c \<and> c < 127 \<and> c \<noteq> 34 \<and> c \<noteq> 92 \<and> c \<noteq> 59"
  by (auto simp: disposition_char_def char_class_defs)

text \<open>The reader of an RFC 5987 value, as the specification of \<open>percent_encode\<close>.\<close>

definition hex_value_upper :: "uchar \<Rightarrow> nat" where
  "hex_value_upper c = (if c \<le> 57 then c - 48 else c - 55)"

fun percent_decode :: "ustr \<Rightarrow> bytes" where
  "percent_decode [] = []"
| "percent_decode (c # cs) =
     (if c = 37 then
        (case cs of h # l # r \<Rightarrow>
             of_nat (16 * hex_value_upper h + hex_value_upper l) # percent_decode r
         | _ \<Rightarrow> [])
      else of_nat c # percent_decode cs)"

lemma hex_value_digit_upper: "n < 16 \<Longrightarrow> hex_value_upper (hex_digit_upper n) = n"
  by (auto simp: hex_value_upper_def hex_digit_upper_def)

lemma percent_decode_hex: "percent_decode (37 # hex_byte_upper b @ r) = b # percent_decode r"
proof -
  have "16 * word_of_nat (unat b div 16) + word_of_nat (unat b mod 16)
      = (word_of_nat (16 * (unat b div 16) + unat b mod 16) :: byte)"
    by (simp only: of_nat_add of_nat_mult of_nat_numeral)
  also have "\<dots> = b" by (simp only: mult_div_mod_eq) simp
  finally have "16 * word_of_nat (unat b div 16) + word_of_nat (unat b mod 16) = b" .
  moreover have "unat b div 16 < 16" using unat_byte_lt [of b] by simp
  ultimately show ?thesis
    by (simp add: hex_byte_upper_def hex_value_digit_upper)
qed

lemma percent_not_unreserved: "(37 :: byte) \<notin> set UNRESERVED"
  by code_simp

lemma unreserved_ne_percent: "b \<in> set UNRESERVED \<Longrightarrow> unat b \<noteq> 37"
proof
  assume "b \<in> set UNRESERVED" "unat b = 37"
  then have "unat b = unat (37 :: byte)" by simp
  then have "b = 37" by (rule unsigned_word_eqI)
  with \<open>b \<in> set UNRESERVED\<close> percent_not_unreserved show False by simp
qed

lemma percent_decode_encode: "percent_decode (percent_encode bs) = bs"
proof (induction bs)
  case (Cons b bs)
  then show ?case
    by (cases "b \<in> set UNRESERVED")
       (simp_all add: unreserved_ne_percent percent_decode_hex del: percent_decode.simps(2)
         add: percent_decode.simps(2) [of "unat b"])
qed simp

definition token_char :: "uchar \<Rightarrow> bool" where
  "token_char c \<longleftrightarrow> is_ascii_alphanumeric c \<or> c = 45 \<or> c = 46 \<or> c = 95 \<or> c = 126 \<or> c = 37"

lemma unreserved_token: "b \<in> set UNRESERVED \<Longrightarrow> token_char (unat b)"
proof -
  have "list_all (\<lambda>b. token_char (unat b)) UNRESERVED" by code_simp
  then show "b \<in> set UNRESERVED \<Longrightarrow> token_char (unat b)" by (auto simp: list_all_iff)
qed

lemma hex_digit_upper_token: "n < 16 \<Longrightarrow> token_char (hex_digit_upper n)"
  by (auto simp: token_char_def hex_digit_upper_def char_class_defs)

lemma percent_encode_token: "c \<in> set (percent_encode bs) \<Longrightarrow> token_char c"
proof (induction bs)
  case (Cons b bs)
  have "unat b div 16 < 16" using unat_byte_lt [of b] by simp
  moreover have "token_char 37" by (simp add: token_char_def)
  ultimately show ?case using Cons
    by (auto simp: hex_byte_upper_def unreserved_token hex_digit_upper_token split: if_splits)
qed simp

text \<open>
  A special name can be what is left: trimming spaces around trimmed dots uncovers another dot, so the
  name \<^verbatim>\<open>. . .\<close> is shown as a single dot.
\<close>

lemma display_filename_special: "display_filename (lit ''. . .'') Pdf = lit ''.''"
  by code_simp

end
