(* ===== verification/FsInvariants.thy ===== *)
theory FsInvariants
  imports FsStore
begin

text \<open>
  Invariants of the tree through the operations of the object store. A \<^emph>\<open>tree invariant\<close> is a
  property of the nodes together with the set of calls that keep it; the locale lifts it once
  through faults, dropped futures, guards and the store's operations. Two invariants are
  interpreted: the \<^emph>\<open>frame\<close> (files outside a set of paths stay as they are) and the
  \<^emph>\<open>content address\<close> (a stored object hashes to its name).
\<close>

type_synonym nodes = "path \<Rightarrow> node option"

fun node_content :: "node option \<Rightarrow> bytes option" where
  "node_content (Some (File m c t)) = Some c"
| "node_content (Some (Dir m)) = None"
| "node_content (Some (Other b)) = None"
| "node_content None = None"

definition file_at :: "fs \<Rightarrow> path \<Rightarrow> bytes option" where
  "file_at s p = node_content (node_at s p)"

lemma node_content_Some: "node_content n = Some c \<longleftrightarrow> (\<exists>m t. n = Some (File m c t))"
  by (cases n rule: node_content.cases) auto

definition safe_fs :: "(nodes \<Rightarrow> bool) \<Rightarrow> (fs_op \<Rightarrow> bool) \<Rightarrow> fs \<Rightarrow> bool" where
  "safe_fs P allowed s \<longleftrightarrow> P (node_at s) \<and> list_all allowed (fs_late s)"

locale tree_invariant =
  fixes P :: "nodes \<Rightarrow> bool"
    and allowed :: "fs_op \<Rightarrow> bool"
  assumes allowed_keeps: "allowed op \<Longrightarrow> P (node_at s) \<Longrightarrow> P (node_at (snd (perform op s)))"
    and allowed_partial: "allowed op \<Longrightarrow> allowed (partial_op op n)"
begin

abbreviation safe :: "fs \<Rightarrow> bool" where
  "safe \<equiv> safe_fs P allowed"

lemma safe_perform: "allowed op \<Longrightarrow> safe s \<Longrightarrow> safe (snd (perform op s))"
  by (simp add: safe_fs_def allowed_keeps)

lemma safe_update [simp]: "safe (s\<lparr>fs_faults := f\<rparr>) = safe s" "safe (s\<lparr>fs_drop_faults := d\<rparr>) = safe s"
proof -
  have "node_at (s\<lparr>fs_faults := f\<rparr>) = node_at s" "node_at (s\<lparr>fs_drop_faults := d\<rparr>) = node_at s"
    by (auto simp: node_at_def)
  then show "safe (s\<lparr>fs_faults := f\<rparr>) = safe s" "safe (s\<lparr>fs_drop_faults := d\<rparr>) = safe s"
    by (simp_all add: safe_fs_def)
qed

lemma safe_late: "safe s \<Longrightarrow> allowed op \<Longrightarrow> safe (s\<lparr>fs_late := fs_late s @ [op]\<rparr>)"
proof -
  have "node_at (s\<lparr>fs_late := fs_late s @ [op]\<rparr>) = node_at s" by (auto simp: node_at_def)
  then show "safe s \<Longrightarrow> allowed op \<Longrightarrow> safe (s\<lparr>fs_late := fs_late s @ [op]\<rparr>)"
    by (simp add: safe_fs_def)
qed

lemma safe_next_fault: "next_fault s = (f, s') \<Longrightarrow> safe s' = safe s"
  by (auto simp: next_fault_def split: list.splits)

lemma keeps_call: "allowed op \<Longrightarrow> st_keeps safe (sys_call op)"
proof (rule st_keepsI)
  fix s
  assume op: "allowed op" and "safe s"
  obtain f s1 where f: "next_fault s = (f, s1)" by fastforce
  with \<open>safe s\<close> have s1: "safe s1" by (simp add: safe_next_fault)
  with f op show "safe (snd (sys_call op s))"
    by (auto simp: sys_call_def safe_perform allowed_partial safe_late
        split: fault.split drop_time.split)
qed

lemma keeps_look: "st_keeps safe (sys_look look)"
  by (rule st_keepsI)
     (auto simp: sys_look_def next_fault_def split: list.splits fault.splits)

lemma keeps_io_call: "st_keeps safe m \<Longrightarrow> st_keeps safe (io_call c m)"
  by (simp add: io_call_def st_keeps_map_err)

lemma safe_guard_drop: "allowed (OpRemove p) \<Longrightarrow> safe s \<Longrightarrow> safe (guard_drop p s)"
  by (auto simp: guard_drop_def sync_remove_def Let_def safe_perform split: list.split)

lemma keeps_guarded:
  "allowed (OpRemove p) \<Longrightarrow> st_keeps safe m \<Longrightarrow> st_keeps safe (guarded p m)"
  by (fastforce simp: st_keeps_def guarded_def safe_guard_drop
      split: prod.splits outcome.splits)

lemma safe_run_late:
  assumes "safe s" shows "safe (run_late s)"
proof -
  have "list_all allowed ops \<Longrightarrow> safe t \<Longrightarrow> safe (fold (\<lambda>op t. snd (perform op t)) ops t)" for ops t
    by (induction ops arbitrary: t) (simp_all add: safe_perform)
  then have s: "safe (fold (\<lambda>op t. snd (perform op t)) (fs_late s) s)"
    using assms by (simp add: safe_fs_def)
  moreover have "node_at (t\<lparr>fs_late := []\<rparr>) = node_at t" for t :: fs by (auto simp: node_at_def)
  ultimately show ?thesis by (simp add: run_late_def safe_fs_def)
qed

lemma keeps_future: "st_keeps safe m \<Longrightarrow> st_keeps safe (future m)"
  by (fastforce simp: st_keeps_def future_def safe_run_late split: prod.splits outcome.splits)

lemmas call_rules = keeps_rules keeps_io_call keeps_look

lemma keeps_create_private_dir:
  "allowed (OpMkdirAll p) \<Longrightarrow> (\<And>m. allowed (OpChmod p m)) \<Longrightarrow> st_keeps safe (create_private_dir p)"
  unfolding create_private_dir_def by (intro call_rules keeps_call) auto

lemma keeps_private_create: "allowed (OpCreate p) \<Longrightarrow> st_keeps safe (private_create p)"
  unfolding private_create_def by (intro call_rules keeps_call)

lemma keeps_write_chunks:
  "(\<And>bs. allowed (OpWrite p bs)) \<Longrightarrow> st_keeps safe (write_chunks p cs h n)"
  by (induction cs arbitrary: h n) (auto intro!: call_rules keeps_call)

lemma keeps_stat_existing: "st_keeps safe (stat_existing p n)"
proof -
  have "st_keeps safe (symlink_metadata p)" by (simp add: symlink_metadata_def keeps_look)
  then show ?thesis
    by (fastforce simp: st_keeps_def stat_existing_def
        split: prod.splits outcome.splits io_kind.splits)
qed

lemma keeps_ignore_err: "st_keeps safe m \<Longrightarrow> st_keeps safe (ignore_err m)"
  by (fastforce simp: st_keeps_def ignore_err_def split: prod.splits outcome.splits)

lemma keeps_sync_dir: "allowed OpFlush \<Longrightarrow> st_keeps safe (sync_dir p)"
  unfolding sync_dir_def by (intro keeps_ignore_err call_rules keeps_call)

lemma keeps_publish:
  "(\<And>p. allowed (OpMkdirAll p)) \<Longrightarrow> (\<And>p m. allowed (OpChmod p m)) \<Longrightarrow> allowed (OpRename staging final)
    \<Longrightarrow> st_keeps safe (publish staging final key h n)"
  unfolding publish_def
  by (intro call_rules keeps_create_private_dir keeps_stat_existing keeps_call)

end

section \<open>The frame\<close>

fun op_files :: "fs_op \<Rightarrow> path list" where
  "op_files (OpCreate p) = [p]"
| "op_files (OpWrite p bs) = [p]"
| "op_files OpFlush = []"
| "op_files (OpRename a b) = [a, b]"
| "op_files (OpMkdirAll p) = []"
| "op_files (OpChmod p m) = []"
| "op_files (OpRemove p) = [p]"

lemma mkdirs_content:
  "node_content (node_at (snd (mkdirs ps s)) q) = node_content (node_at s q)"
  by (induction ps s rule: mkdirs.induct) (auto split: option.splits node.splits bool.splits)

lemma perform_content_other:
  "q \<notin> set (op_files op) \<Longrightarrow> node_content (node_at (snd (perform op s)) q) = node_content (node_at s q)"
  by (induction op s rule: perform.induct)
     (auto simp: perform.simps mkdirs_content split: option.splits node.splits bool.splits)

definition frame_kept :: "path set \<Rightarrow> nodes \<Rightarrow> nodes \<Rightarrow> bool" where
  "frame_kept A g f \<longleftrightarrow> (\<forall>p. p \<notin> A \<longrightarrow> node_content (f p) = node_content (g p))"

definition frame_allowed :: "path set \<Rightarrow> fs_op \<Rightarrow> bool" where
  "frame_allowed A op \<longleftrightarrow> set (op_files op) \<subseteq> A"

interpretation frame: tree_invariant "frame_kept A g" "frame_allowed A" for A g
proof unfold_locales
  show "frame_kept A g (node_at (snd (perform op s)))"
    if op: "frame_allowed A op" and s: "frame_kept A g (node_at s)" for op s
    unfolding frame_kept_def
  proof (intro allI impI)
    fix p
    assume p: "p \<notin> A"
    with op have "p \<notin> set (op_files op)" by (auto simp: frame_allowed_def)
    with s p show "node_content (node_at (snd (perform op s)) p) = node_content (g p)"
      by (simp add: frame_kept_def perform_content_other)
  qed
  show "frame_allowed A (partial_op op n)" if "frame_allowed A op" for op n
    using that by (cases op) (auto simp: frame_allowed_def)
qed

section \<open>The content address\<close>

definition is_object_path :: "path \<Rightarrow> path \<Rightarrow> bool" where
  "is_object_path objs p \<longleftrightarrow> prefix objs p \<and> length p = length objs + 4"

definition content_ok :: "externs \<Rightarrow> path \<Rightarrow> nodes \<Rightarrow> bool" where
  "content_ok x objs f \<longleftrightarrow>
     (\<forall>p c. is_object_path objs p \<longrightarrow> node_content (f p) = Some c
        \<longrightarrow> last p = hex_lower (sha256_digest x c))"

fun content_allowed :: "path \<Rightarrow> fs_op \<Rightarrow> bool" where
  "content_allowed objs (OpRemove p) = True"
| "content_allowed objs (OpCreate p) = (\<not> is_object_path objs p)"
| "content_allowed objs (OpWrite p bs) = (\<not> is_object_path objs p)"
| "content_allowed objs (OpRename a b) = False"
| "content_allowed objs OpFlush = True"
| "content_allowed objs (OpMkdirAll p) = True"
| "content_allowed objs (OpChmod p m) = True"

lemma perform_remove_content:
  "node_content (node_at (snd (perform (OpRemove p) s)) q) =
     (if q = p then None else node_content (node_at s q))"
  by (auto simp: perform.simps split: option.splits node.splits)

lemma content_allowed_object:
  assumes "content_allowed objs op" "is_object_path objs p"
  shows "node_content (node_at (snd (perform op s)) p) \<in> {None, node_content (node_at s p)}"
proof (cases "p \<in> set (op_files op)")
  case True
  with assms show ?thesis by (cases op) (auto simp: perform_remove_content)
qed (simp add: perform_content_other)

lemma content_allowed_keeps:
  assumes "content_allowed objs op" "content_ok x objs (node_at s)"
  shows "content_ok x objs (node_at (snd (perform op s)))"
  unfolding content_ok_def
proof (intro allI impI)
  fix p c
  assume p: "is_object_path objs p" and "node_content (node_at (snd (perform op s)) p) = Some c"
  with content_allowed_object [OF assms(1) p, of s] have "node_content (node_at s p) = Some c"
    by auto
  with assms(2) p show "last p = hex_lower (sha256_digest x c)" by (simp add: content_ok_def)
qed

interpretation content: tree_invariant "content_ok x objs" "content_allowed objs" for x objs
proof unfold_locales
  show "content_allowed objs (partial_op op n)" if "content_allowed objs op" for op n
    using that by (cases op) auto
qed (rule content_allowed_keeps)

text \<open>While an object is published its content waits in the staging file.\<close>

definition staged_ok :: "externs \<Rightarrow> path \<Rightarrow> path \<Rightarrow> bytes \<Rightarrow> nodes \<Rightarrow> bool" where
  "staged_ok x objs staging acc f \<longleftrightarrow>
     content_ok x objs f \<and> (node_content (f staging) = None \<or> node_content (f staging) = Some acc)"

fun staged_allowed :: "externs \<Rightarrow> path \<Rightarrow> path \<Rightarrow> bytes \<Rightarrow> fs_op \<Rightarrow> bool" where
  "staged_allowed x objs staging acc (OpRemove p) = True"
| "staged_allowed x objs staging acc (OpCreate p) = False"
| "staged_allowed x objs staging acc (OpWrite p bs) = False"
| "staged_allowed x objs staging acc (OpRename a b) =
     (a = staging \<and> a \<noteq> b \<and> last b = hex_lower (sha256_digest x acc))"
| "staged_allowed x objs staging acc OpFlush = True"
| "staged_allowed x objs staging acc (OpMkdirAll p) = True"
| "staged_allowed x objs staging acc (OpChmod p m) = True"

lemma perform_rename_content:
  "a \<noteq> b \<Longrightarrow>
   node_content (node_at (snd (perform (OpRename a b) s)) q) =
     (if fst (perform (OpRename a b) s) = Ok ()
      then (if q = a then None else if q = b then node_content (node_at s a)
            else node_content (node_at s q))
      else node_content (node_at s q))"
  by (auto simp: perform.simps split: option.splits node.splits)

interpretation staged: tree_invariant "staged_ok x objs staging acc" "staged_allowed x objs staging acc"
  for x objs staging acc
proof unfold_locales
  show "staged_ok x objs staging acc (node_at (snd (perform op s)))"
    if op: "staged_allowed x objs staging acc op" and s: "staged_ok x objs staging acc (node_at s)"
    for op s
  proof (cases "\<exists>a b. op = OpRename a b")
    case True
    with op s show ?thesis
      by (auto simp: staged_ok_def content_ok_def perform_rename_content split: if_splits)
  next
    case False
    with op have "content_allowed objs op" by (cases op) auto
    moreover have "node_content (node_at (snd (perform op s)) staging)
        \<in> {None, node_content (node_at s staging)}"
      using op False
      by (cases op) (auto simp: perform_remove_content perform_content_other)
    ultimately show ?thesis using s content_allowed_keeps by (auto simp: staged_ok_def)
  qed
  show "staged_allowed x objs staging acc (partial_op op n)"
    if "staged_allowed x objs staging acc op" for op n
    using that by (cases op) auto
qed

end
