(* ===== verification/StorePut.thy ===== *)
theory StorePut
  imports FsInvariants
begin

text \<open>
  What \<^verbatim>\<open>put_stream\<close> promises the upload route: on success the object of the returned key is
  stored, on failure nothing is, the staging file is gone, and in every case, faults and
  dropped requests included, a stored object still hashes to its name.
\<close>

named_theorems calm_rules

text \<open>Code that leaves no call in flight unless it is dropped, and runs no destructor.\<close>

definition calm :: "(fs, 'e, 'a) stateful \<Rightarrow> bool" where
  "calm m \<longleftrightarrow> (\<forall>s r s'. m s = (r, s') \<longrightarrow>
     fs_drop_faults s' = fs_drop_faults s \<and> (r \<noteq> Panic \<longrightarrow> fs_late s' = fs_late s))"

lemma calmD: "calm m \<Longrightarrow> m s = (r, s') \<Longrightarrow>
    fs_drop_faults s' = fs_drop_faults s \<and> (r \<noteq> Panic \<longrightarrow> fs_late s' = fs_late s)"
  by (simp add: calm_def)

lemma calm_ok [calm_rules]: "calm (st_ok a)"
  by (simp add: calm_def st_ok_def)

lemma calm_lift [calm_rules]: "calm (st_lift r)"
  by (simp add: calm_def st_lift_def)

lemma calm_then [calm_rules]: "calm m \<Longrightarrow> (\<And>a. calm (f a)) \<Longrightarrow> calm (st_then m f)"
  unfolding calm_def st_then_def by (fastforce split: prod.splits outcome.splits)

lemma calm_if [calm_rules]: "calm m \<Longrightarrow> calm n \<Longrightarrow> calm (if b then m else n)"
  by simp

lemma calm_io_call [calm_rules]: "calm m \<Longrightarrow> calm (io_call c m)"
  unfolding calm_def io_call_def st_map_err_def
  by (fastforce simp: outcome_simps split: prod.splits)

lemma next_fault_fields:
  "next_fault s = (f, s') \<Longrightarrow> fs_drop_faults s' = fs_drop_faults s \<and> fs_late s' = fs_late s
    \<and> node_at s' = node_at s \<and> fs_tree s' = fs_tree s \<and> fs_now s' = fs_now s"
  by (auto simp: next_fault_def node_at_def split: list.splits)

lemma calm_call [calm_rules]: "calm (sys_call op)"
  unfolding calm_def sys_call_def
  by (auto dest!: next_fault_fields perform_fields split: prod.splits fault.splits drop_time.splits)

lemma calm_look [calm_rules]: "calm (sys_look look)"
  unfolding calm_def sys_look_def
  by (auto dest!: next_fault_fields split: prod.splits fault.splits)

lemma calm_private_create [calm_rules]: "calm (private_create p)"
  unfolding private_create_def by (intro calm_rules)

lemma calm_create_private_dir [calm_rules]: "calm (create_private_dir p)"
  unfolding create_private_dir_def by (intro calm_rules)

lemma calm_write_chunks [calm_rules]: "calm (write_chunks p cs h n)"
  by (induction cs arbitrary: h n) (auto intro!: calm_rules)

lemma calm_stat_existing [calm_rules]: "calm (stat_existing p n)"
proof -
  have "calm (symlink_metadata p)" unfolding symlink_metadata_def by (rule calm_look)
  then show ?thesis
    unfolding calm_def stat_existing_def
    by (fastforce split: prod.splits outcome.splits io_kind.splits)
qed

lemma calm_publish [calm_rules]: "calm (publish staging final key h n)"
  unfolding publish_def by (intro calm_rules)

lemma calm_ignore_err [calm_rules]: "calm m \<Longrightarrow> calm (ignore_err m)"
  unfolding calm_def ignore_err_def by (fastforce split: prod.splits outcome.splits)

lemma calm_sync_dir [calm_rules]: "calm (sync_dir p)"
  unfolding sync_dir_def by (intro calm_rules)

section \<open>The calls on the staging file\<close>

lemma sys_call_Ok:
  "sys_call op s = (Ok (), s') \<Longrightarrow> \<exists>s1. node_at s1 = node_at s \<and> perform op s1 = (Ok (), s')"
  by (auto simp: sys_call_def dest!: next_fault_fields
      split: prod.splits fault.splits drop_time.splits)

lemma create_content:
  "private_create p s = (Ok (), s') \<Longrightarrow> node_content (node_at s' p) = Some []"
  by (auto simp: private_create_def io_call_def outcome_simps perform.simps
      dest!: sys_call_Ok split: option.splits if_splits)

lemma write_content:
  "sys_call (OpWrite p bs) s = (Ok (), s') \<Longrightarrow> node_content (node_at s p) = Some c
    \<Longrightarrow> node_content (node_at s' p) = Some (c @ bs)"
  by (auto simp: perform.simps node_content_Some dest!: sys_call_Ok)

lemma write_chunks_Ok:
  "write_chunks p cs h n s = (Ok (h', n'), s') \<Longrightarrow> node_content (node_at s p) = Some h
    \<Longrightarrow> node_content (node_at s' p) = Some h'
      \<and> (\<exists>bss. cs = map Ok bss \<and> h' = h @ concat bss \<and> n' = n + of_nat (length (concat bss)))"
proof (induction cs arbitrary: h n s)
  case (Cons c cs)
  then obtain bs s1 where c: "c = Ok bs" and w: "sys_call (OpWrite p bs) s = (Ok (), s1)"
      and r: "write_chunks p cs (h @ bs) (n + of_nat (length bs)) s1 = (Ok (h', n'), s')"
    by (auto simp: outcome_simps io_call_def)
  from Cons.IH [OF r write_content [OF w Cons.prems(2)]] obtain bss where
    "node_content (node_at s' p) = Some h'" "cs = map Ok bss" "h' = (h @ bs) @ concat bss"
    "n' = n + of_nat (length bs) + of_nat (length (concat bss))"
    by blast
  with c show ?case by (intro conjI exI [of _ "bs # bss"]) auto
qed (simp add: outcome_simps)

section \<open>Files left as they are\<close>

definition same_files :: "path set \<Rightarrow> fs \<Rightarrow> fs \<Rightarrow> bool" where
  "same_files A s s' \<longleftrightarrow> (\<forall>p. p \<notin> A \<longrightarrow> file_at s' p = file_at s p)"

lemma same_files_refl [simp]: "same_files A s s"
  by (simp add: same_files_def)

lemma same_files_trans: "same_files A s s1 \<Longrightarrow> same_files A s1 s2 \<Longrightarrow> same_files A s s2"
  by (simp add: same_files_def)

lemma same_files_mono: "same_files A s s' \<Longrightarrow> A \<subseteq> B \<Longrightarrow> same_files B s s'"
  by (auto simp: same_files_def)

lemma same_filesD: "same_files A s s' \<Longrightarrow> p \<notin> A \<Longrightarrow> file_at s' p = file_at s p"
  by (simp add: same_files_def)

definition framed :: "path set \<Rightarrow> (fs, 'e, 'a) stateful \<Rightarrow> bool" where
  "framed A m \<longleftrightarrow> (\<forall>g. st_keeps (safe_fs (frame_kept A g) (frame_allowed A)) m)"

lemma framedD:
  assumes "framed A m" "m s = (r, s')" "fs_late s = []"
  shows "same_files A s s'"
proof -
  have "safe_fs (frame_kept A (node_at s)) (frame_allowed A) s"
    using assms(3) by (simp add: safe_fs_def frame_kept_def)
  with assms(1,2) have "safe_fs (frame_kept A (node_at s)) (frame_allowed A) s'"
    unfolding framed_def by (blast intro: st_keepsD)
  then show ?thesis by (simp add: safe_fs_def frame_kept_def same_files_def file_at_def)
qed

lemma frame_allowed_simps [simp]:
  "frame_allowed A OpFlush" "frame_allowed A (OpMkdirAll p)" "frame_allowed A (OpChmod p m)"
  "frame_allowed A (OpCreate p) \<longleftrightarrow> p \<in> A" "frame_allowed A (OpWrite p bs) \<longleftrightarrow> p \<in> A"
  "frame_allowed A (OpRemove p) \<longleftrightarrow> p \<in> A"
  "frame_allowed A (OpRename a b) \<longleftrightarrow> a \<in> A \<and> b \<in> A"
  by (simp_all add: frame_allowed_def)

lemma framed_create_private_dir: "framed A (create_private_dir p)"
  by (simp add: framed_def frame.keeps_create_private_dir)

lemma framed_private_create: "p \<in> A \<Longrightarrow> framed A (private_create p)"
  by (simp add: framed_def frame.keeps_private_create)

lemma framed_write_chunks: "p \<in> A \<Longrightarrow> framed A (write_chunks p cs h n)"
  by (simp add: framed_def frame.keeps_write_chunks)

lemma framed_stat_existing: "framed A (stat_existing p n)"
  by (simp add: framed_def frame.keeps_stat_existing)

lemma framed_sync_dir: "framed A (sync_dir p)"
  by (simp add: framed_def frame.keeps_sync_dir)

lemma framed_flush: "framed A (io_call c (sys_call OpFlush))"
  unfolding framed_def by (intro allI frame.keeps_io_call frame.keeps_call) simp

section \<open>Publishing\<close>

lemma mkdirs_Err_content:
  "node_content (node_at (snd (perform (OpMkdirAll p) s)) q) = node_content (node_at s q)"
  by (simp add: perform.simps mkdirs_content)

lemma perform_Err_content:
  "fst (perform op s) = Err k \<Longrightarrow>
   node_content (node_at (snd (perform op s)) q) = node_content (node_at s q)"
  by (cases op) (auto simp: mkdirs_Err_content simp: perform.simps mkdirs_content
      split: option.splits node.splits bool.splits if_splits)

lemma rename_call_Err:
  assumes "sys_call (OpRename a b) s = (Err k, s')"
  shows "same_files {} s s'"
proof -
  obtain f s1 where f: "next_fault s = (f, s1)" by fastforce
  with assms perform_Err_content [of "OpRename a b" s1] show ?thesis
    by (auto simp: sys_call_def same_files_def file_at_def perform.simps(3)
        dest!: next_fault_fields split: fault.splits drop_time.splits)
qed

lemma rename_call_Ok:
  assumes "sys_call (OpRename a b) s = (Ok (), s')" "a \<noteq> b"
  shows "same_files {a, b} s s' \<and> file_at s' a = None \<and> file_at s' b = file_at s a"
proof -
  from sys_call_Ok [OF assms(1)] obtain s1 where
    s1: "node_at s1 = node_at s" "perform (OpRename a b) s1 = (Ok (), s')" by blast
  with perform_rename_content [OF assms(2), of s1] assms(2) show ?thesis
    by (simp add: same_files_def file_at_def)
qed

lemma stat_existing_Ok:
  "stat_existing p n s = (Ok b, s') \<Longrightarrow> node_at s' = node_at s
    \<and> (b \<longrightarrow> (\<exists>c. file_at s p = Some c \<and> of_nat (length c) = n))"
  by (auto simp: stat_existing_def symlink_metadata_def sys_look_def look_node_def outcome_simps
      file_at_def node_content_Some
      dest!: next_fault_fields split: prod.splits outcome.splits io_kind.splits fault.splits
      elim!: node_is_file.elims)

lemma same_files_node_at: "node_at s' = node_at s \<Longrightarrow> same_files A s s'"
  by (simp add: same_files_def file_at_def)

lemma stat_existing_same: "stat_existing p n s = (r, s') \<Longrightarrow> fs_late s = [] \<Longrightarrow> same_files {} s s'"
  using framedD [OF framed_stat_existing] by blast

lemma private_dir_same:
  "create_private_dir p s = (r, s') \<Longrightarrow> fs_late s = [] \<Longrightarrow> same_files {} s s' \<and> (r \<noteq> Panic \<longrightarrow> fs_late s' = [])"
  using framedD [OF framed_create_private_dir, of p s r s' "{}"]
    calmD [OF calm_create_private_dir, of p s r s'] by simp

lemma publish_Err:
  assumes "publish staging final key h n s = (Err e, s')" "fs_late s = []"
  shows "same_files {} s s'"
proof -
  from assms(1) consider "create_private_dir (butlast final) s = (Err e, s')"
    | s1 where "create_private_dir (butlast final) s = (Ok (), s1)"
        "stat_existing final n s1 = (Err e, s')"
    | s1 s2 k where "create_private_dir (butlast final) s = (Ok (), s1)"
        "stat_existing final n s1 = (Ok False, s2)" "sys_call (OpRename staging final) s2 = (Err k, s')"
    by (auto simp: publish_def outcome_simps io_call_def split: if_splits)
  then show ?thesis
  proof cases
    case 1
    with private_dir_same assms(2) show ?thesis by blast
  next
    case 2
    with private_dir_same [OF 2(1) assms(2)] stat_existing_same [OF 2(2)] show ?thesis
      by (auto intro: same_files_trans)
  next
    case 3
    with private_dir_same [OF 3(1) assms(2)] stat_existing_same [OF 3(2)] rename_call_Err [OF 3(3)]
    show ?thesis by (auto intro: same_files_trans)
  qed
qed

definition published ::
    "path \<Rightarrow> path \<Rightarrow> stored_object \<Rightarrow> fs \<Rightarrow> fs \<Rightarrow> bool" where
  "published staging final so s s' \<longleftrightarrow>
     (if so_already_present so
      then same_files {} s s' \<and> (\<exists>c. file_at s final = Some c \<and> of_nat (length c) = so_size_bytes so)
      else same_files {staging, final} s s' \<and> file_at s' staging = None
        \<and> file_at s' final = file_at s staging)"

lemma publish_Ok:
  assumes "publish staging final key h n s = (Ok ((so, dir), disarmed), s')"
    and "fs_late s = []" "staging \<noteq> final"
  shows "so_key so = key \<and> so_sha256 so = h \<and> so_size_bytes so = n
    \<and> disarmed = (\<not> so_already_present so) \<and> published staging final so s s'"
proof -
  from assms(1) obtain s1 b s2 where
    1: "create_private_dir (butlast final) s = (Ok (), s1)" and
    2: "stat_existing final n s1 = (Ok b, s2)" and
    3: "if b then s' = s2 \<and> disarmed = False \<and> so = \<lparr>so_key = key, so_sha256 = h,
            so_size_bytes = n, so_already_present = True\<rparr>
        else sys_call (OpRename staging final) s2 = (Ok (), s') \<and> disarmed = True
          \<and> so = \<lparr>so_key = key, so_sha256 = h, so_size_bytes = n, so_already_present = False\<rparr>"
    by (auto simp: publish_def outcome_simps io_call_def split: if_splits)
  from private_dir_same [OF 1 assms(2)] stat_existing_same [OF 2] stat_existing_Ok [OF 2]
  have same: "same_files {} s s2" and
    ex: "b \<Longrightarrow> \<exists>c. file_at s final = Some c \<and> of_nat (length c) = n"
    by (auto intro: same_files_trans simp: same_files_def)
  show ?thesis
  proof (cases b)
    case True
    with 3 same ex show ?thesis by (simp add: published_def)
  next
    case False
    with 3 rename_call_Ok [of staging final s2 s'] assms(3) same show ?thesis
      by (auto simp: published_def same_files_def)
  qed
qed

section \<open>Staging, then publishing\<close>

definition store_layout :: "fs_store \<Rightarrow> bool" where
  "store_layout st \<longleftrightarrow>
     objects_root st = root_dir st @ [OBJECTS_DIR] \<and> staging_root st = root_dir st @ [STAGING_DIR]"

definition object_path :: "externs \<Rightarrow> fs_store \<Rightarrow> object_namespace \<Rightarrow> ustr \<Rightarrow> path" where
  "object_path x st ns d = objects_root st @
     [lit ''bureau-'' @ uuid_to_string x (ns_bureau_id ns),
      lit ''partner-'' @ uuid_to_string x (ns_partner_id ns), take 2 d, d]"

definition content_digest :: "externs \<Rightarrow> bytes \<Rightarrow> ustr" where
  "content_digest x content = hex_lower (sha256_digest x content)"

lemma content_digest_hex: "sha256_documented x \<Longrightarrow> is_sha256_hex (content_digest x c)"
  by (simp add: content_digest_def fingerprint_is_sha256_hex sha256_documented_def)

lemma resolve_key_text:
  "uuid_documented x \<Longrightarrow> is_sha256_hex d \<Longrightarrow>
   resolve_within (objects_root st) (ObjectKey (key_text x ns d)) = Ok (object_path x st ns d)"
  using resolve_shape [of x "key_text x ns d"]
  by (simp add: key_shape_def split_key_text uuid_parse_display object_path_def)

lemma staging_ne_object: "store_layout st \<Longrightarrow> staging_path x st fresh \<noteq> object_path x st ns d"
  by (auto simp: store_layout_def staging_path_def object_path_def)

lemma object_path_is_object [simp]: "is_object_path (objects_root st) (object_path x st ns d)"
  by (simp add: is_object_path_def object_path_def)

lemma last_object_path [simp]: "last (object_path x st ns d) = d"
  by (simp add: object_path_def)

lemma staging_not_object: "store_layout st \<Longrightarrow> \<not> is_object_path (objects_root st) (staging_path x st fresh)"
  by (auto simp: store_layout_def staging_path_def is_object_path_def)

text \<open>The first part of \<^verbatim>\<open>put_stream\<close>: everything that is written goes to the staging file.\<close>

definition stage_body ::
    "path \<Rightarrow> chunk list \<Rightarrow> (fs, storage_error, bytes \<times> u64) stateful" where
  "stage_body staging body =
     st_then (private_create staging) (\<lambda>_.
     st_then (write_chunks staging body [] 0) (\<lambda>r.
     st_then (io_call ''flush staging file'' (sys_call OpFlush)) (\<lambda>_.
     st_then (io_call ''fsync staging file'' (sys_call OpFlush)) (\<lambda>_. st_ok r))))"

lemma st_then_assoc: "st_then (st_then m f) g = st_then m (\<lambda>a. st_then (f a) g)"
  by (auto simp: st_then_def split: prod.splits outcome.splits)

lemma st_then_st_ok [simp]: "st_then (st_ok a) f = f a"
  by (auto simp: st_then_def st_ok_def)

lemma put_staged_stage:
  "put_staged x st staging ns body =
     st_then (stage_body staging body) (\<lambda>(hasher, size_bytes).
       st_then (st_lift (key_for_digest x ns (content_digest x hasher))) (\<lambda>key.
       st_then (st_lift (resolve_within (objects_root st) key)) (\<lambda>final.
       publish staging final key (content_digest x hasher) size_bytes)))"
  by (simp add: put_staged_def stage_body_def st_then_assoc content_digest_def Let_def
      case_prod_unfold)

lemma calm_stage_body [calm_rules]: "calm (stage_body p body)"
  unfolding stage_body_def by (intro calm_rules)

lemma framed_stage_body: "framed {p} (stage_body p body)"
  unfolding framed_def stage_body_def
  by (intro allI frame.call_rules frame.keeps_call frame.keeps_private_create frame.keeps_write_chunks)
     simp_all

lemma stage_body_same:
  "stage_body p body s = (r, s') \<Longrightarrow> fs_late s = [] \<Longrightarrow>
   same_files {p} s s' \<and> (r \<noteq> Panic \<longrightarrow> fs_late s' = [])"
  using framedD [OF framed_stage_body, of p body s r s'] calmD [OF calm_stage_body, of p body s r s']
  by simp

lemma flush_node_at: "sys_call OpFlush s = (r, s') \<Longrightarrow> node_at s' = node_at s"
  by (auto simp: sys_call_def perform.simps node_at_def [abs_def]
      dest!: next_fault_fields split: prod.splits fault.splits drop_time.splits)

lemma stage_body_Ok:
  assumes "stage_body p body s = (Ok (h, n), s')"
  shows "\<exists>bss. body = map Ok bss \<and> h = concat bss \<and> n = of_nat (length (concat bss))
    \<and> file_at s' p = Some h"
proof -
  from assms obtain s1 s2 s3 where 1: "private_create p s = (Ok (), s1)"
    and 2: "write_chunks p body [] 0 s1 = (Ok (h, n), s2)"
    and 3: "sys_call OpFlush s2 = (Ok (), s3)" "sys_call OpFlush s3 = (Ok (), s')"
    by (auto simp: stage_body_def outcome_simps io_call_def)
  from write_chunks_Ok [OF 2 create_content [OF 1]] flush_node_at [OF 3(1)] flush_node_at [OF 3(2)]
  show ?thesis by (auto simp: file_at_def)
qed

lemma put_staged_publish:
  assumes "uuid_documented x" "sha256_documented x"
  shows "put_staged x st staging ns body =
     st_then (stage_body staging body) (\<lambda>(h, n).
       publish staging (object_path x st ns (content_digest x h))
         (ObjectKey (key_text x ns (content_digest x h))) (content_digest x h) n)"
  using assms
  by (auto simp: put_staged_stage key_for_digest_Ok content_digest_hex resolve_key_text
      st_then_def st_lift_def fun_eq_iff split: prod.splits outcome.splits)

lemma put_staged_Err:
  assumes "uuid_documented x" "sha256_documented x"
    and "put_staged x st staging ns body s = (Err e, s')" "fs_late s = []"
  shows "same_files {staging} s s'"
proof -
  from assms(3) consider "stage_body staging body s = (Err e, s')"
    | h n s1 where "stage_body staging body s = (Ok (h, n), s1)"
      "publish staging (object_path x st ns (content_digest x h))
         (ObjectKey (key_text x ns (content_digest x h))) (content_digest x h) n s1 = (Err e, s')"
    by (auto simp: put_staged_publish [OF assms(1,2)] outcome_simps)
  then show ?thesis
  proof cases
    case 1
    with stage_body_same assms(4) show ?thesis by blast
  next
    case 2
    with stage_body_same [OF 2(1) assms(4)] publish_Err [OF 2(2)] show ?thesis
      by (auto simp: same_files_def)
  qed
qed

lemma put_staged_Ok:
  assumes "uuid_documented x" "sha256_documented x" "store_layout st"
    and "put_staged x st (staging_path x st fresh) ns body s = (Ok ((so, dir), disarmed), s')"
    and "fs_late s = []"
  shows "\<exists>bss s1. body = map Ok bss \<and> same_files {staging_path x st fresh} s s1
    \<and> file_at s1 (staging_path x st fresh) = Some (concat bss)
    \<and> so_sha256 so = content_digest x (concat bss)
    \<and> so_key so = ObjectKey (key_text x ns (so_sha256 so))
    \<and> so_size_bytes so = of_nat (length (concat bss)) \<and> disarmed = (\<not> so_already_present so)
    \<and> published (staging_path x st fresh) (object_path x st ns (so_sha256 so)) so s1 s'"
proof -
  let ?st = "staging_path x st fresh"
  from assms(4) obtain h n s1 where 1: "stage_body ?st body s = (Ok (h, n), s1)"
    and 2: "publish ?st (object_path x st ns (content_digest x h))
         (ObjectKey (key_text x ns (content_digest x h))) (content_digest x h) n s1
           = (Ok ((so, dir), disarmed), s')"
    by (auto simp: put_staged_publish [OF assms(1,2)] outcome_simps)
  from stage_body_same [OF 1 assms(5)] have same: "same_files {?st} s s1" and late: "fs_late s1 = []"
    by auto
  from stage_body_Ok [OF 1] obtain bss where "body = map Ok bss" "h = concat bss"
    "n = of_nat (length (concat bss))" "file_at s1 ?st = Some h" by blast
  with publish_Ok [OF 2 late] staging_ne_object [OF assms(3)] same show ?thesis
    by (intro exI [of _ bss] exI [of _ s1]) simp
qed

lemma guard_drop_file:
  "file_at (guard_drop p s) q =
     (if q = p \<and> (fs_drop_faults s = [] \<or> \<not> hd (fs_drop_faults s)) then None else file_at s q)"
  by (cases "fs_drop_faults s")
     (auto simp: guard_drop_def sync_remove_def Let_def file_at_def perform_remove_content)

lemma calm_put_staged [calm_rules]: "calm (put_staged x st staging ns body)"
  unfolding put_staged_def Let_def case_prod_unfold by (intro calm_rules)

lemma sync_dir_result: "sync_dir d s = (r, s') \<Longrightarrow> r = Ok () \<or> r = Panic"
  by (auto simp: sync_dir_def ignore_err_def split: prod.splits outcome.splits)

lemma sync_dir_same: "sync_dir d s = (r, s') \<Longrightarrow> fs_late s = [] \<Longrightarrow> same_files {} s s'"
  using framedD [OF framed_sync_dir] by blast

lemma future_iff:
  "future m s = (Ok a, s') \<longleftrightarrow> m s = (Ok a, s')"
  "future m s = (Err e, s') \<longleftrightarrow> m s = (Err e, s')"
  "future m s = (Panic, s') \<longleftrightarrow> (\<exists>s1. m s = (Panic, s1) \<and> s' = run_late s1)"
  by (auto simp: future_def split: prod.splits outcome.splits)

lemma guarded_iff:
  "guarded p m s = (Ok a, s') \<longleftrightarrow>
     (\<exists>d s1. m s = (Ok (a, d), s1) \<and> s' = (if d then s1 else guard_drop p s1))"
  "guarded p m s = (Err e, s') \<longleftrightarrow> (\<exists>s1. m s = (Err e, s1) \<and> s' = guard_drop p s1)"
  "guarded p m s = (Panic, s') \<longleftrightarrow> (\<exists>s1. m s = (Panic, s1) \<and> s' = guard_drop p s1)"
  by (auto simp: guarded_def split: prod.splits outcome.splits)

lemma guard_drop_late [simp]: "fs_late (guard_drop p s) = fs_late s"
  by (simp add: guard_drop_def sync_remove_def Let_def split: list.split)

section \<open>The result of \<open>put_stream\<close>\<close>

lemma put_stream_failed:
  assumes "uuid_documented x" "sha256_documented x" "fs_late s = []"
    and "put_stream x st fresh ns body s = (Err e, s')"
  shows "same_files {staging_path x st fresh} s s'
    \<and> (fs_drop_faults s = [] \<longrightarrow> file_at s' (staging_path x st fresh) = None)"
proof -
  let ?st = "staging_path x st fresh"
  from assms(4) obtain s1 where 1: "put_staged x st ?st ns body s = (Err e, s1)"
    and 2: "s' = guard_drop ?st s1"
    by (auto simp: put_stream_def Let_def future_iff outcome_simps guarded_iff
        dest!: sync_dir_result split: option.splits)
  from put_staged_Err [OF assms(1,2) 1 assms(3)] calmD [OF calm_put_staged 1] 2
  show ?thesis by (auto simp: guard_drop_file same_files_def)
qed

text \<open>
  C18: A failed upload stores nothing. Whatever fails (the client's stream, any file system call), no
  file other than the staging file is created, changed or removed, and the staging file is gone
  unless its removal fails too.
\<close>

theorem put_stream_failure_atomic:
  assumes "uuid_documented x" "sha256_documented x" "fs_late s = []"
    and "put_stream x st fresh ns body s = (Err e, s')"
  shows "same_files {staging_path x st fresh} s s'
    \<and> (fs_drop_faults s = [] \<longrightarrow> file_at s' (staging_path x st fresh) = None)"
  using assms by (rule put_stream_failed)

lemma put_stream_success:
  assumes "uuid_documented x" "sha256_documented x" "store_layout st" "fs_late s = []"
    and "put_stream x st fresh ns body s = (Ok so, s')"
  shows "\<exists>bss. body = map Ok bss
    \<and> so_sha256 so = content_digest x (concat bss)
    \<and> so_size_bytes so = of_nat (length (concat bss))
    \<and> so_key so = ObjectKey (key_text x ns (so_sha256 so))
    \<and> same_files {staging_path x st fresh, object_path x st ns (so_sha256 so)} s s'
    \<and> (if so_already_present so
       then \<exists>c. file_at s (object_path x st ns (so_sha256 so)) = Some c
         \<and> of_nat (length c) = so_size_bytes so
         \<and> file_at s' (object_path x st ns (so_sha256 so)) = Some c
       else file_at s' (object_path x st ns (so_sha256 so)) = Some (concat bss))
    \<and> (fs_drop_faults s = [] \<longrightarrow> file_at s' (staging_path x st fresh) = None)"
proof -
  let ?st = "staging_path x st fresh" and ?ob = "object_path x st ns (so_sha256 so)"
  from assms(5) obtain so' dir s2 where
    g: "guarded ?st (put_staged x st ?st ns body) s = (Ok (so', dir), s2)" and
    3: "so' = so \<and> (case dir of None \<Rightarrow> s' = s2 | Some d \<Rightarrow> sync_dir d s2 = (Ok (), s'))"
    unfolding put_stream_def Let_def future_iff st_then_Ok case_prod_unfold
    by (fastforce simp: outcome_simps split: option.splits)
  from g 3 obtain disarmed s1 where
    1: "put_staged x st ?st ns body s = (Ok ((so, dir), disarmed), s1)" and
    2: "s2 = (if disarmed then s1 else guard_drop ?st s1)"
    unfolding guarded_iff by blast
  from calmD [OF calm_put_staged 1] assms(4) have late: "fs_late s1 = []"
    and drops: "fs_drop_faults s1 = fs_drop_faults s" by auto
  from late 2 have "fs_late s2 = []" by simp
  with 3 have sync: "same_files {} s2 s'"
    by (cases dir) (auto dest: sync_dir_same)
  from put_staged_Ok [OF assms(1-3) 1 assms(4)] obtain bss s0 where
    b: "body = map Ok bss" "so_sha256 so = content_digest x (concat bss)"
      "so_key so = ObjectKey (key_text x ns (so_sha256 so))"
      "so_size_bytes so = of_nat (length (concat bss))" "disarmed = (\<not> so_already_present so)" and
    s0: "same_files {?st} s s0" "file_at s0 ?st = Some (concat bss)" and
    pub: "published ?st ?ob so s0 s1"
    by blast
  have ne: "?st \<noteq> ?ob" by (rule staging_ne_object [OF assms(3)])
  have "same_files {?st, ?ob} s s'"
    using s0 pub 2 sync by (auto simp: published_def same_files_def guard_drop_file split: if_splits)
  moreover have "if so_already_present so
       then \<exists>c. file_at s ?ob = Some c \<and> of_nat (length c) = so_size_bytes so \<and> file_at s' ?ob = Some c
       else file_at s' ?ob = Some (concat bss)"
    using s0 pub 2 sync ne b(5)
    by (auto simp: published_def same_files_def guard_drop_file split: if_splits)
  moreover have "fs_drop_faults s = [] \<longrightarrow> file_at s' ?st = None"
    using pub 2 sync drops b(5)
    by (auto simp: published_def same_files_def guard_drop_file split: if_splits)
  ultimately show ?thesis using b by blast
qed


section \<open>Stored objects hash to their names\<close>

lemma stage_body_content:
  "\<not> is_object_path objs p \<Longrightarrow> st_keeps (safe_fs (content_ok x objs) (content_allowed objs)) (stage_body p body)"
  unfolding stage_body_def
  by (intro content.call_rules content.keeps_call content.keeps_private_create
      content.keeps_write_chunks) simp_all

lemma put_tail_staged:
  assumes "staging \<noteq> final" "last final = content_digest x h"
  shows "st_keeps (safe_fs (staged_ok x objs staging h) (staged_allowed x objs staging h))
    (future (st_then (guarded staging (publish staging final key d n))
      (\<lambda>(stored, to_sync). case to_sync of None \<Rightarrow> st_ok stored
         | Some dir \<Rightarrow> st_then (sync_dir dir) (\<lambda>_. st_ok stored))))"
proof -
  have sync: "st_keeps (safe_fs (staged_ok x objs staging h) (staged_allowed x objs staging h))
      (case to_sync of None \<Rightarrow> st_ok stored
         | Some dir \<Rightarrow> st_then (sync_dir dir) (\<lambda>_. st_ok stored))" for to_sync and stored :: stored_object
    by (cases to_sync) (auto intro!: keeps_rules staged.keeps_sync_dir)
  show ?thesis
    using assms
    by (intro staged.keeps_future keeps_rules staged.keeps_guarded staged.keeps_publish)
       (auto simp: content_digest_def intro: sync)
qed

lemma safe_fs_tree: "safe_fs P allowed s \<Longrightarrow> P (node_at s)"
  by (simp add: safe_fs_def)

lemma put_stream_keeps_content:
  assumes "uuid_documented x" "sha256_documented x" "store_layout st" "fs_late s = []"
    and "content_ok x (objects_root st) (node_at s)"
  shows "content_ok x (objects_root st) (node_at (snd (put_stream x st fresh ns body s)))"
proof -
  let ?st = "staging_path x st fresh" and ?objs = "objects_root st"
  let ?k = "\<lambda>(stored, to_sync). case to_sync of None \<Rightarrow> st_ok stored
         | Some dir \<Rightarrow> st_then (sync_dir dir) (\<lambda>_. st_ok stored)"
  let ?P = "\<lambda>h n. publish ?st (object_path x st ns (content_digest x h))
         (ObjectKey (key_text x ns (content_digest x h))) (content_digest x h) n"
  have put: "put_stream x st fresh ns body =
      future (st_then (guarded ?st (st_then (stage_body ?st body) (\<lambda>(h, n). ?P h n))) ?k)"
    by (simp add: put_stream_def Let_def put_staged_publish [OF assms(1,2)])
  have no: "\<not> is_object_path ?objs ?st" using assms(3) by (rule staging_not_object)
  obtain r s1 where stage: "stage_body ?st body s = (r, s1)" by fastforce
  have "safe_fs (content_ok x ?objs) (content_allowed ?objs) s"
    using assms(4,5) by (simp add: safe_fs_def)
  with stage_body_content [OF no, of x body] stage
  have s1: "safe_fs (content_ok x ?objs) (content_allowed ?objs) s1" by (blast intro: st_keepsD)
  have drop: "safe_fs (content_ok x ?objs) (content_allowed ?objs) (guard_drop ?st s1)"
    using s1 by (intro content.safe_guard_drop) simp_all
  show ?thesis
  proof (cases r)
    case (Err e)
    with stage put drop show ?thesis
      by (simp add: future_def st_then_def guarded_def safe_fs_def)
  next
    case Panic
    with stage put content.safe_run_late [OF drop] show ?thesis
      by (simp add: future_def st_then_def guarded_def safe_fs_def)
  next
    case (Ok hn)
    obtain h n where hn: "hn = (h, n)" by (cases hn)
    have "file_at s1 ?st = Some h" using stage_body_Ok stage Ok hn by blast
    moreover have "fs_late s1 = []" using stage_body_same [OF stage assms(4)] Ok by simp
    ultimately have "safe_fs (staged_ok x ?objs ?st h) (staged_allowed x ?objs ?st h) s1"
      using s1 by (simp add: safe_fs_def staged_ok_def file_at_def)
    moreover have "put_stream x st fresh ns body s = future (st_then (guarded ?st (?P h n)) ?k) s1"
      using stage Ok hn by (simp add: put future_def st_then_def guarded_def)
    ultimately have "safe_fs (staged_ok x ?objs ?st h) (staged_allowed x ?objs ?st h)
        (snd (put_stream x st fresh ns body s))"
      using st_keeps_snd [OF put_tail_staged [OF staging_ne_object [OF assms(3)] last_object_path]]
      by (simp only:)
    then have "staged_ok x ?objs ?st h (node_at (snd (put_stream x st fresh ns body s)))"
      by (rule safe_fs_tree)
    then show ?thesis by (simp add: staged_ok_def)
  qed
qed

text \<open>
  C17: Stored objects stay content addressed. If every file at the place of an object hashes to its own
  name, then so it is after an upload, however it ends: stored, refused, failed in any call, or
  dropped by the client while any call was in flight.
\<close>

theorem put_stream_content_addressed:
  assumes "uuid_documented x" "sha256_documented x" "store_layout st" "fs_late s = []"
    and "content_ok x (objects_root st) (node_at s)"
  shows "content_ok x (objects_root st) (node_at (snd (put_stream x st fresh ns body s)))"
  using assms by (rule put_stream_keeps_content)

section \<open>A concrete store\<close>

definition sample_store :: fs_store where
  "sample_store = \<lparr>root_dir = [lit ''r''], objects_root = [lit ''r'', lit ''objects''],
     staging_root = [lit ''r'', lit ''staging'']\<rparr>"

definition sample_fs :: fs where
  "sample_fs = \<lparr>fs_tree = [([], Dir 0), ([lit ''r''], Dir 0), ([lit ''r'', lit ''objects''], Dir 0),
      ([lit ''r'', lit ''staging''], Dir 0)],
     fs_faults = [], fs_late = [], fs_drop_faults = [], fs_now = 5, fs_dir_mode = 0\<rparr>"

definition sample_ns :: object_namespace where
  "sample_ns = \<lparr>ns_bureau_id = 1, ns_partner_id = 2\<rparr>"

definition sample_body :: "chunk list" where
  "sample_body = [Ok [0x25, 0x50], Ok [0x44]]"

lemma sample_layout: "store_layout sample_store"
  by (simp add: store_layout_def sample_store_def OBJECTS_DIR_def STAGING_DIR_def)

lemma sample_idle [simp]: "fs_late sample_fs = []" "fs_drop_faults sample_fs = []"
  by (simp_all add: sample_fs_def)

lemma sample_put_ok: "is_ok (fst (put_stream sample_externs sample_store 7 sample_ns sample_body sample_fs))"
  by code_simp

lemma sample_put_err:
  "fst (put_stream sample_externs sample_store 7 sample_ns [Ok [1], Err (stream_too_large [])] sample_fs)
     = Err (StorageStream (stream_too_large []))"
  by code_simp

lemma sample_content_ok: "content_ok sample_externs (objects_root sample_store) (node_at sample_fs)"
  by (auto simp: content_ok_def node_content_Some node_at_def sample_fs_def is_object_path_def
      sample_store_def split: if_splits)

lemma put_stream_failure_atomic_witness:
  "same_files {staging_path sample_externs sample_store 7} sample_fs
     (snd (put_stream sample_externs sample_store 7 sample_ns [Ok [1], Err (stream_too_large [])] sample_fs))"
  using put_stream_failure_atomic [OF sample_uuid_documented sample_sha256_documented sample_idle(1)]
    sample_put_err
  by (metis prod.collapse)


lemma put_stream_content_addressed_witness:
  "content_ok sample_externs (objects_root sample_store)
     (node_at (snd (put_stream sample_externs sample_store 7 sample_ns sample_body sample_fs)))"
  by (rule put_stream_content_addressed [OF sample_uuid_documented sample_sha256_documented
        sample_layout sample_idle(1) sample_content_ok])

end
