(* ===== verification/StoreOps.thy ===== *)
theory StoreOps
  imports StorePut
begin

text \<open>
  Reading, deleting, sweeping and listing: the other operations of the object store and how they
  fit what \<^verbatim>\<open>put_stream\<close> wrote.
\<close>

section \<open>Calls that only look\<close>

lemma sys_look_result:
  "sys_look look s = (Ok a, s') \<Longrightarrow> (\<exists>s1. node_at s1 = node_at s \<and> fs_tree s1 = fs_tree s \<and> look s1 = Ok a)
     \<and> node_at s' = node_at s"
  by (auto simp: sys_look_def dest!: next_fault_fields split: prod.splits fault.splits)

lemma sys_look_node_at: "sys_look look s = (r, s') \<Longrightarrow> node_at s' = node_at s"
  by (auto simp: sys_look_def dest!: next_fault_fields split: prod.splits fault.splits)

lemma stat_Ok: "symlink_metadata p s = (Ok n, s') \<Longrightarrow> node_at s p = Some n \<and> node_at s' = node_at s"
  by (auto simp: symlink_metadata_def look_node_def outcome_simps dest!: sys_look_result)

lemma stat_NotFound:
  "symlink_metadata p s = (Err IoNotFound, s') \<Longrightarrow> node_at s p = None \<and> node_at s' = node_at s"
  by (auto simp: symlink_metadata_def look_node_def outcome_simps sys_look_def
      dest!: next_fault_fields split: prod.splits fault.splits)

lemma stat_node_at: "symlink_metadata p s = (r, s') \<Longrightarrow> node_at s' = node_at s"
  by (simp add: symlink_metadata_def sys_look_node_at)

lemma sys_look_fine: "fs_faults s = [] \<Longrightarrow> sys_look look s = (look s, s)"
  by (simp add: sys_look_def next_fault_def)

lemma sys_call_fine: "fs_faults s = [] \<Longrightarrow> sys_call op s = perform op s"
  by (simp add: sys_call_def next_fault_def)

lemma children_mem: "node_at s (d @ [name]) \<noteq> None \<Longrightarrow> name \<in> set (children d s)"
  unfolding children_def node_at_def
  by (force dest!: not_None_eq [THEN iffD1] map_of_SomeD intro!: image_eqI [of _ _ "d @ [name]"])

section \<open>Reading\<close>

lemma node_is_file_content: "node_is_file n \<Longrightarrow> \<exists>m c t. n = File m c t"
  by (cases n) auto

lemma open_object_Ok:
  assumes "open_object st k s = (Ok b, s')"
  shows "\<exists>p. resolve_within (objects_root st) k = Ok p \<and> file_at s p = Some (ob_content b)
    \<and> ob_size_bytes b = of_nat (length (ob_content b)) \<and> node_at s' = node_at s"
proof -
  from assms obtain p n s1 n' where p: "resolve_within (objects_root st) k = Ok p"
    and st: "symlink_metadata p s = (Ok n, s1)" and f: "node_is_file n"
    and op: "sys_look (look_node p) s1 = (Ok n', s')"
    and b: "b = \<lparr>ob_size_bytes = of_nat (node_len n),
              ob_content = (case n' of File m c t \<Rightarrow> c | _ \<Rightarrow> [])\<rparr>"
    by (auto simp: open_object_def stat_object_def outcome_simps io_call_def split: if_splits)
  from stat_Ok [OF st] have n: "node_at s p = Some n" "node_at s1 = node_at s" by auto
  with sys_look_result [OF op] have "n' = n" "node_at s' = node_at s"
    by (auto simp: look_node_def outcome_simps)
  with p b f n show ?thesis
    by (auto simp: file_at_def dest!: node_is_file_content)
qed

lemma open_object_present:
  assumes "resolve_within (objects_root st) k = Ok p" "file_at s p = Some c" "fs_faults s = []"
  shows "open_object st k s = (Ok \<lparr>ob_size_bytes = of_nat (length c), ob_content = c\<rparr>, s)"
  using assms
  by (auto simp: open_object_def stat_object_def st_then_def st_lift_def st_ok_def io_call_def st_map_err_def
      symlink_metadata_def sys_look_fine look_node_def file_at_def node_content_Some)

lemma open_object_absent:
  assumes "resolve_within (objects_root st) k = Ok p" "node_at s p = None" "fs_faults s = []"
  shows "open_object st k s = (Err (StorageNotFound (key_str k)), s)"
  using assms
  by (auto simp: open_object_def stat_object_def st_map_err_def st_then_def st_lift_def symlink_metadata_def sys_look_fine
      look_node_def)

lemma content_okD:
  "content_ok x objs f \<Longrightarrow> is_object_path objs p \<Longrightarrow> node_content (f p) = Some c
    \<Longrightarrow> last p = content_digest x c"
  by (simp add: content_ok_def content_digest_def)

text \<open>
  What was stored is readable. After a successful upload into a content-addressed store, with no
  further failure, opening the returned key yields content of the returned size whose digest is
  the returned one; a copy that was written by this upload is exactly the uploaded bytes.
\<close>

theorem put_then_open:
  assumes "uuid_documented x" "sha256_documented x" "store_layout st" "fs_late s = []"
    and "content_ok x (objects_root st) (node_at s)"
    and "put_stream x st fresh ns body s = (Ok so, s')" "fs_faults s' = []"
  shows "\<exists>b. open_object st (so_key so) s' = (Ok b, s') \<and> ob_size_bytes b = so_size_bytes so
    \<and> content_digest x (ob_content b) = so_sha256 so
    \<and> (\<not> so_already_present so \<longrightarrow> (\<exists>bss. body = map Ok bss \<and> concat bss = ob_content b))"
proof -
  from put_stream_success [OF assms(1-4,6)] obtain bss where
    b: "body = map Ok bss" "so_sha256 so = content_digest x (concat bss)"
      "so_size_bytes so = of_nat (length (concat bss))"
      "so_key so = ObjectKey (key_text x ns (so_sha256 so))"
    and stored: "if so_already_present so
       then \<exists>c. file_at s (object_path x st ns (so_sha256 so)) = Some c
         \<and> of_nat (length c) = so_size_bytes so
         \<and> file_at s' (object_path x st ns (so_sha256 so)) = Some c
       else file_at s' (object_path x st ns (so_sha256 so)) = Some (concat bss)"
    by blast
  let ?p = "object_path x st ns (so_sha256 so)"
  have p: "resolve_within (objects_root st) (so_key so) = Ok ?p"
    unfolding b(4) using assms(1,2) b(2) by (simp add: resolve_key_text content_digest_hex)
  show ?thesis
  proof (cases "so_already_present so")
    case True
    with stored obtain c where c: "file_at s ?p = Some c" "of_nat (length c) = so_size_bytes so"
      "file_at s' ?p = Some c" by auto
    have "last ?p = content_digest x c"
      using content_okD [OF assms(5) object_path_is_object] c(1) by (simp add: file_at_def)
    with open_object_present [OF p c(3) assms(7)] c(2) True show ?thesis by simp
  next
    case False
    with stored have "file_at s' ?p = Some (concat bss)" by simp
    from open_object_present [OF p this assms(7)] b False show ?thesis by auto
  qed
qed

lemma put_then_open_witness:
  "\<exists>so s' b. put_stream sample_externs sample_store 7 sample_ns sample_body sample_fs = (Ok so, s')
    \<and> open_object sample_store (so_key so) s' = (Ok b, s') \<and> ob_size_bytes b = so_size_bytes so"
proof -
  let ?put = "put_stream sample_externs sample_store 7 sample_ns sample_body sample_fs"
  obtain so s' where ok: "?put = (Ok so, s')"
    using sample_put_ok by (metis is_ok_iff prod.collapse)
  have "fs_faults (snd ?put) = []" by code_simp
  with ok have "fs_faults s' = []" by simp
  from put_then_open [OF sample_uuid_documented sample_sha256_documented sample_layout
      sample_idle(1) sample_content_ok ok this] ok
  show ?thesis by blast
qed

section \<open>Namespaces do not touch each other\<close>

lemma object_path_namespace:
  assumes "uuid_documented x" "is_sha256_hex d" "object_key_parse x raw = Ok k"
    and "resolve_within (objects_root st) k = Ok (object_path x st ns d)"
  shows "key_namespace x k = Ok ns"
proof -
  have "object_key_parse x (key_text x ns d) = Ok (ObjectKey (key_text x ns d))"
    using key_for_digest_Ok [OF assms(1,2), of ns] assms(1,2)
    by (simp add: key_for_digest_def slice_sha256 key_text_def)
  from resolve_within_inj [OF assms(3) this, of "objects_root st"] assms(4)
  have "k = ObjectKey (key_text x ns d)"
    using resolve_key_text [OF assms(1,2)] by simp
  then show ?thesis using key_text_roundtrip [OF assms(1,2)] by simp
qed

lemma framed_put_stream:
  assumes "uuid_documented x" "sha256_documented x" "staging_path x st fresh \<in> A"
    and "\<And>d. is_sha256_hex d \<Longrightarrow> object_path x st ns d \<in> A"
  shows "framed A (put_stream x st fresh ns body)"
proof -
  have stage: "st_keeps (safe_fs (frame_kept A g) (frame_allowed A)) (stage_body (staging_path x st fresh) body)"
    for g
    unfolding stage_body_def using assms(3)
    by (intro frame.call_rules frame.keeps_call frame.keeps_private_create frame.keeps_write_chunks)
       simp_all
  have tail: "st_keeps (safe_fs (frame_kept A g) (frame_allowed A))
      (case to_sync of None \<Rightarrow> st_ok stored
         | Some dir \<Rightarrow> st_then (sync_dir dir) (\<lambda>_. st_ok stored))" for g to_sync and stored :: stored_object
    by (cases to_sync) (auto intro!: keeps_rules frame.keeps_sync_dir)
  have "st_keeps (safe_fs (frame_kept A g) (frame_allowed A)) (put_stream x st fresh ns body)" for g
    unfolding put_stream_def Let_def put_staged_publish [OF assms(1,2)] case_prod_unfold
    using assms(3) assms(4) [OF content_digest_hex [OF assms(2)]]
    by (intro frame.keeps_future keeps_rules frame.keeps_guarded frame.keeps_publish stage tail)
       simp_all
  then show ?thesis by (simp add: framed_def)
qed

text \<open>
  Tenants never share or touch each other's originals. An upload into one namespace, however it
  ends, leaves the file of every valid key of any other namespace (bureau or partner) exactly as
  it was.
\<close>

theorem put_stream_tenant_isolation:
  assumes "uuid_documented x" "sha256_documented x" "store_layout st" "fs_late s = []"
    and "object_key_parse x raw = Ok k" "key_namespace x k \<noteq> Ok ns"
    and "resolve_within (objects_root st) k = Ok p"
  shows "file_at (snd (put_stream x st fresh ns body s)) p = file_at s p"
proof -
  have "p \<noteq> object_path x st ns d" if "is_sha256_hex d" for d
    using object_path_namespace [OF assms(1) that assms(5), of st ns] assms(6,7) by auto
  moreover have "p \<noteq> staging_path x st fresh"
  proof
    assume "p = staging_path x st fresh"
    moreover have "is_object_path (objects_root st) p"
      using parsed_key_resolves [OF assms(5), of "objects_root st"] assms(7)
      by (auto simp: is_object_path_def)
    ultimately show False using staging_not_object [OF assms(3)] by simp
  qed
  ultimately have "framed (- {p}) (put_stream x st fresh ns body)"
    using assms(1,2) by (intro framed_put_stream) auto
  from framedD [OF this prod.collapse [symmetric] assms(4)] show ?thesis
    by (simp add: same_files_def)
qed

lemma put_stream_tenant_isolation_witness:
  "file_at (snd (put_stream sample_externs sample_store 7 sample_ns sample_body sample_fs))
     (object_path sample_externs sample_store \<lparr>ns_bureau_id = 1, ns_partner_id = 3\<rparr>
        (content_digest sample_externs [])) = None"
proof -
  let ?ns = "\<lparr>ns_bureau_id = 1, ns_partner_id = 3\<rparr>" and ?d = "content_digest sample_externs []"
  have d: "is_sha256_hex ?d" using sample_sha256_documented by (rule content_digest_hex)
  have k: "object_key_parse sample_externs (key_text sample_externs ?ns ?d)
      = Ok (ObjectKey (key_text sample_externs ?ns ?d))"
    using key_for_digest_Ok [OF sample_uuid_documented d, of ?ns] d
    by (simp add: key_for_digest_def slice_sha256 key_text_def)
  have ns: "key_namespace sample_externs (ObjectKey (key_text sample_externs ?ns ?d)) \<noteq> Ok sample_ns"
    using key_text_roundtrip(1) [OF sample_uuid_documented d, of ?ns] by (simp add: sample_ns_def)
  have "file_at sample_fs (object_path sample_externs sample_store ?ns ?d) = None"
    by (simp add: file_at_def node_at_def sample_fs_def object_path_def sample_store_def)
  with put_stream_tenant_isolation [OF sample_uuid_documented sample_sha256_documented sample_layout
      sample_idle(1) k ns resolve_key_text [OF sample_uuid_documented d]]
  show ?thesis by simp
qed

section \<open>Deleting\<close>

lemma perform_remove_Ok: "perform (OpRemove p) s = (Ok (), s') \<Longrightarrow> node_at s' p = None"
  by (auto simp: perform.simps split: option.splits node.splits)

lemma remove_call_cases:
  assumes "sys_call (OpRemove p) s = (r, s')" "r \<noteq> Panic"
  shows "(r = Ok () \<and> node_at s' p = None \<and> same_files {p} s s')
    \<or> (r = Err IoNotFound \<and> node_at s p = None \<and> node_at s' = node_at s)
    \<or> (r = Err IoOther \<and> node_at s' = node_at s)"
proof -
  obtain f s1 where f: "next_fault s = (f, s1)" by fastforce
  then have s1: "node_at s1 = node_at s" by (auto dest: next_fault_fields)
  have "perform (OpRemove p) s1 = (r', s2) \<Longrightarrow>
      (r' = Ok () \<and> node_at s2 p = None \<and> same_files {p} s s2)
    \<or> (r' = Err IoNotFound \<and> node_at s p = None \<and> node_at s2 = node_at s)
    \<or> (r' = Err IoOther \<and> node_at s2 = node_at s)" for r' s2
    using s1 by (auto simp: perform.simps same_files_def file_at_def
        split: option.splits node.splits)
  with assms f s1 show ?thesis
    by (auto simp: sys_call_def perform.simps(3) split: fault.splits drop_time.splits)
qed

text \<open>
  Deleting is idempotent and exact. A delete that succeeds leaves no file at the key (opening it
  then reports that the object is not found, and deleting it again succeeds without a change) and
  touches no other file; a delete that fails changes no file.
\<close>

theorem delete_object_exact:
  assumes "object_key_parse x raw = Ok k" "resolve_within (objects_root st) k = Ok p"
    and "delete_object st k s = (r, s')" "r \<noteq> Panic"
  shows "same_files {p} s s'
    \<and> (if r = Ok () then node_at s' p = None
        \<and> (fs_faults s' = [] \<longrightarrow> open_object st k s' = (Err (StorageNotFound (key_str k)), s')
            \<and> delete_object st k s' = (Ok (), s'))
       else same_files {} s s')"
proof -
  obtain r' s1 where c: "sys_call (OpRemove p) s = (r', s1)" by fastforce
  with assms(2-4) have r': "r' \<noteq> Panic" and s1: "s' = s1"
    and r: "r = (case r' of Ok u \<Rightarrow> Ok () | Err IoNotFound \<Rightarrow> Ok ()
        | Err k \<Rightarrow> Err (StorageIo (lit ''delete object'') k) | Panic \<Rightarrow> Panic)"
    by (auto simp: delete_object_def future_def st_then_def st_lift_def
        split: outcome.splits io_kind.splits)
  from remove_call_cases [OF c r'] have
    "(r = Ok () \<and> node_at s' p = None \<and> same_files {p} s s')
    \<or> (r \<noteq> Ok () \<and> same_files {} s s')"
    using r s1 by (auto simp: same_files_def file_at_def)
  moreover have "delete_object st k s' = (Ok (), s')" if "node_at s' p = None" "fs_faults s' = []"
    using that assms(2)
    by (simp add: delete_object_def future_def st_then_def st_lift_def sys_call_fine perform.simps)
  moreover have "same_files {} s s' \<Longrightarrow> same_files {p} s s'" by (simp add: same_files_def)
  ultimately show ?thesis using open_object_absent [OF assms(2)] by auto
qed

lemma delete_object_exact_witness:
  "\<exists>p. node_at (snd (delete_object sample_store
      (ObjectKey (key_text sample_externs sample_ns (content_digest sample_externs [1]))) sample_fs)) p = None"
proof -
  let ?d = "content_digest sample_externs [1]"
  let ?k = "ObjectKey (key_text sample_externs sample_ns ?d)"
  let ?p = "object_path sample_externs sample_store sample_ns ?d"
  have d: "is_sha256_hex ?d" using sample_sha256_documented by (rule content_digest_hex)
  have "node_at sample_fs ?p = None"
    by (simp add: node_at_def sample_fs_def object_path_def sample_store_def)
  then have del: "delete_object sample_store ?k sample_fs = (Ok (), sample_fs)"
    using resolve_key_text [OF sample_uuid_documented d, of sample_store sample_ns]
    by (simp add: delete_object_def future_def st_then_def st_lift_def sys_call_fine perform.simps
        sample_fs_def)
  from delete_object_exact [OF key_text_parses [OF sample_uuid_documented d]
      resolve_key_text [OF sample_uuid_documented d] del]
  show ?thesis using del by auto
qed

end
