(* ===== verification/Upload.thy ===== *)
theory Upload
  imports Auth Validate StoreOps
begin

text \<open>
  \<^verbatim>\<open>crates/otdel-api/src/upload.rs\<close>: the streaming intake of one original file.

  The \<^verbatim>\<open>Multipart\<close> extractor is the crate's; a multipart body is the list of what its
  \<^verbatim>\<open>next_field\<close> yields, a field its names and the list of what its \<^verbatim>\<open>chunk\<close> yields. In both lists
  \<open>Err\<close> is a parse or transport error and \<open>Panic\<close> stands for the request going away, which drops
  the handler there. \<open>world\<close> is what a handler can change: the database, the file system, the
  throttle, and the log lines that report an object that was stored and not recorded.
\<close>

record world =
  w_db :: db
  w_fs :: fs
  w_throttle :: throttle_state
  w_reported :: "stored_object list"

definition on_db :: "(db, 'e, 'a) stateful \<Rightarrow> (world, 'e, 'a) stateful" where
  "on_db m w = (case m (w_db w) of (r, d) \<Rightarrow> (r, w\<lparr>w_db := d\<rparr>))"

definition on_fs :: "(fs, 'e, 'a) stateful \<Rightarrow> (world, 'e, 'a) stateful" where
  "on_fs m w = (case m (w_fs w) of (r, s) \<Rightarrow> (r, w\<lparr>w_fs := s\<rparr>))"

type_synonym field_chunk = "(unit, bytes) outcome"

record field =
  field_name :: "ustr option"
  field_file_name :: "ustr option"
  field_content_type :: "ustr option"
  field_chunks :: "field_chunk list"

type_synonym multipart = "(unit, field) outcome list"

definition MAX_OTHER_FIELD_BYTES :: u64 where
  "MAX_OTHER_FIELD_BYTES = 64 * 1024"

record received_file =
  rf_filename :: ustr
  rf_media_type :: media_type
  rf_stored :: stored_object

definition interrupted :: api_error where
  "interrupted = api_error_new (ae_bad_request
     (lit ''the upload was interrupted before the file was fully received''))"

definition report_orphaned_object :: "stored_object \<Rightarrow> world \<Rightarrow> world" where
  "report_orphaned_object stored w =
     (if so_already_present stored then w else w\<lparr>w_reported := w_reported w @ [stored]\<rparr>)"

section \<open>One file\<close>

text \<open>The rest of a field as a stream; it ends at the first error.\<close>

fun field_stream :: "field_chunk list \<Rightarrow> chunk list" where
  "field_stream [] = []"
| "field_stream (Ok c # cs) = Ok c # field_stream cs"
| "field_stream (Err e # cs) =
     [Err (stream_upstream (lit ''the upload was interrupted before the file was fully received''))]"
| "field_stream (Panic # cs) = [Panic]"

fun limit_size :: "u64 \<Rightarrow> u64 \<Rightarrow> chunk list \<Rightarrow> chunk list" where
  "limit_size max_bytes written [] = []"
| "limit_size max_bytes written (Ok c # cs) =
     (let written = written + of_nat (length c)
      in if written > max_bytes then
           [Err (stream_too_large (lit ''file exceeds the '' @ dec (unat max_bytes) @ lit ''-byte upload limit''))]
         else Ok c # limit_size max_bytes written cs)"
| "limit_size max_bytes written (Err e # cs) = [Err e]"
| "limit_size max_bytes written (Panic # cs) = [Panic]"

text \<open>The loop that holds back enough bytes to recognise the signature.\<close>

fun hold_back ::
    "bytes \<Rightarrow> bytes list \<Rightarrow> field_chunk list \<Rightarrow> (api_error, bytes \<times> bytes list \<times> field_chunk list) outcome"
  where
  "hold_back pre head [] = Ok (pre, head, [])"
| "hold_back pre head (c # cs) =
     (if length pre < signature_prefix_len then
        (case c of
           Ok b \<Rightarrow> hold_back (pre @ b) (head @ [b]) cs
         | Err e \<Rightarrow> Err interrupted
         | Panic \<Rightarrow> Panic)
      else Ok (pre, head, c # cs))"

text \<open>The format of a file: its content decides, and a declared type must not contradict it.\<close>

definition decide_type :: "bytes \<Rightarrow> ustr option \<Rightarrow> (api_error, media_type) outcome" where
  "decide_type pre declared_type =
     (if pre = [] then Err (api_error_new (ae_validation (lit ''the uploaded file is empty'')))
      else and_then (ok_or (api_error_new (app_error_new UnsupportedMediaType
             (lit ''file content is not one of the formats accepted in this phase ('' @ media_accepted_list @ lit '')'')))
             (media_detect pre)) (\<lambda>m.
        case Option.bind declared_type media_parse of
          None \<Rightarrow> Ok m
        | Some parsed \<Rightarrow>
            if parsed \<noteq> m then
              Err (api_error_new (app_error_new UnsupportedMediaType
                (lit ''declared content type `'' @ media_as_str parsed
                 @ lit ''` does not match the file content ('' @ media_as_str m @ lit '')'')))
            else Ok m))"

definition read_file_field ::
    "externs \<Rightarrow> config \<Rightarrow> fs_store \<Rightarrow> uuid \<Rightarrow> object_namespace \<Rightarrow> field
      \<Rightarrow> (world, api_error, received_file) stateful" where
  "read_file_field x c st fresh ns f =
     st_then (st_lift (hold_back [] [] (field_chunks f))) (\<lambda>(pre, head, rest).
     st_then (st_lift (decide_type pre (field_content_type f))) (\<lambda>m.
     let filename = display_filename (case field_file_name f of Some n \<Rightarrow> n | None \<Rightarrow> []) m;
         body = limit_size (max_upload_bytes c) 0 (map Ok head @ field_stream rest)
     in st_then (st_map_err api_of_storage (on_fs (put_stream x st fresh ns body))) (\<lambda>stored.
        st_ok \<lparr>rf_filename = filename, rf_media_type = m, rf_stored = stored\<rparr>)))"

section \<open>The whole request\<close>

text \<open>A field that is not the file is drained, up to a bound shared by all such fields.\<close>

fun drain_other :: "u64 \<Rightarrow> field_chunk list \<Rightarrow> (api_error, u64) outcome" where
  "drain_other other_field_bytes [] = Ok other_field_bytes"
| "drain_other other_field_bytes (Ok c # cs) =
     (let other_field_bytes = other_field_bytes + of_nat (length c)
      in if other_field_bytes > MAX_OTHER_FIELD_BYTES then
           Err (api_error_new (app_error_new PayloadTooLarge
             (lit ''unexpected form fields are too large; send only the `file` part'')))
         else drain_other other_field_bytes cs)"
| "drain_other other_field_bytes (Err e # cs) = Err interrupted"
| "drain_other other_field_bytes (Panic # cs) = Panic"

fun receive_fields ::
    "externs \<Rightarrow> config \<Rightarrow> fs_store \<Rightarrow> uuid \<Rightarrow> object_namespace \<Rightarrow> received_file option \<Rightarrow> u64
      \<Rightarrow> multipart \<Rightarrow> (world, api_error, received_file) stateful" where
  "receive_fields x c st fresh ns received other_field_bytes [] =
     st_lift (ok_or (api_error_new (ae_validation (lit ''multipart request must contain a `file` part'')))
       received)"
| "receive_fields x c st fresh ns received other_field_bytes (Err e # fs) =
     st_err (api_error_new (ae_bad_request (lit ''request body is not valid multipart form data'')))"
| "receive_fields x c st fresh ns received other_field_bytes (Panic # fs) = st_lift Panic"
| "receive_fields x c st fresh ns received other_field_bytes (Ok f # fs) =
     (if field_name f \<noteq> Some (lit ''file'') then
        st_then (st_lift (drain_other other_field_bytes (field_chunks f))) (\<lambda>other_field_bytes.
          receive_fields x c st fresh ns received other_field_bytes fs)
      else
        (case received of
           Some previous \<Rightarrow>
             (\<lambda>w. (Err (api_error_new (ae_validation (lit ''send exactly one file per request''))),
                report_orphaned_object (rf_stored previous) w))
         | None \<Rightarrow>
             st_then (read_file_field x c st fresh ns f) (\<lambda>r.
               receive_fields x c st fresh ns (Some r) other_field_bytes fs)))"

definition receive_file ::
    "externs \<Rightarrow> config \<Rightarrow> fs_store \<Rightarrow> uuid \<Rightarrow> object_namespace \<Rightarrow> multipart
      \<Rightarrow> (world, api_error, received_file) stateful" where
  "receive_file x c st fresh ns body = receive_fields x c st fresh ns None 0 body"

section \<open>The size limit\<close>

text \<open>A slice never has more than \<open>2 ^ 63 - 1\<close> bytes.\<close>

definition chunk_sized :: "('e, bytes) outcome \<Rightarrow> bool" where
  "chunk_sized c \<longleftrightarrow> (\<forall>b. c = Ok b \<longrightarrow> length b < 2 ^ 63)"

fun passed :: "chunk list \<Rightarrow> bytes" where
  "passed [] = []"
| "passed (Ok c # cs) = c @ passed cs"
| "passed (Err e # cs) = []"
| "passed (Panic # cs) = []"

lemma unat_add_length:
  assumes "unat (w :: u64) < 2 ^ 63" "length (b :: bytes) < 2 ^ 63"
  shows "unat (w + of_nat (length b)) = unat w + length b"
proof -
  have l: "unat (of_nat (length b) :: u64) = length b"
    using assms(2) by (simp add: unat_of_nat take_bit_eq_mod)
  with assms have "unat w + unat (of_nat (length b) :: u64) < 2 ^ 64" by simp
  then have "unat (w + of_nat (length b)) = unat w + unat (of_nat (length b) :: u64)"
    by (simp add: unat_word_ariths)
  with l show ?thesis by simp
qed

lemma limit_size_passed:
  assumes "list_all chunk_sized cs" "unat written \<le> unat max_bytes" "unat max_bytes < 2 ^ 63"
  shows "unat written + length (passed (limit_size max_bytes written cs)) \<le> unat max_bytes
    \<and> prefix (passed (limit_size max_bytes written cs)) (passed cs)"
  using assms
proof (induction max_bytes written cs rule: limit_size.induct)
  case (2 max_bytes written c cs)
  then have len: "length c < 2 ^ 63" by (simp add: chunk_sized_def)
  have sum: "unat (written + of_nat (length c)) = unat written + length c"
    by (rule unat_add_length) (use 2 len in auto)
  show ?case
  proof (cases "written + of_nat (length c) > max_bytes")
    case False
    then have "unat (written + of_nat (length c)) \<le> unat max_bytes" unfolding not_less word_le_nat_alt .
    with 2 False sum show ?thesis by (auto simp: Let_def)
  qed (use 2 in \<open>auto simp: Let_def\<close>)
qed auto

text \<open>Where every chunk got through, the limit was kept and the bytes are those of the stream.\<close>

lemma limit_size_all_Ok:
  assumes "limit_size max_bytes written cs = map Ok bss"
  shows "cs = map Ok bss"
  using assms
proof (induction max_bytes written cs arbitrary: bss rule: limit_size.induct)
  case (2 max_bytes written c cs)
  then show ?case by (cases bss) (auto simp: Let_def split: if_splits)
next
  case (3 m w e cs)
  then show ?case by (cases bss) auto
next
  case (4 m w cs)
  then show ?case by (cases bss) auto
qed auto

lemma passed_Ok [simp]: "passed (map Ok bss) = concat bss"
  by (induction bss) auto

lemma field_stream_all_Ok: "field_stream cs = map Ok bss \<Longrightarrow> cs = map Ok bss"
proof (induction cs arbitrary: bss rule: field_stream.induct)
  case (2 c cs)
  then show ?case by (cases bss) auto
next
  case (3 e cs)
  then show ?case by (cases bss) auto
next
  case (4 cs)
  then show ?case by (cases bss) auto
qed auto

end
