(* ===== verification/SessionRoutes.thy ===== *)
theory SessionRoutes
  imports Extract Upload
begin

text \<open>
  \<^verbatim>\<open>crates/otdel-api/src/routes/session.rs\<close>: sign-in, the session's CSRF token after a reload,
  and sign-out.

  The inputs a sign-in draws from outside are arguments: \<open>now\<close> is the monotonic clock,
  \<open>os_random i\<close> the \<open>i\<close>-th draw of random bytes of this request, \<open>joined\<close> how the blocking task
  ends (\<open>Err\<close>: it panicked; \<open>Panic\<close>: the request went away while it ran). The permit the task
  holds while it hashes is the subject of the theory \<open>HashPermits\<close>.
\<close>

definition with_cookie :: "(ustr \<Rightarrow> bool) \<Rightarrow> response \<Rightarrow> ustr \<Rightarrow> response" where
  "with_cookie header_ok r cookie =
     (if header_ok cookie then with_header ''set-cookie'' cookie r else r)"

definition throttle_reserve ::
    "config \<Rightarrow> ustr \<Rightarrow> instant \<Rightarrow> (world, api_error, unit) stateful" where
  "throttle_reserve c key now w =
     (case reserve_at (login_throttle c) key now (w_throttle w) of
        (Ok u, th) \<Rightarrow> (Ok (), w\<lparr>w_throttle := th\<rparr>)
      | (Err retry_after, th) \<Rightarrow>
          (Err (with_retry_after retry_after (api_error_new
             (with_retryable True (app_error_new RateLimited
               (lit ''too many failed sign-in attempts; try again later''))))),
           w\<lparr>w_throttle := th\<rparr>)
      | (Panic, th) \<Rightarrow> (Panic, w\<lparr>w_throttle := th\<rparr>))"

definition verify_blocking ::
    "externs \<Rightarrow> config \<Rightarrow> ustr \<Rightarrow> (unit, unit) outcome \<Rightarrow> (world, api_error, bool) stateful" where
  "verify_blocking x c password joined =
     st_then (st_lift (map_err (\<lambda>e. api_error_new (ae_internal (lit ''internal server error''))) joined))
       (\<lambda>_. st_ok (verify_password x (owner_password_hash c) password))"

definition throttle_success :: "ustr \<Rightarrow> (world, api_error, unit) stateful" where
  "throttle_success key w = (Ok (), w\<lparr>w_throttle := record_success key (w_throttle w)\<rparr>)"

definition sessions_unavailable :: api_error where
  "sessions_unavailable = api_error_new (ae_unavailable
     (lit ''sessions are not available; check that the database is migrated and the bureau is provisioned''))"

text \<open>The part of \<^verbatim>\<open>login\<close> after the password was found right.\<close>

definition open_session ::
    "externs \<Rightarrow> (ustr \<Rightarrow> bool) \<Rightarrow> config \<Rightarrow> (nat \<Rightarrow> nat \<Rightarrow> bytes) \<Rightarrow> (world, api_error, response) stateful"
  where
  "open_session x header_ok c os_random =
     (let token = generate_token x (os_random 0);
          csrf_token = generate_token x (os_random 1);
          fingerprint = token_fingerprint x token
      in st_then (st_lift (ok_or (api_error_new (ae_internal (lit ''internal server error'')))
           (i32_try_from (session_ttl c)))) (\<lambda>ttl_seconds.
         st_then (st_map_err (\<lambda>e. sessions_unavailable)
           (on_db (sessions_open (bureau_slug c) fingerprint csrf_token ttl_seconds))) (\<lambda>rec.
         st_ok (with_cookie header_ok
           (json_response 200 (SessionBody True (sess_csrf_token rec)))
           (session_cookie (cookie_name c) token (session_ttl c) (cookie_secure c))))))"

definition login ::
    "externs \<Rightarrow> (ustr \<Rightarrow> bool) \<Rightarrow> config \<Rightarrow> request \<Rightarrow> instant \<Rightarrow> (nat \<Rightarrow> nat \<Rightarrow> bytes)
      \<Rightarrow> (unit, unit) outcome \<Rightarrow> ustr \<Rightarrow> (world, api_error, response) stateful" where
  "login x header_ok c rq now os_random joined password =
     st_then (throttle_reserve c (client_key rq) now) (\<lambda>_.
     st_then (verify_blocking x c password joined) (\<lambda>verified.
     if \<not> verified then st_err (api_error_new (ae_unauthorized (lit ''sign-in failed'')))
     else
       st_then (throttle_success (client_key rq)) (\<lambda>_.
       open_session x header_ok c os_random)))"

definition show_session :: "session \<Rightarrow> (world, api_error, response) stateful" where
  "show_session s = st_ok (json_response 200 (SessionBody True (session_csrf_token s)))"

definition logout ::
    "externs \<Rightarrow> (ustr \<Rightarrow> bool) \<Rightarrow> config \<Rightarrow> request \<Rightarrow> session \<Rightarrow> (world, api_error, response) stateful" where
  "logout x header_ok c rq s =
     (let token = (case session_token c rq of Some t \<Rightarrow> t | None \<Rightarrow> []);
          fingerprint = token_fingerprint x token
      in st_then (st_map_err api_of_db (on_db (sessions_close fingerprint))) (\<lambda>removed.
         st_ok (with_cookie header_ok (json_response 200 (SessionEndedBody False))
           (cleared_cookie (cookie_name c) (cookie_secure c)))))"

end
