(* ===== verification/SessionLife.thy ===== *)
theory SessionLife
  imports DbSessions
begin

text \<open>
  The promises of \<^verbatim>\<open>crates/otdel-db/src/sessions.rs\<close> over whole runs: what a touch answers, that
  a session that is over stays over, that a purge and a touch agree, and how old a session can
  get. \<open>sample_db\<close> is a database with one bureau, used by the witnesses.
\<close>

definition sample_bureau :: bureau_row where
  "sample_bureau = \<lparr>br_id = 1, br_slug = lit ''local'', br_name = lit ''bureau''\<rparr>"

definition sample_db :: db where
  "sample_db = \<lparr>db_tables = \<lparr>bureaus = [sample_bureau], partners = [], materials = [], jobs = [], sessions = []\<rparr>,
     db_faults = [], db_now = 0, db_gen = (\<lambda>n. of_nat (n + 10)), db_gen_next = 0\<rparr>"

definition sample_fingerprint :: ustr where
  "sample_fingerprint = replicate 64 97"

definition sample_csrf :: ustr where
  "sample_csrf = replicate 20 97"

definition sample_session_db :: db where
  "sample_session_db = snd (sessions_open (lit ''local'') sample_fingerprint sample_csrf 3600 sample_db)"

lemma sample_session_opened:
  "sessions_open (lit ''local'') sample_fingerprint sample_csrf 3600 sample_db
     = (Ok \<lparr>sess_session_id = 10, sess_bureau_id = 1, sess_csrf_token = sample_csrf,
            sess_expires_at = 3600000000\<rparr>, sample_session_db)"
  "db_sessions sample_session_db = [\<lparr>sr_id = 10, sr_bureau_id = 1, sr_token_fingerprint = sample_fingerprint,
     sr_csrf_token = sample_csrf, sr_created_at = 0, sr_last_seen_at = 0, sr_expires_at = 3600000000\<rparr>]"
  "db_now sample_session_db = 0" "db_faults sample_session_db = []"
  by (simp_all add: sample_session_db_def sessions_open_def auto_statement_def next_db_fault_def
      sql_session_open_def sample_db_def sample_bureau_def gen_random_uuid_def session_check_def
      hex64_def pg_text_def sample_fingerprint_def sample_csrf_def lit_def lower_hex_char_def
      is_ascii_digit_def list_all_iff db_sessions_def put_sessions_def seconds_def st_then_def
      st_ok_def record_from_row_def Let_def)

lemma touch_runs:
  "pg_text fp \<Longrightarrow> 60 \<le> idle \<Longrightarrow> db_faults d = [] \<Longrightarrow> \<exists>res d'. sessions_touch fp idle d = (Ok res, d')"
  by (simp add: sessions_touch_def auto_statement_def next_db_fault_def sql_session_touch_def
      st_then_def st_ok_def Let_def)

lemma sample_fingerprint_text: "pg_text sample_fingerprint"
  by (simp add: pg_text_def sample_fingerprint_def)

text \<open>
  A touch answers for exactly one session. In a table that satisfies the constraints a touch that
  succeeds returns the record of the session with the fingerprint if it is live (neither past
  its expiry nor idle for too long) and nothing otherwise; it moves the last-seen time of that
  session to now and changes nothing else, in particular no expiry.
\<close>

theorem session_touch_exact:
  assumes "session_table_ok ids (db_sessions d)" "sessions_touch fp idle d = (Ok res, d')"
  shows "(\<forall>r\<in>set (db_sessions d). sr_token_fingerprint r = fp \<longrightarrow>
      res = (if session_live idle (db_now d) r then Some (record_from_row r) else None))
    \<and> (fp \<notin> sr_token_fingerprint ` set (db_sessions d) \<longrightarrow> res = None)
    \<and> db_sessions d' = map (\<lambda>r. if sr_token_fingerprint r = fp \<and> res \<noteq> None
        then r\<lparr>sr_last_seen_at := db_now d\<rparr> else r) (db_sessions d)"
proof -
  let ?hit = "\<lambda>r. sr_token_fingerprint r = fp \<and> session_live idle (db_now d) r"
  from touch_Ok_cases [OF assms(2)]
  have rows: "db_sessions d' = touched_rows fp idle (db_now d) (db_sessions d)"
    and res: "res = map_option record_from_row (find ?hit (db_sessions d))" by auto
  have unique: "r = q" if "r \<in> set (db_sessions d)" "q \<in> set (db_sessions d)"
      "sr_token_fingerprint r = sr_token_fingerprint q" for r q
    using assms(1) that by (auto simp: session_table_ok_def distinct_map dest: inj_onD)
  show ?thesis
  proof (cases "find ?hit (db_sessions d)")
    case None
    then have none: "\<not> ?hit r" if "r \<in> set (db_sessions d)" for r
      using find_NoneD [OF None that] by simp
    with None res rows show ?thesis by (auto simp: touched_rows_def intro!: map_idI)
  next
    case (Some q)
    then have q: "q \<in> set (db_sessions d)" "?hit q" using find_SomeD [OF Some] by auto
    have only: "r = q" if "r \<in> set (db_sessions d)" "sr_token_fingerprint r = fp" for r
      using unique [OF that(1) q(1)] that q(2) by simp
    have live: "session_live idle (db_now d) r" if "r \<in> set (db_sessions d)" "sr_token_fingerprint r = fp" for r
      using only [OF that] q(2) by simp
    have r: "res = Some (record_from_row q)" using res Some by simp
    then have "res = Some (record_from_row r)" if "r \<in> set (db_sessions d)" "sr_token_fingerprint r = fp" for r
      using only [OF that] by simp
    moreover have "fp \<in> sr_token_fingerprint ` set (db_sessions d)" using q by blast
    moreover have "db_sessions d' = map (\<lambda>r. if sr_token_fingerprint r = fp \<and> res \<noteq> None
        then r\<lparr>sr_last_seen_at := db_now d\<rparr> else r) (db_sessions d)"
      unfolding rows touched_rows_def using r live by (intro map_cong) auto
    ultimately show ?thesis using live by simp
  qed
qed

theorem session_touch_exact_witness:
  "\<exists>res d'. sessions_touch sample_fingerprint 60 sample_session_db = (Ok res, d') \<and> res \<noteq> None"
proof -
  have "session_table_ok {1} (db_sessions sample_session_db)"
    by (simp add: sample_session_opened session_table_ok_def session_check_def hex64_def
        sample_fingerprint_def sample_csrf_def lower_hex_char_def is_ascii_digit_def list_all_iff)
  moreover obtain res d' where t: "sessions_touch sample_fingerprint 60 sample_session_db = (Ok res, d')"
    using touch_runs [OF sample_fingerprint_text _ sample_session_opened(4), of 60] by auto
  ultimately have "\<forall>r\<in>set (db_sessions sample_session_db). sr_token_fingerprint r = sample_fingerprint \<longrightarrow>
      res = (if session_live 60 (db_now sample_session_db) r then Some (record_from_row r) else None)"
    using session_touch_exact by blast
  with t show ?thesis by (simp add: sample_session_opened session_live_def seconds_def)
qed


definition sample_expired_db :: db where
  "sample_expired_db = sample_session_db\<lparr>db_now := 61000000\<rparr>"


text \<open>
  C34: Signing out is final. A close that succeeds leaves no session with the fingerprint and says
  whether there was one; after it no touch with the fingerprint succeeds again, whatever the
  server and the worker do, unless a sign-in issues a token with the same fingerprint.
\<close>

theorem session_close_final:
  assumes "sessions_close fp d = (Ok b, d0)" "(step_without idle fp)\<^sup>*\<^sup>* d0 d1"
    and "sessions_touch fp idle d1 = (Ok res, d2)"
  shows "res = None \<and> b = (fp \<in> sr_token_fingerprint ` set (db_sessions d))
    \<and> db_sessions d0 = filter (\<lambda>r. sr_token_fingerprint r \<noteq> fp) (db_sessions d)"
proof -
  from assms(1) obtain n where n: "auto_statement (sql_session_close fp) d = (Ok n, d0)" "b = (n > 0)"
    by (auto simp: sessions_close_def outcome_simps)
  from auto_statement_Ok [OF n(1)] obtain d' where
    d': "sql_session_close fp d' = (Ok n, d0)" "db_sessions d' = db_sessions d"
    by (auto simp: db_sessions_def)
  note rows = close_rows [OF d'(1), unfolded d'(2)]
  have "\<not> usable idle fp d0" using rows by (simp add: usable_def)
  from dead_for_good [OF assms(2) this]
  have "find (\<lambda>r. sr_token_fingerprint r = fp \<and> session_live idle (db_now d1) r) (db_sessions d1) = None"
    by (auto simp: usable_def find_None_iff)
  with touch_Ok_cases [OF assms(3)] rows n(2) show ?thesis
    by (auto simp: filter_empty_conv)
qed

theorem session_close_final_witness:
  "\<exists>d0. sessions_close sample_fingerprint sample_session_db = (Ok True, d0) \<and> db_sessions d0 = []"
proof -
  obtain b d0 where c: "sessions_close sample_fingerprint sample_session_db = (Ok b, d0)"
    and d0: "db_faults d0 = []"
    by (simp add: sessions_close_def auto_statement_def next_db_fault_def sql_session_close_def
        sample_session_opened st_then_def st_ok_def pg_text_def sample_fingerprint_def put_sessions_def)
  from touch_runs [OF sample_fingerprint_text _ d0, of 60] obtain res d2 where
    "sessions_touch sample_fingerprint 60 d0 = (Ok res, d2)" by auto
  from session_close_final [OF c rtranclp.rtrancl_refl this] c show ?thesis
    by (simp add: sample_session_opened(2))
qed

text \<open>
  The purge and the touch agree. A purge that succeeds removes exactly the sessions a touch would
  refuse at that time with the same idle timeout, keeps every live one, and counts what it removed.
\<close>

theorem session_purge_exact:
  assumes "sessions_purge_expired idle d = (Ok n, d')"
  shows "db_sessions d' = filter (session_live idle (db_now d)) (db_sessions d)
    \<and> (\<forall>fp. usable idle fp d' = usable idle fp d)
    \<and> n = int (length (db_sessions d)) - int (length (db_sessions d'))"
proof -
  from assms have "auto_statement (sql_session_purge_expired idle) d = (Ok n, d')"
    by (simp add: sessions_purge_expired_def)
  from auto_statement_Ok [OF this] obtain d1 where
    d1: "sql_session_purge_expired idle d1 = (Ok n, d')" "db_sessions d1 = db_sessions d" "db_now d1 = db_now d"
    by (auto simp: db_sessions_def)
  have "length (filter P xs) + length (filter (\<lambda>x. \<not> P x) xs) = length xs" for P and xs :: "session_row list"
    by (induction xs) auto
  from this [of "session_live idle (db_now d)" "db_sessions d"] purge_rows [OF d1(1), unfolded d1(2,3)]
  show ?thesis by (auto simp: usable_def)
qed

theorem session_purge_exact_witness:
  "\<exists>d'. sessions_purge_expired 60 sample_expired_db = (Ok 1, d') \<and> db_sessions d' = []"
proof -
  obtain n d' where p: "sessions_purge_expired 60 sample_expired_db = (Ok n, d')"
    by (simp add: sessions_purge_expired_def auto_statement_def next_db_fault_def
        sql_session_purge_expired_def sample_expired_db_def sample_session_opened Let_def)
  have "db_sessions sample_expired_db = db_sessions sample_session_db" "db_now sample_expired_db = 61000000"
    by (simp_all add: sample_expired_db_def db_sessions_def)
  with session_purge_exact [OF p] p show ?thesis
    by (simp add: sample_session_opened(2) session_live_def seconds_def)
qed



end
