(* ===== verification/StoreSweep.thy ===== *)
theory StoreSweep
  imports StoreOps
begin

text \<open>
  \<^verbatim>\<open>sweep_staging\<close>: the recovery of staging files that an interrupted upload left behind.
\<close>

text \<open>The files a sweep is for: regular files directly in the staging directory, not modified since
  the cutoff.\<close>

definition abandoned :: "path \<Rightarrow> int \<Rightarrow> nodes \<Rightarrow> path \<Rightarrow> bool" where
  "abandoned d cutoff g p \<longleftrightarrow>
     p \<noteq> [] \<and> butlast p = d \<and> (\<exists>m c t. g p = Some (File m c t) \<and> t \<le> cutoff)"

definition swept :: "path \<Rightarrow> int \<Rightarrow> nodes \<Rightarrow> nodes \<Rightarrow> bool" where
  "swept d cutoff g f \<longleftrightarrow> (\<forall>p. f p = g p \<or> (f p = None \<and> abandoned d cutoff g p))"

fun sweep_allowed :: "path \<Rightarrow> int \<Rightarrow> nodes \<Rightarrow> fs_op \<Rightarrow> bool" where
  "sweep_allowed d cutoff g (OpRemove p) = abandoned d cutoff g p"
| "sweep_allowed d cutoff g OpFlush = True"
| "sweep_allowed d cutoff g (OpCreate p) = False"
| "sweep_allowed d cutoff g (OpWrite p bs) = False"
| "sweep_allowed d cutoff g (OpRename a b) = False"
| "sweep_allowed d cutoff g (OpMkdirAll p) = False"
| "sweep_allowed d cutoff g (OpChmod p m) = False"

lemma perform_remove_node:
  "node_at (snd (perform (OpRemove p) s)) q = node_at s q
    \<or> (q = p \<and> node_at (snd (perform (OpRemove p) s)) q = None)"
  by (auto simp: perform.simps split: option.splits node.splits)

interpretation sweep: tree_invariant "swept d cutoff g" "sweep_allowed d cutoff g" for d cutoff g
proof unfold_locales
  show "swept d cutoff g (node_at (snd (perform op s)))"
    if op: "sweep_allowed d cutoff g op" and s: "swept d cutoff g (node_at s)" for op s
    unfolding swept_def
  proof
    fix q
    from op s show "node_at (snd (perform op s)) q = g q
        \<or> node_at (snd (perform op s)) q = None \<and> abandoned d cutoff g q"
    proof (cases op)
      case (OpRemove p)
      with op s perform_remove_node [of p s q] show ?thesis by (auto simp: swept_def)
    next
      case OpFlush
      with s show ?thesis by (simp add: swept_def perform.simps)
    qed simp_all
  qed
  show "sweep_allowed d cutoff g (partial_op op n)" if "sweep_allowed d cutoff g op" for op n
    using that by (cases op) auto
qed

lemma sweep_one_keeps:
  "st_keeps (safe_fs (swept d cutoff g) (sweep_allowed d cutoff g)) (sweep_one (d @ [name]) cutoff sw)"
proof (rule st_keepsI)
  fix s
  let ?p = "d @ [name]"
  assume s: "safe_fs (swept d cutoff g) (sweep_allowed d cutoff g) s"
  obtain r s1 where st: "symlink_metadata ?p s = (r, s1)" by fastforce
  have s1: "safe_fs (swept d cutoff g) (sweep_allowed d cutoff g) s1"
    using st s st_keepsD [OF sweep.keeps_look] by (auto simp: symlink_metadata_def)
  show "safe_fs (swept d cutoff g) (sweep_allowed d cutoff g) (snd (sweep_one ?p cutoff sw s))"
  proof (cases "\<exists>n. r = Ok n \<and> node_is_file n \<and> node_modified n \<le> cutoff")
    case True
    then obtain m c t where n: "r = Ok (File m c t)" "t \<le> cutoff"
      by (auto dest: node_is_file_content)
    with stat_Ok [of ?p s "File m c t" s1] st have node: "node_at s ?p = Some (File m c t)" by simp
    from s have "node_at s ?p = g ?p \<or> node_at s ?p = None" by (auto simp: safe_fs_def swept_def)
    with node have "g ?p = Some (File m c t)" by (metis option.distinct(1))
    with n(2) have "sweep_allowed d cutoff g (OpRemove ?p)" by (simp add: abandoned_def)
    from st_keeps_snd [OF sweep.keeps_call [OF this] s1] n st show ?thesis
      by (auto simp: sweep_one_def split: prod.splits outcome.splits io_kind.splits)
  next
    case False
    with s1 st show ?thesis
      by (auto simp: sweep_one_def split: outcome.splits io_kind.splits)
  qed
qed

lemma sweep_entries_keeps:
  "st_keeps (safe_fs (swept d cutoff g) (sweep_allowed d cutoff g)) (sweep_entries d cutoff names sw)"
  by (induction names arbitrary: sw)
     (auto simp: next_entry_def intro!: sweep.call_rules sweep_one_keeps)

lemma sweep_swept:
  assumes "fs_late s = []"
  shows "swept (staging_root st) (sweep_cutoff (fs_now s) older_than) (node_at s)
    (node_at (snd (sweep_staging st older_than s)))"
proof -
  let ?c = "sweep_cutoff (fs_now s) older_than" and ?d = "staging_root st"
  let ?I = "safe_fs (swept ?d ?c (node_at s)) (sweep_allowed ?d ?c (node_at s))"
  have "?I s" using assms by (simp add: safe_fs_def swept_def)
  obtain r s1 where rd: "io_call ''read staging directory'' (read_dir ?d) s = (r, s1)" by fastforce
  have "st_keeps ?I (io_call ''read staging directory'' (read_dir ?d))"
    unfolding read_dir_def by (intro sweep.keeps_io_call sweep.keeps_look)
  with \<open>?I s\<close> rd have s1: "?I s1" by (blast intro: st_keepsD)
  have now: "fs_now s1 = fs_now s"
    using rd by (auto simp: io_call_def st_map_err_def read_dir_def sys_look_def
        dest!: next_fault_fields split: prod.splits fault.splits)
  have fut: "?I (snd (future (sweep_entries ?d ?c names sw) s1))" for names sw
    using st_keeps_snd [OF sweep.keeps_future [OF sweep_entries_keeps] s1] .
  have "?I (snd (sweep_staging st older_than s))"
  proof (cases r)
    case (Ok names)
    with rd now fut [of names] show ?thesis
      by (simp add: sweep_staging_def future_def)
  next
    case Panic
    with rd sweep.safe_run_late [OF s1] show ?thesis by (simp add: sweep_staging_def future_def)
  qed (use rd s1 in \<open>simp add: sweep_staging_def future_def\<close>)
  then show ?thesis by (rule safe_fs_tree)
qed

text \<open>
  C28: A sweep never harms an upload or an object. However it ends, everything in the store is as it
  was, except that regular files directly in the staging directory that were last modified at or
  before the cutoff may be gone.
\<close>

theorem sweep_removes_only_abandoned:
  assumes "fs_late s = []"
  shows "swept (staging_root st) (sweep_cutoff (fs_now s) older_than) (node_at s)
    (node_at (snd (sweep_staging st older_than s)))"
  using assms by (rule sweep_swept)

section \<open>A sweep without failures is complete\<close>

definition old_name :: "path \<Rightarrow> int \<Rightarrow> fs \<Rightarrow> ustr \<Rightarrow> bool" where
  "old_name d cutoff s name \<longleftrightarrow>
     (case node_at s (d @ [name]) of Some n \<Rightarrow> node_is_file n \<and> node_modified n \<le> cutoff | None \<Rightarrow> False)"

lemma old_name_iff:
  "old_name d cutoff s name \<longleftrightarrow> (\<exists>m c t. node_at s (d @ [name]) = Some (File m c t) \<and> t \<le> cutoff)"
proof (cases "node_at s (d @ [name])")
  case (Some n)
  then show ?thesis by (cases n) (simp_all add: old_name_def)
qed (simp add: old_name_def)

lemma abandoned_name: "abandoned d cutoff (node_at s) p \<longleftrightarrow> (\<exists>name. p = d @ [name] \<and> old_name d cutoff s name)"
proof
  assume a: "abandoned d cutoff (node_at s) p"
  then have "p = d @ [last p]" by (auto simp: abandoned_def append_butlast_last_id)
  moreover have "old_name d cutoff s (last p)"
    using a \<open>p = d @ [last p]\<close> by (auto simp: abandoned_def old_name_iff)
  ultimately show "\<exists>name. p = d @ [name] \<and> old_name d cutoff s name" by blast
next
  assume "\<exists>name. p = d @ [name] \<and> old_name d cutoff s name"
  then show "abandoned d cutoff (node_at s) p"
    by (auto simp: abandoned_def old_name_iff)
qed

lemma remove_fine:
  assumes "fs_faults s = []" "old_name d cutoff s name"
  shows "\<exists>s'. sys_call (OpRemove (d @ [name])) s = (Ok (), s') \<and> fs_faults s' = []
    \<and> node_at s' = (node_at s)(d @ [name] := None) \<and> fs_tree s' = AList.delete (d @ [name]) (fs_tree s)"
proof -
  obtain m c t where "node_at s (d @ [name]) = Some (File m c t)"
    using assms(2) by (auto simp: old_name_def split: option.splits dest: node_is_file_content)
  then show ?thesis using assms(1)
    by (auto simp: sys_call_fine perform.simps fun_eq_iff del_node_def node_at_def delete_conv')
qed

lemma sweep_one_fine:
  assumes "fs_faults s = []"
  shows "\<exists>sw' s'. sweep_one (d @ [name]) cutoff sw s = (Ok sw', s') \<and> fs_faults s' = []
    \<and> node_at s' = (if old_name d cutoff s name then (node_at s)(d @ [name] := None) else node_at s)
    \<and> removed_files sw' = removed_files sw + (if old_name d cutoff s name then 1 else 0)"
proof (cases "old_name d cutoff s name")
  case True
  then obtain n where n: "node_at s (d @ [name]) = Some n" "node_is_file n" "node_modified n \<le> cutoff"
    by (auto simp: old_name_def split: option.splits)
  from remove_fine [OF assms True] n True assms show ?thesis
    by (auto simp: sweep_one_def symlink_metadata_def sys_look_fine look_node_def)
next
  case False
  with assms show ?thesis
    by (auto simp: sweep_one_def symlink_metadata_def sys_look_fine look_node_def old_name_def
        split: option.splits)
qed

lemma next_entry_fine: "fs_faults s = [] \<Longrightarrow> io_call c next_entry s = (Ok (), s)"
  by (simp add: io_call_def st_map_err_def next_entry_def sys_look_fine)

lemma sweep_entries_fine:
  "fs_faults s = [] \<Longrightarrow> distinct names \<Longrightarrow>
   \<exists>sw' s'. sweep_entries d cutoff names sw s = (Ok sw', s') \<and> fs_faults s' = []
    \<and> (\<forall>p. node_at s' p = (if \<exists>name\<in>set names. p = d @ [name] \<and> old_name d cutoff s name
                            then None else node_at s p))
    \<and> removed_files sw' = removed_files sw + of_nat (length (filter (old_name d cutoff s) names))"
proof (induction names arbitrary: sw s)
  case Nil
  then show ?case by (simp add: next_entry_fine st_ok_def)
next
  case (Cons name names)
  from sweep_one_fine [OF Cons.prems(1), of d name cutoff sw] obtain sw1 s1 where
    one: "sweep_one (d @ [name]) cutoff sw s = (Ok sw1, s1)" "fs_faults s1 = []"
      "node_at s1 = (if old_name d cutoff s name then (node_at s)(d @ [name] := None) else node_at s)"
      "removed_files sw1 = removed_files sw + (if old_name d cutoff s name then 1 else 0)" by blast
  have old: "old_name d cutoff s1 nm = old_name d cutoff s nm" if "nm \<in> set names" for nm
    using that Cons.prems(2) one(3) by (auto simp: old_name_def)
  then have flt: "filter (old_name d cutoff s1) names = filter (old_name d cutoff s) names"
    by (intro filter_cong) auto
  from Cons.IH [OF one(2), of sw1] Cons.prems(2) obtain sw2 s2 where
    rest: "sweep_entries d cutoff names sw1 s1 = (Ok sw2, s2)" "fs_faults s2 = []"
      "\<forall>p. node_at s2 p = (if \<exists>name\<in>set names. p = d @ [name] \<and> old_name d cutoff s1 name
                            then None else node_at s1 p)"
      "removed_files sw2 = removed_files sw1 + of_nat (length (filter (old_name d cutoff s1) names))"
    by auto
  have "sweep_entries d cutoff (name # names) sw s = (Ok sw2, s2)"
    using next_entry_fine [OF Cons.prems(1)] one(1) rest(1) by simp
  moreover have "node_at s2 p = (if \<exists>nm\<in>set (name # names). p = d @ [nm] \<and> old_name d cutoff s nm
      then None else node_at s p)" for p
    using rest(3) one(3) old by auto
  moreover have "removed_files sw2 = removed_files sw
      + of_nat (length (filter (old_name d cutoff s) (name # names)))"
    using rest(4) one(4) flt by simp
  ultimately show ?case using rest(2) by blast
qed

lemma old_name_child: "old_name d cutoff s name \<Longrightarrow> name \<in> set (children d s)"
  by (rule children_mem) (auto simp: old_name_def split: option.splits)

lemma children_distinct: "distinct (map fst (fs_tree s)) \<Longrightarrow> distinct (children d s)"
proof -
  assume "distinct (map fst (fs_tree s))"
  then have "distinct (filter (\<lambda>p. p \<noteq> [] \<and> butlast p = d) (map fst (fs_tree s)))"
    by (rule distinct_filter)
  moreover have "inj_on last {p. p \<noteq> [] \<and> butlast p = d}"
    by (rule inj_onI) (metis (mono_tags) append_butlast_last_id mem_Collect_eq)
  ultimately show ?thesis
    unfolding children_def distinct_map by (auto elim: inj_on_subset)
qed

text \<open>
  Interrupted uploads are cleaned up. A sweep in which no call fails succeeds and removes every
  abandoned staging file, no other entry of the tree, and reports how many it removed.
\<close>

theorem sweep_complete:
  assumes "fs_faults s = []" "node_at s (staging_root st) = Some (Dir m)"
    and "distinct (map fst (fs_tree s))"
  shows "\<exists>sw s'. sweep_staging st older_than s = (Ok sw, s')
    \<and> (\<forall>p. node_at s' p =
        (if abandoned (staging_root st) (sweep_cutoff (fs_now s) older_than) (node_at s) p
         then None else node_at s p))
    \<and> removed_files sw = of_nat (card {p. abandoned (staging_root st)
        (sweep_cutoff (fs_now s) older_than) (node_at s) p})"
proof -
  let ?d = "staging_root st" and ?c = "sweep_cutoff (fs_now s) older_than"
  let ?names = "children ?d s"
  have dist: "distinct ?names" using assms(3) by (rule children_distinct)
  from sweep_entries_fine [OF assms(1) dist, of ?d ?c "\<lparr>removed_files = 0, removed_bytes = 0\<rparr>"]
  obtain sw s' where
    e: "sweep_entries ?d ?c ?names \<lparr>removed_files = 0, removed_bytes = 0\<rparr> s = (Ok sw, s')"
      "\<forall>p. node_at s' p = (if \<exists>name\<in>set ?names. p = ?d @ [name] \<and> old_name ?d ?c s name
                            then None else node_at s p)"
      "removed_files sw = of_nat (length (filter (old_name ?d ?c s) ?names))"
    by auto
  have "{p. abandoned ?d ?c (node_at s) p} = (\<lambda>n. ?d @ [n]) ` set (filter (old_name ?d ?c s) ?names)"
    by (auto simp: abandoned_name dest: old_name_child)
  moreover have "card ((\<lambda>n. ?d @ [n]) ` set (filter (old_name ?d ?c s) ?names))
      = card (set (filter (old_name ?d ?c s) ?names))"
    by (rule card_image) (simp add: inj_on_def)
  moreover have "card (set (filter (old_name ?d ?c s) ?names)) = length (filter (old_name ?d ?c s) ?names)"
    using dist by (intro distinct_card) simp
  ultimately have "card {p. abandoned ?d ?c (node_at s) p} = length (filter (old_name ?d ?c s) ?names)"
    by (simp only:)
  moreover have "sweep_staging st older_than s = (Ok sw, s')"
    using e(1) assms(1,2)
    by (simp add: sweep_staging_def future_def st_then_def io_call_def st_map_err_def read_dir_def
        sys_look_fine)
  moreover have "(\<exists>name\<in>set ?names. p = ?d @ [name] \<and> old_name ?d ?c s name)
      \<longleftrightarrow> abandoned ?d ?c (node_at s) p" for p
    by (auto simp: abandoned_name dest: old_name_child)
  ultimately show ?thesis using e(2,3) by (intro exI [of _ sw] exI [of _ s']) auto
qed

section \<open>A concrete sweep\<close>

definition sample_staging_fs :: fs where
  "sample_staging_fs = sample_fs\<lparr>fs_tree := fs_tree sample_fs @
     [([lit ''r'', lit ''staging'', lit ''a.part''], File 0 [1, 2] 3),
      ([lit ''r'', lit ''staging'', lit ''b.part''], File 0 [1, 2] 5)]\<rparr>"

lemma sweep_removes_only_abandoned_witness:
  "swept (staging_root sample_store) (sweep_cutoff 5 1) (node_at sample_staging_fs)
     (node_at (snd (sweep_staging sample_store 1 sample_staging_fs)))"
  using sweep_removes_only_abandoned [of sample_staging_fs sample_store 1]
  by (simp add: sample_staging_fs_def sample_fs_def)

lemma sweep_complete_witness:
  "\<exists>sw s'. sweep_staging sample_store 1 sample_staging_fs = (Ok sw, s')
     \<and> node_at s' [lit ''r'', lit ''staging'', lit ''a.part''] = None
     \<and> node_at s' [lit ''r'', lit ''staging'', lit ''b.part''] = Some (File 0 [1, 2] 5)"
proof -
  have "distinct (map fst (fs_tree sample_staging_fs))"
    "node_at sample_staging_fs (staging_root sample_store) = Some (Dir 0)"
    "fs_faults sample_staging_fs = []" "fs_now sample_staging_fs = 5"
    by (simp_all add: sample_staging_fs_def sample_fs_def sample_store_def node_at_def)
  from sweep_complete [OF this(3,2,1), of 1] this(4) obtain sw s' where
    run: "sweep_staging sample_store 1 sample_staging_fs = (Ok sw, s')"
    and after: "\<And>p. node_at s' p = (if abandoned (staging_root sample_store) (sweep_cutoff 5 1)
      (node_at sample_staging_fs) p then None else node_at sample_staging_fs p)"
    by auto
  have files: "node_at sample_staging_fs [lit ''r'', lit ''staging'', lit ''a.part''] = Some (File 0 [1, 2] 3)"
    "node_at sample_staging_fs [lit ''r'', lit ''staging'', lit ''b.part''] = Some (File 0 [1, 2] 5)"
    by code_simp+
  have "abandoned (staging_root sample_store) (sweep_cutoff 5 1) (node_at sample_staging_fs)
      [lit ''r'', lit ''staging'', lit ''a.part'']"
    using files(1) by (simp add: abandoned_def sweep_cutoff_def sample_store_def)
  moreover have "\<not> abandoned (staging_root sample_store) (sweep_cutoff 5 1) (node_at sample_staging_fs)
      [lit ''r'', lit ''staging'', lit ''b.part'']"
    using files(2) by (simp add: abandoned_def sweep_cutoff_def)
  ultimately show ?thesis using run after files(2) by simp
qed

end
