(* ===== verification/StoreList.thy ===== *)
theory StoreList
  imports StoreOps
begin

text \<open>
  \<^verbatim>\<open>list_objects\<close>: what maintenance gets to see of the store. The tree is the one at the start
  (\<open>g\<close>); nothing in the walk changes it.
\<close>

definition tree_names_ok :: "fs \<Rightarrow> bool" where
  "tree_names_ok s \<longleftrightarrow> (\<forall>p\<in>set (map fst (fs_tree s)). \<forall>seg\<in>set p. 47 \<notin> set seg)"

text \<open>A valid object: a regular file whose place below the root spells a key.\<close>

definition listed_ok :: "externs \<Rightarrow> path \<Rightarrow> nodes \<Rightarrow> object_key \<Rightarrow> bool" where
  "listed_ok x objs g key \<longleftrightarrow>
     object_key_parse x (key_str key) = Ok key
     \<and> (\<exists>p. resolve_within objs key = Ok p \<and> node_content (g p) \<noteq> None)"

lemma node_is_file_or_dir: "\<not> node_is_dir n \<Longrightarrow> node_is_file n \<Longrightarrow> node_content (Some n) \<noteq> None"
  by (cases n) auto

lemma scan_entry_Ok:
  assumes "scan_entry x limit dir pre name stack l s = (Ok (full, stack', l'), s')"
  shows "node_at s' = node_at s \<and>
    ((\<not> full \<and> stack' = stack \<and> l' = l
      \<and> (\<forall>n. list_all valid_char name \<longrightarrow> node_at s (dir @ [name]) = Some n \<longrightarrow>
           (node_is_dir n \<longrightarrow> 3 \<le> length pre)
           \<and> (node_is_file n \<longrightarrow> (\<forall>key. object_key_parse x (str_join (lit ''/'') (pre @ [name])) \<noteq> Ok key))))
    \<or> (\<not> full \<and> l' = l \<and> length pre < 3 \<and> stack' = (dir @ [name], pre @ [name]) # stack
       \<and> (\<exists>n. node_at s (dir @ [name]) = Some n \<and> node_is_dir n))
    \<or> (stack' = stack \<and> (\<exists>key. object_key_parse x (str_join (lit ''/'') (pre @ [name])) = Ok key
         \<and> node_content (node_at s (dir @ [name])) \<noteq> None
         \<and> listing_keys l' = listing_keys l @ [key]
         \<and> full = (limit \<le> length (listing_keys l'))
         \<and> listing_truncated l' = (full \<or> listing_truncated l))))"
proof (cases "list_all valid_char name")
  case False
  with assms show ?thesis by (simp add: scan_entry_def os_to_str_def)
next
  case True
  obtain r s1 where st: "symlink_metadata (dir @ [name]) s = (r, s1)" by fastforce
  then have s1: "node_at s1 = node_at s" by (rule stat_node_at)
  show ?thesis
  proof (cases r)
    case (Ok n)
    with st stat_Ok have n: "node_at s (dir @ [name]) = Some n" by blast
    consider "node_is_dir n" | "\<not> node_is_dir n" "\<not> node_is_file n" | "\<not> node_is_dir n" "node_is_file n"
      by blast
    then show ?thesis
    proof cases
      case 1
      then have "\<not> node_is_file n" by (cases n) auto
      with 1 assms st True Ok s1 n show ?thesis
        by (auto simp: scan_entry_def os_to_str_def split: if_splits)
    next
      case 2
      with assms st True Ok s1 n show ?thesis
        by (auto simp: scan_entry_def os_to_str_def)
    next
      case 3
      with node_is_file_or_dir have "node_content (node_at s (dir @ [name])) \<noteq> None"
        unfolding n by blast
      with 3 assms st True Ok s1 n show ?thesis
        by (auto simp: scan_entry_def os_to_str_def Let_def split: outcome.splits if_splits)
    qed
  next
    case (Err k)
    with assms st True have k: "k = IoNotFound" "full = False" "stack' = stack" "l' = l" "s' = s1"
      by (auto simp: scan_entry_def os_to_str_def split: io_kind.splits)
    with st Err stat_NotFound [of "dir @ [name]" s s1] s1 show ?thesis by simp
  next
    case Panic
    with assms st True show ?thesis by (simp add: scan_entry_def os_to_str_def)
  qed
qed

section \<open>What is listed is there\<close>

definition listing_inv :: "externs \<Rightarrow> path \<Rightarrow> nodes \<Rightarrow> nat \<Rightarrow> bool \<Rightarrow> object_listing \<Rightarrow> bool" where
  "listing_inv x objs g limit full l \<longleftrightarrow>
     (if full then length (listing_keys l) = limit else length (listing_keys l) < limit)
     \<and> listing_truncated l = full
     \<and> (\<forall>key\<in>set (listing_keys l). listed_ok x objs g key)"

definition stack_ok :: "path \<Rightarrow> walk_stack \<Rightarrow> bool" where
  "stack_ok objs stack \<longleftrightarrow> (\<forall>(d, pre)\<in>set stack. d = objs @ pre)"

lemma node_names:
  assumes "tree_names_ok s" "node_at s p \<noteq> None"
  shows "\<forall>seg\<in>set p. 47 \<notin> set seg"
proof -
  from assms(2) have "p \<in> set (map fst (fs_tree s))"
    by (force simp: node_at_def dest!: map_of_SomeD)
  with assms(1) show ?thesis unfolding tree_names_ok_def by blast
qed

lemma joined_key_listed:
  assumes "object_key_parse x (str_join (lit ''/'') segs) = Ok key" "segs \<noteq> []"
    and "node_content (g (objs @ segs)) \<noteq> None" "\<forall>seg\<in>set segs. 47 \<notin> set seg"
  shows "listed_ok x objs g key"
proof -
  have slash: "lit ''/'' = [47]" by (simp add: lit_def)
  from assms(1) obtain b p d where key: "key = ObjectKey (str_join [47] segs)"
    and sh: "key_shape x (str_join [47] segs) b p d"
    by (auto simp: object_key_parse_Ok slash)
  have "split_on 47 (str_join [47] segs) = segs" using assms(2,4) by (simp add: split_on_join)
  with sh have "segs = [lit ''bureau-'' @ b, lit ''partner-'' @ p, take 2 d, d]"
    by (simp add: key_shape_def)
  with resolve_shape [OF sh, of objs] key have "resolve_within objs key = Ok (objs @ segs)" by simp
  with assms(1,3) key show ?thesis by (auto simp: listed_ok_def slash)
qed

lemma scan_entry_inv:
  assumes "scan_entry x limit dir pre name stack l s = (Ok (full, stack', l'), s')"
    and "listing_inv x objs (node_at s) limit False l" "stack_ok objs stack" "dir = objs @ pre"
    and "tree_names_ok s"
  shows "listing_inv x objs (node_at s) limit full l' \<and> stack_ok objs stack'"
proof -
  have new: "listed_ok x objs (node_at s) key"
    if "object_key_parse x (str_join (lit ''/'') (pre @ [name])) = Ok key"
      "node_content (node_at s (dir @ [name])) \<noteq> None" for key
  proof (rule joined_key_listed [OF that(1)])
    have "node_at s (dir @ [name]) \<noteq> None" using that(2) by (metis node_content.simps(4))
    from node_names [OF assms(5) this] assms(4) show "\<forall>seg\<in>set (pre @ [name]). 47 \<notin> set seg" by auto
  qed (use that(2) assms(4) in auto)
  from scan_entry_Ok [OF assms(1)] assms(2-4) new show ?thesis
    by (auto simp: listing_inv_def stack_ok_def)
qed

lemma next_entry_node_at: "io_call c next_entry s = (r, s') \<Longrightarrow> node_at s' = node_at s \<and> fs_tree s' = fs_tree s"
  by (auto simp: io_call_def st_map_err_def next_entry_def node_at_def dest!: sys_look_tree
      split: prod.splits)

lemma tree_names_ok_tree: "fs_tree s' = fs_tree s \<Longrightarrow> tree_names_ok s' = tree_names_ok s"
  by (simp add: tree_names_ok_def)

lemma node_at_tree: "fs_tree s' = fs_tree s \<Longrightarrow> node_at s' = node_at s"
  by (simp add: node_at_def fun_eq_iff)

lemma scan_dir_ConsE:
  assumes "scan_dir x limit dir pre (name # names) stack l s = (Ok (full, stack', l'), s')"
  obtains s1 f st2 l2 s2 where "io_call ''iterate objects directory'' next_entry s = (Ok (), s1)"
    and "scan_entry x limit dir pre name stack l s1 = (Ok (f, st2, l2), s2)"
    and "f \<longrightarrow> full \<and> st2 = stack' \<and> l2 = l'"
    and "\<not> f \<longrightarrow> scan_dir x limit dir pre names st2 l2 s2 = (Ok (full, stack', l'), s')"
proof -
  from assms obtain u s1 r s2 where 1: "io_call ''iterate objects directory'' next_entry s = (Ok u, s1)"
    and 2: "scan_entry x limit dir pre name stack l s1 = (Ok r, s2)"
    and 3: "(case r of (full, stack, listing) \<Rightarrow> if full then st_ok (True, stack, listing)
        else scan_dir x limit dir pre names stack listing) s2 = (Ok (full, stack', l'), s')"
    unfolding scan_dir.simps st_then_Ok by blast
  obtain f st2 l2 where r: "r = (f, st2, l2)" by (cases r)
  show ?thesis
  proof (rule that)
    show "io_call ''iterate objects directory'' next_entry s = (Ok (), s1)" using 1 by simp
    show "scan_entry x limit dir pre name stack l s1 = (Ok (f, st2, l2), s2)" using 2 r by simp
  qed (use 3 r in \<open>auto simp: st_ok_def\<close>)
qed

lemma scan_dir_inv:
  "scan_dir x limit dir pre names stack l s = (Ok (full, stack', l'), s') \<Longrightarrow>
   listing_inv x objs (node_at s) limit False l \<Longrightarrow> stack_ok objs stack \<Longrightarrow> dir = objs @ pre \<Longrightarrow>
   tree_names_ok s \<Longrightarrow>
   listing_inv x objs (node_at s) limit full l' \<and> stack_ok objs stack'"
proof (induction names arbitrary: stack l s)
  case Nil
  then show ?case by (auto simp: outcome_simps)
next
  case (Cons name names)
  from Cons.prems(1) obtain s1 f st2 l2 s2 where
    n: "io_call ''iterate objects directory'' next_entry s = (Ok (), s1)" and
    e: "scan_entry x limit dir pre name stack l s1 = (Ok (f, st2, l2), s2)" and
    rT: "f \<longrightarrow> full \<and> st2 = stack' \<and> l2 = l'" and
    rF: "\<not> f \<longrightarrow> scan_dir x limit dir pre names st2 l2 s2 = (Ok (full, stack', l'), s')"
    by (rule scan_dir_ConsE) (rule that)
  from next_entry_node_at [OF n] have t1: "fs_tree s1 = fs_tree s" and s1: "node_at s1 = node_at s"
    by simp_all
  from Cons.prems(5) have "tree_names_ok s1" by (simp add: tree_names_ok_tree [OF t1])
  from scan_entry_tree [OF e] have t: "fs_tree s2 = fs_tree s1" .
  from scan_entry_inv [OF e, of objs] Cons.prems s1 \<open>tree_names_ok s1\<close>
  have inv: "listing_inv x objs (node_at s) limit f l2" "stack_ok objs st2" by simp_all
  show ?case
  proof (cases f)
    case True
    with rT inv show ?thesis by simp
  next
    case False
    from Cons.IH [OF rF [rule_format, OF False]] inv False s1 \<open>tree_names_ok s1\<close> Cons.prems(4)
      node_at_tree [OF t] tree_names_ok_tree [OF t]
    show ?thesis by simp
  qed
qed

text \<open>What holds along a walk: an invariant of the loop and a result for its two normal exits.\<close>

lemma list_walk_rule:
  assumes "list_walk x limit stack l s = (Ok l', s')" "I stack l s"
    and skip: "\<And>dir pre stack l s s1.
        read_dir dir s = (Err IoNotFound, s1) \<Longrightarrow> I ((dir, pre) # stack) l s \<Longrightarrow> I stack l s1"
    and scan: "\<And>dir pre stack l s names s1 st2 l2 s2.
        read_dir dir s = (Ok names, s1) \<Longrightarrow>
        scan_dir x limit dir pre names stack l s1 = (Ok (False, st2, l2), s2) \<Longrightarrow>
        I ((dir, pre) # stack) l s \<Longrightarrow> I st2 l2 s2"
    and full: "\<And>dir pre stack l s names s1 st2 l2 s2.
        read_dir dir s = (Ok names, s1) \<Longrightarrow>
        scan_dir x limit dir pre names stack l s1 = (Ok (True, st2, l2), s2) \<Longrightarrow>
        I ((dir, pre) # stack) l s \<Longrightarrow> Q l2 s2"
    and finish: "\<And>l s. I [] l s \<Longrightarrow> Q l s"
  shows "Q l' s'"
  using assms
proof (induction x limit stack l s rule: list_walk.induct)
  case (1 x limit l s)
  then show ?case by simp
next
  case (2 x limit dir pre stack l s)
  note skip = "2.prems"(3) and scan = "2.prems"(4) and full = "2.prems"(5)
  obtain r s1 where rd: "read_dir dir s = (r, s1)" by fastforce
  show ?case
  proof (cases r)
    case (Err k)
    with "2.prems"(1) rd have k: "k = IoNotFound" "list_walk x limit stack l s1 = (Ok l', s')"
      by (auto split: io_kind.splits)
    from "2.IH"(2) [OF rd [symmetric] Err k(1) k(2) skip [OF rd [unfolded Err k(1)] "2.prems"(2)]]
      "2.prems"(3-6) show ?thesis by blast
  next
    case Panic
    with "2.prems"(1) rd show ?thesis by simp
  next
    case (Ok names)
    obtain r2 s2 where sc: "scan_dir x limit dir pre names stack l s1 = (r2, s2)" by fastforce
    from "2.prems"(1) rd Ok sc obtain f st2 l2 where r2: "r2 = Ok (f, st2, l2)"
      by (auto split: outcome.splits prod.splits)
    show ?thesis
    proof (cases f)
      case True
      with "2.prems"(1) rd Ok sc r2 have "l' = l2" "s' = s2" by simp_all
      with full [OF rd [unfolded Ok] sc [unfolded r2 True[THEN eqTrueI]] "2.prems"(2)]
      show ?thesis using True r2 by simp
    next
      case False
      with "2.prems"(1) rd Ok sc r2 have w: "list_walk x limit st2 l2 s2 = (Ok l', s')" by simp
      from False have f: "f = False" by simp
      from "2.IH"(1) [OF rd [symmetric] Ok sc [symmetric] r2 refl f refl w
          scan [OF rd [unfolded Ok] sc [unfolded r2 f] "2.prems"(2)]]
        "2.prems"(3-6) show ?thesis by blast
    qed
  qed
qed

lemma scan_dir_inv_step:
  assumes rd: "read_dir dir s = (Ok names, s1)"
    and sc: "scan_dir x limit dir pre names stack l s1 = (Ok (f, st2, l2), s2)"
    and I: "listing_inv x objs g limit False l \<and> stack_ok objs ((dir, pre) # stack)
      \<and> tree_names_ok s \<and> node_at s = g"
  shows "listing_inv x objs g limit f l2 \<and> stack_ok objs st2 \<and> tree_names_ok s2 \<and> node_at s2 = g"
proof -
  from read_dir_tree [OF rd] have t1: "fs_tree s1 = fs_tree s" .
  from scan_dir_tree [OF sc] t1 have t2: "fs_tree s2 = fs_tree s" by simp
  from I have "dir = objs @ pre" "stack_ok objs stack" by (auto simp: stack_ok_def)
  with scan_dir_inv [OF sc, of objs] I node_at_tree [OF t1] node_at_tree [OF t2]
    tree_names_ok_tree [OF t1] tree_names_ok_tree [OF t2]
  show ?thesis by simp
qed

lemma list_walk_inv:
  assumes "list_walk x limit stack l s = (Ok l', s')"
    and "listing_inv x objs g limit False l" "stack_ok objs stack" "tree_names_ok s" "node_at s = g"
  shows "\<exists>full. listing_inv x objs g limit full l'"
proof (rule list_walk_rule [where I = "\<lambda>stack l s. listing_inv x objs g limit False l
      \<and> stack_ok objs stack \<and> tree_names_ok s \<and> node_at s = g"
      and Q = "\<lambda>l s. \<exists>full. listing_inv x objs g limit full l", OF assms(1)])
  fix dir pre stack l s s1
  assume "read_dir dir s = (Err IoNotFound, s1)"
    and "listing_inv x objs g limit False l \<and> stack_ok objs ((dir, pre) # stack)
      \<and> tree_names_ok s \<and> node_at s = g"
  moreover from \<open>read_dir dir s = _\<close> have t: "fs_tree s1 = fs_tree s" by (rule read_dir_tree)
  ultimately show "listing_inv x objs g limit False l \<and> stack_ok objs stack \<and> tree_names_ok s1 \<and> node_at s1 = g"
    using node_at_tree [OF t] tree_names_ok_tree [OF t] by (simp add: stack_ok_def)
next
  fix dir pre stack l s names s1 st2 l2 s2
  assume "read_dir dir s = (Ok names, s1)"
    "scan_dir x limit dir pre names stack l s1 = (Ok (False, st2, l2), s2)"
    "listing_inv x objs g limit False l \<and> stack_ok objs ((dir, pre) # stack)
      \<and> tree_names_ok s \<and> node_at s = g"
  then show "listing_inv x objs g limit False l2 \<and> stack_ok objs st2 \<and> tree_names_ok s2 \<and> node_at s2 = g"
    by (rule scan_dir_inv_step)
next
  fix dir pre stack l s names s1 st2 l2 s2
  assume "read_dir dir s = (Ok names, s1)"
    "scan_dir x limit dir pre names stack l s1 = (Ok (True, st2, l2), s2)"
    "listing_inv x objs g limit False l \<and> stack_ok objs ((dir, pre) # stack)
      \<and> tree_names_ok s \<and> node_at s = g"
  from scan_dir_inv_step [OF this] show "\<exists>full. listing_inv x objs g limit full l2" by blast
qed (use assms(2-5) in auto)


section \<open>What is there is listed\<close>

definition dir_at :: "nodes \<Rightarrow> path \<Rightarrow> bool" where
  "dir_at g p = (case g p of Some n \<Rightarrow> node_is_dir n | None \<Rightarrow> False)"

lemma dir_at_iff: "dir_at g p \<longleftrightarrow> (\<exists>m. g p = Some (Dir m))"
  by (auto simp: dir_at_def split: option.splits elim!: node_is_dir.elims)

definition object_there :: "externs \<Rightarrow> path \<Rightarrow> nodes \<Rightarrow> ustr list \<Rightarrow> object_key \<Rightarrow> bool" where
  "object_there x objs g segs key \<longleftrightarrow>
     length segs = 4 \<and> node_content (g (objs @ segs)) \<noteq> None
     \<and> (\<forall>i\<le>3. dir_at g (objs @ take i segs))
     \<and> list_all (list_all valid_char) segs
     \<and> object_key_parse x (str_join (lit ''/'') segs) = Ok key"

definition covered :: "path \<Rightarrow> ustr list \<Rightarrow> object_key \<Rightarrow> walk_stack \<Rightarrow> object_listing \<Rightarrow> bool" where
  "covered objs segs key stack l \<longleftrightarrow>
     key \<in> set (listing_keys l)
     \<or> (\<exists>n\<le>3. (objs @ take n segs, take n segs) \<in> set stack)"

lemma object_there_child:
  assumes "object_there x objs g segs key" "n \<le> 3"
  shows "g (objs @ take n segs @ [segs ! n]) \<noteq> None \<and> list_all valid_char (segs ! n)
    \<and> take (Suc n) segs = take n segs @ [segs ! n]"
proof -
  have n: "n < length segs" using assms by (simp add: object_there_def)
  then have t: "take (Suc n) segs = take n segs @ [segs ! n]" by (simp add: take_Suc_conv_app_nth)
  have "g (objs @ take (Suc n) segs) \<noteq> None"
  proof (cases "Suc n \<le> 3")
    case True
    with assms(1) show ?thesis unfolding object_there_def dir_at_iff by (metis option.distinct(1))
  next
    case False
    with n assms(1) have "take (Suc n) segs = segs" by (simp add: object_there_def)
    with assms(1) show ?thesis unfolding object_there_def dir_at_iff by (metis node_content.simps(4))
  qed
  moreover have "list_all valid_char (segs ! n)"
    using assms(1) n by (auto simp: object_there_def list_all_iff)
  ultimately show ?thesis using t by simp
qed

lemma scan_entry_covered:
  assumes "scan_entry x limit (objs @ take n segs) (take n segs) (segs ! n) stack l s
      = (Ok (False, stack', l'), s')"
    and there: "object_there x objs (node_at s) segs key" and n: "n \<le> 3"
  shows "covered objs segs key stack' l'"
proof -
  note child = object_there_child [OF there n]
  have len: "length (take n segs) = n" using there n by (simp add: object_there_def)
  show ?thesis
  proof (cases "n = 3")
    case True
    then have segs: "take n segs @ [segs ! n] = segs" using child there by (simp add: object_there_def)
    then have "node_content (node_at s ((objs @ take n segs) @ [segs ! n])) \<noteq> None"
      using there by (simp add: object_there_def)
    then obtain m c t where "node_at s ((objs @ take n segs) @ [segs ! n]) = Some (File m c t)"
      by (metis node_content_Some not_None_eq)
    with scan_entry_Ok [OF assms(1)] segs there child len True show ?thesis
      by (auto simp: covered_def object_there_def)
  next
    case False
    with n have "Suc n \<le> 3" by simp
    with there obtain m where "node_at s (objs @ take (Suc n) segs) = Some (Dir m)"
      unfolding object_there_def dir_at_iff by blast
    with child have "node_at s ((objs @ take n segs) @ [segs ! n]) = Some (Dir m)" by simp
    with scan_entry_Ok [OF assms(1)] child len n False
    have "stack' = (objs @ take (Suc n) segs, take (Suc n) segs) # stack" by auto
    with \<open>Suc n \<le> 3\<close> show ?thesis by (auto simp: covered_def intro: exI [of _ "Suc n"])
  qed
qed

lemma scan_entry_covered_mono:
  assumes "scan_entry x limit dir pre name stack l s = (Ok (f, stack', l'), s')"
    and "covered objs segs key stack l"
  shows "covered objs segs key stack' l'"
proof -
  from scan_entry_Ok [OF assms(1)] have "set stack \<subseteq> set stack'"
    "set (listing_keys l) \<subseteq> set (listing_keys l')" by auto
  with assms(2) show ?thesis unfolding covered_def by blast
qed

lemma scan_dir_covered:
  "scan_dir x limit dir pre names stack l s = (Ok (False, stack', l'), s') \<Longrightarrow>
   object_there x objs (node_at s) segs key \<Longrightarrow>
   covered objs segs key stack l
     \<or> (\<exists>n\<le>3. dir = objs @ take n segs \<and> pre = take n segs \<and> segs ! n \<in> set names) \<Longrightarrow>
   covered objs segs key stack' l'"
proof (induction names arbitrary: stack l s)
  case Nil
  then show ?case by (auto simp: outcome_simps)
next
  case (Cons name names)
  from Cons.prems(1) obtain s1 f st2 l2 s2 where
    n: "io_call ''iterate objects directory'' next_entry s = (Ok (), s1)" and
    e: "scan_entry x limit dir pre name stack l s1 = (Ok (f, st2, l2), s2)" and
    rT: "f \<longrightarrow> False \<and> st2 = stack' \<and> l2 = l'" and
    rF: "\<not> f \<longrightarrow> scan_dir x limit dir pre names st2 l2 s2 = (Ok (False, stack', l'), s')"
    by (rule scan_dir_ConsE) (rule that)
  from rT have f: "f = False" by simp
  from next_entry_node_at [OF n] have s1: "node_at s1 = node_at s" by simp
  from node_at_tree [OF scan_entry_tree [OF e]] s1 have s2: "node_at s2 = node_at s" by simp
  have "covered objs segs key st2 l2
     \<or> (\<exists>n\<le>3. dir = objs @ take n segs \<and> pre = take n segs \<and> segs ! n \<in> set names)"
    using Cons.prems(3)
  proof
    assume "covered objs segs key stack l"
    with scan_entry_covered_mono [OF e] show ?thesis by blast
  next
    assume "\<exists>n\<le>3. dir = objs @ take n segs \<and> pre = take n segs \<and> segs ! n \<in> set (name # names)"
    then obtain n where n: "n \<le> 3" "dir = objs @ take n segs" "pre = take n segs"
      "segs ! n = name \<or> segs ! n \<in> set names" by auto
    show ?thesis
    proof (cases "segs ! n = name")
      case True
      with scan_entry_covered [of x limit objs n segs stack l s1 st2 l2 s2 key] e f n s1
        Cons.prems(2) show ?thesis by simp
    next
      case False
      with n show ?thesis by blast
    qed
  qed
  from Cons.IH [OF rF [rule_format]] f Cons.prems(2) s2 this show ?case by simp
qed

lemma scan_dir_full:
  "scan_dir x limit dir pre names stack l s = (Ok (True, stack', l'), s') \<Longrightarrow> listing_truncated l'"
proof (induction names arbitrary: stack l s)
  case (Cons name names)
  from Cons.prems(1) obtain s1 f st2 l2 s2 where
    n: "io_call ''iterate objects directory'' next_entry s = (Ok (), s1)" and
    e: "scan_entry x limit dir pre name stack l s1 = (Ok (f, st2, l2), s2)" and
    rT: "f \<longrightarrow> True \<and> st2 = stack' \<and> l2 = l'" and
    rF: "\<not> f \<longrightarrow> scan_dir x limit dir pre names st2 l2 s2 = (Ok (True, stack', l'), s')"
    by (rule scan_dir_ConsE) (rule that)
  show ?case
  proof (cases f)
    case True
    with scan_entry_Ok [OF e] rT show ?thesis by auto
  next
    case False
    with Cons.IH rF show ?thesis by blast
  qed
qed (auto simp: outcome_simps)

lemma list_walk_covered:
  assumes "list_walk x limit stack l s = (Ok l', s')" "\<not> listing_truncated l'"
    and "object_there x objs g segs key" "node_at s = g" "covered objs segs key stack l"
    and "stack_ok objs stack"
  shows "key \<in> set (listing_keys l')"
proof -
  have "listing_truncated l' \<or> key \<in> set (listing_keys l')"
  proof (rule list_walk_rule [where I = "\<lambda>stack l s. node_at s = g \<and> covered objs segs key stack l"
        and Q = "\<lambda>l s. listing_truncated l \<or> key \<in> set (listing_keys l)", OF assms(1)])
    fix dir pre stack l s s1
    assume rd: "read_dir dir s = (Err IoNotFound, s1)"
      and I: "node_at s = g \<and> covered objs segs key ((dir, pre) # stack) l"
    from node_at_tree [OF read_dir_tree [OF rd]] I have s1: "node_at s1 = g" by simp
    have "node_at s dir = None"
      using rd by (auto simp: read_dir_def sys_look_def node_at_def next_fault_def
          split: list.splits fault.splits option.splits node.splits)
    then have "\<not> (\<exists>n\<le>3. dir = objs @ take n segs)"
      using I assms(3) unfolding object_there_def dir_at_iff
      by (metis option.distinct(1))
    with I s1 show "node_at s1 = g \<and> covered objs segs key stack l" by (auto simp: covered_def)
  next
    fix dir pre stack l s names s1 st2 l2 s2
    assume rd: "read_dir dir s = (Ok names, s1)"
      and sc: "scan_dir x limit dir pre names stack l s1 = (Ok (False, st2, l2), s2)"
      and I: "node_at s = g \<and> covered objs segs key ((dir, pre) # stack) l"
    from node_at_tree [OF read_dir_tree [OF rd]] I have s1: "node_at s1 = g" by simp
    from node_at_tree [OF scan_dir_tree [OF sc]] s1 have s2: "node_at s2 = g" by simp
    have names: "names = children dir s" by (rule read_dir_Ok [OF rd])
    have "covered objs segs key stack l
       \<or> (\<exists>n\<le>3. dir = objs @ take n segs \<and> pre = take n segs \<and> segs ! n \<in> set names)"
    proof (cases "covered objs segs key stack l")
      case False
      with I obtain n where n: "n \<le> 3" "dir = objs @ take n segs" "pre = take n segs"
        by (auto simp: covered_def)
      from object_there_child [OF assms(3) n(1)] I have "node_at s (dir @ [segs ! n]) \<noteq> None"
        unfolding n(2) by simp
      from children_mem [OF this] n names show ?thesis by blast
    qed blast
    from scan_dir_covered [OF sc _ this] s1 s2 assms(3)
    show "node_at s2 = g \<and> covered objs segs key st2 l2" by simp
  next
    fix dir pre stack l s names s1 st2 l2 s2
    assume "scan_dir x limit dir pre names stack l s1 = (Ok (True, st2, l2), s2)"
    then show "listing_truncated l2 \<or> key \<in> set (listing_keys l2)" by (simp add: scan_dir_full)
  qed (use assms(4,5) in \<open>auto simp: covered_def\<close>)
  with assms(2) show ?thesis by blast
qed


section \<open>A concrete listing\<close>

definition sample_object_place :: path where
  "sample_object_place = object_path sample_externs sample_store sample_ns (content_digest sample_externs [])"

definition sample_objects_fs :: fs where
  "sample_objects_fs = sample_fs\<lparr>fs_tree := fs_tree sample_fs @
     [(take 3 sample_object_place, Dir 0), (take 4 sample_object_place, Dir 0),
      (take 5 sample_object_place, Dir 0), (sample_object_place, File 0 [] 0),
      ([lit ''r'', lit ''staging'', lit ''a.part''], File 0 [1, 2] 3)]\<rparr>"

definition sample_object_key :: object_key where
  "sample_object_key = ObjectKey (key_text sample_externs sample_ns (content_digest sample_externs []))"

lemma sample_list_two:
  "list_objects sample_externs sample_store 2 sample_objects_fs =
     (Ok \<lparr>listing_keys = [sample_object_key], listing_truncated = False\<rparr>, sample_objects_fs)"
  by code_simp

lemma sample_names_ok: "tree_names_ok sample_objects_fs"
  by code_simp


lemma sample_object_there:
  "object_there sample_externs (objects_root sample_store) (node_at sample_objects_fs)
     (drop 2 sample_object_place) sample_object_key"
  by code_simp


end
