(* ===== verification/StoreKeeps.thy ===== *)
theory StoreKeeps
  imports StoreOps StoreSweep StoreList
begin

text \<open>
  What every operation of the object store that the server and the worker call keeps, on every
  exit: no call is left in flight, every file at the place of an object hashes to its name, and
  the objects that are stored stay stored. Nothing in the program calls \<open>delete_object\<close>.
\<close>

definition objects_present :: "path set \<Rightarrow> nodes \<Rightarrow> bool" where
  "objects_present A f \<longleftrightarrow> (\<forall>p\<in>A. node_content (f p) \<noteq> None)"

fun present_allowed :: "path set \<Rightarrow> fs_op \<Rightarrow> bool" where
  "present_allowed A (OpRemove p) = (p \<notin> A)"
| "present_allowed A (OpRename a b) = (a \<notin> A \<and> a \<noteq> b)"
| "present_allowed A (OpCreate p) = True"
| "present_allowed A (OpWrite p bs) = True"
| "present_allowed A OpFlush = True"
| "present_allowed A (OpMkdirAll p) = True"
| "present_allowed A (OpChmod p m) = True"

lemma perform_grows:
  "op = OpCreate p \<or> op = OpWrite p bs \<Longrightarrow> node_content (node_at s q) \<noteq> None
    \<Longrightarrow> node_content (node_at (snd (perform op s)) q) \<noteq> None"
  by (auto simp: perform.simps split: option.splits node.splits)

lemma rename_present:
  "a \<noteq> b \<Longrightarrow> q \<noteq> a \<Longrightarrow> node_content (node_at s q) \<noteq> None
    \<Longrightarrow> node_content (node_at (snd (perform (OpRename a b) s)) q) \<noteq> None"
  by (auto simp: perform.simps split: option.splits node.splits)

interpretation present: tree_invariant "objects_present A" "present_allowed A" for A
proof unfold_locales
  show "objects_present A (node_at (snd (perform op s)))"
    if op: "present_allowed A op" and s: "objects_present A (node_at s)" for op s
    unfolding objects_present_def
  proof
    fix p assume p: "p \<in> A"
    with s have there: "node_content (node_at s p) \<noteq> None" by (simp add: objects_present_def)
    show "node_content (node_at (snd (perform op s)) p) \<noteq> None"
    proof (cases op)
      case (OpRename a b)
      with op p have "a \<noteq> b" "p \<noteq> a" by auto
      from rename_present [OF this there] OpRename show ?thesis by simp
    next
      case (OpRemove q)
      with op p there show ?thesis by (auto simp: perform_remove_content)
    next
      case (OpCreate q)
      then show ?thesis using perform_grows [of op q "[]" s p] there by blast
    next
      case (OpWrite q bs)
      then show ?thesis using perform_grows [of op q bs s p] there by blast
    qed (use there in \<open>simp_all add: perform_content_other\<close>)
  qed
  show "present_allowed A (partial_op op n)" if "present_allowed A op" for op n
    using that by (cases op) auto
qed

section \<open>Operations that only look, and those that touch the staging directory\<close>

context tree_invariant begin

lemma keeps_read_dir: "st_keeps safe (read_dir d)"
  unfolding read_dir_def by (rule keeps_look)

lemma keeps_symlink_metadata: "st_keeps safe (symlink_metadata p)"
  unfolding symlink_metadata_def by (rule keeps_look)

lemma keeps_next_entry: "st_keeps safe next_entry"
  unfolding next_entry_def by (rule keeps_look)

lemma keeps_open_object: "st_keeps safe (open_object st k)"
  unfolding open_object_def stat_object_def symlink_metadata_def
  by (intro call_rules)

lemma keeps_scan_entry: "st_keeps safe (scan_entry x limit dir pre name stack listing)"
proof (rule st_keepsI)
  fix s assume s: "safe s"
  obtain r s1 where m: "symlink_metadata (dir @ [name]) s = (r, s1)" by fastforce
  have "safe s1" by (rule st_keepsD [OF keeps_symlink_metadata s m])
  with s m show "safe (snd (scan_entry x limit dir pre name stack listing s))"
    by (auto simp: scan_entry_def Let_def split: option.split outcome.split io_kind.split)
qed

lemma keeps_scan_dir: "st_keeps safe (scan_dir x limit dir pre names stack listing)"
  by (induction names arbitrary: stack listing)
     (auto intro!: call_rules keeps_next_entry keeps_scan_entry)

lemma keeps_list_walk: "safe s \<Longrightarrow> safe (snd (list_walk x limit stack listing s))"
proof (induction x limit stack listing s rule: list_walk.induct)
  case (2 x limit dir pre stack listing s)
  obtain r s1 where rd: "read_dir dir s = (r, s1)" by fastforce
  have s1: "safe s1" by (rule st_keepsD [OF keeps_read_dir 2(3) rd])
  note deeper = 2(1) and missing = 2(2)
  show ?case
  proof (cases r)
    case (Ok names)
    obtain r2 s2 where sc: "scan_dir x limit dir pre names stack listing s1 = (r2, s2)" by fastforce
    have s2: "safe s2" by (rule st_keepsD [OF keeps_scan_dir s1 sc])
    show ?thesis
    proof (cases r2)
      case (Ok v)
      obtain full st2 l2 where v: "v = (full, st2, l2)" by (cases v)
      show ?thesis
      proof (cases full)
        case True
        with rd \<open>r = Ok names\<close> sc Ok v s2 show ?thesis by simp
      next
        case False
        then have "full = False" by simp
        with rd \<open>r = Ok names\<close> sc Ok v
          deeper [OF rd [symmetric] \<open>r = Ok names\<close> sc [symmetric] Ok v [symmetric] \<open>full = False\<close> refl s2]
        show ?thesis by simp
      qed
    qed (use rd Ok sc s2 in auto)
  next
    case (Err k)
    with rd s1 missing [OF rd [symmetric] Err] show ?thesis by (cases k) auto
  qed (use rd s1 in auto)
qed simp

lemma keeps_list_objects: "st_keeps safe (list_objects x st limit)"
  by (rule st_keepsI) (simp add: list_objects_def st_ok_def keeps_list_walk del: list_walk.simps)

lemma keeps_sweep_one:
  assumes "allowed (OpRemove p)" shows "st_keeps safe (sweep_one p cutoff sw)"
proof (rule st_keepsI)
  fix s assume s: "safe s"
  obtain r s1 where m: "symlink_metadata p s = (r, s1)" by fastforce
  have s1: "safe s1" by (rule st_keepsD [OF keeps_symlink_metadata s m])
  obtain r2 s2 where rm: "sys_call (OpRemove p) s1 = (r2, s2)" by fastforce
  have "safe s2" by (rule st_keepsD [OF keeps_call [OF assms] s1 rm])
  with s1 m rm show "safe (snd (sweep_one p cutoff sw s))"
    by (auto simp: sweep_one_def split: outcome.split io_kind.split)
qed

lemma keeps_sweep_staging:
  assumes "\<And>name. allowed (OpRemove (staging_root st @ [name]))"
  shows "st_keeps safe (sweep_staging st age)"
proof -
  have entries: "st_keeps safe (sweep_entries (staging_root st) cutoff names sw)" for cutoff names sw
    by (induction names arbitrary: sw) (auto intro!: call_rules keeps_next_entry keeps_sweep_one assms)
  have "st_keeps safe (\<lambda>s. sweep_entries (staging_root st) (sweep_cutoff (fs_now s) age) names
       \<lparr>removed_files = 0, removed_bytes = 0\<rparr> s)" for names
    using entries by (auto simp: st_keeps_def)
  then show ?thesis
    unfolding sweep_staging_def by (intro keeps_future call_rules keeps_read_dir)
qed

lemma keeps_check_dirs: "st_keeps safe (check_dirs ds)"
  by (induction ds) (auto simp: metadata_is_dir_def intro!: call_rules)

lemma keeps_store_health:
  assumes "allowed (OpRemove (probe_path x st fresh))" "allowed (OpCreate (probe_path x st fresh))"
    "\<And>bs. allowed (OpWrite (probe_path x st fresh) bs)" "allowed OpFlush"
  shows "st_keeps safe (store_health x st fresh)"
  unfolding store_health_def
  by (intro keeps_future call_rules keeps_check_dirs keeps_guarded keeps_private_create keeps_call assms)

lemma keeps_pair:
  "(\<And>a b. st_keeps safe (f a b)) \<Longrightarrow> st_keeps safe (case z of (a, b) \<Rightarrow> f a b)"
  by (cases z) simp

lemma keeps_maybe:
  "st_keeps safe f \<Longrightarrow> (\<And>a. st_keeps safe (g a))
    \<Longrightarrow> st_keeps safe (case z of None \<Rightarrow> f | Some a \<Rightarrow> g a)"
  by (cases z) simp_all

lemma keeps_put_stream:
  assumes "uuid_documented x" "sha256_documented x"
    and "allowed (OpRemove (staging_path x st fresh))" "allowed (OpCreate (staging_path x st fresh))"
    "\<And>bs. allowed (OpWrite (staging_path x st fresh) bs)" "allowed OpFlush"
    "\<And>p. allowed (OpMkdirAll p)" "\<And>p m. allowed (OpChmod p m)"
    "\<And>d. allowed (OpRename (staging_path x st fresh) (object_path x st ns d))"
  shows "st_keeps safe (put_stream x st fresh ns body)"
  unfolding put_stream_def Let_def put_staged_publish [OF assms(1,2)] stage_body_def
  by (intro keeps_future keeps_guarded keeps_pair keeps_maybe call_rules keeps_private_create
      keeps_write_chunks keeps_call keeps_publish keeps_sync_dir assms)

end

section \<open>No call stays in flight\<close>

text \<open>Code whose calls have all ended when it returns; a dropped future waits for its last call.\<close>

definition quiet :: "(fs, 'e, 'a) stateful \<Rightarrow> bool" where
  "quiet m \<longleftrightarrow> (\<forall>s. fs_late s = [] \<longrightarrow> fst (m s) \<noteq> Panic \<longrightarrow> fs_late (snd (m s)) = [])"

definition at_rest :: "fs \<Rightarrow> bool" where
  "at_rest s \<longleftrightarrow> fs_late s = []"

named_theorems quiet_rules

lemma quiet_calm [quiet_rules]: "calm m \<Longrightarrow> quiet m"
  unfolding quiet_def by (metis calmD prod.collapse)

lemma quiet_then: "quiet m \<Longrightarrow> (\<And>a. quiet (f a)) \<Longrightarrow> quiet (st_then m f)"
  unfolding quiet_def st_then_def by (fastforce split: prod.splits outcome.splits)

lemma quiet_guarded: "quiet m \<Longrightarrow> quiet (guarded p m)"
  unfolding quiet_def guarded_def by (fastforce split: prod.splits outcome.splits)

lemma at_rest_future: "quiet m \<Longrightarrow> st_keeps at_rest (future m)"
  unfolding quiet_def st_keeps_def future_def at_rest_def
  by (fastforce simp: run_late_def split: prod.splits outcome.splits)

lemma quiet_maybe: "quiet f \<Longrightarrow> (\<And>a. quiet (g a)) \<Longrightarrow> quiet (case z of None \<Rightarrow> f | Some a \<Rightarrow> g a)"
  by (cases z) simp_all

lemma quiet_pair: "(\<And>a b. quiet (f a b)) \<Longrightarrow> quiet (case z of (a, b) \<Rightarrow> f a b)"
  by (cases z) simp

lemma at_rest_put_stream: "st_keeps at_rest (put_stream x st fresh ns body)"
  unfolding put_stream_def Let_def
  by (intro at_rest_future quiet_then quiet_guarded quiet_pair quiet_maybe quiet_calm calm_rules)

text \<open>Where no call is allowed there is none: such code leaves the tree as it is.\<close>

interpretation still: tree_invariant "\<lambda>f. f = g" "\<lambda>op. False" for g
  by unfold_locales simp_all

lemma still_iff: "safe_fs (\<lambda>f. f = g) (\<lambda>op. False) s \<longleftrightarrow> node_at s = g \<and> fs_late s = []"
  by (cases "fs_late s") (simp_all add: safe_fs_def)

lemma still_keepsD:
  assumes "st_keeps (safe_fs (\<lambda>f. f = node_at s) (\<lambda>op. False)) m" "fs_late s = []" "m s = (r, s')"
  shows "node_at s' = node_at s \<and> fs_late s' = []"
  using st_keepsD [OF assms(1) _ assms(3)] assms(2) by (simp add: still_iff)

lemma calm_check_dirs: "calm (check_dirs ds)"
proof -
  have "calm (st_err e :: (fs, storage_error, unit) stateful)" for e
    by (simp add: calm_def st_err_def)
  then show ?thesis by (induction ds) (auto simp: metadata_is_dir_def intro!: calm_rules)
qed

lemma at_rest_store_health: "st_keeps at_rest (store_health x st fresh)"
  unfolding store_health_def
  by (intro at_rest_future quiet_then quiet_guarded quiet_calm calm_check_dirs calm_rules)

lemma calm_sweep_one: "calm (sweep_one p cutoff sw)"
  unfolding calm_def
proof (intro allI impI)
  fix s r s' assume e: "sweep_one p cutoff sw s = (r, s')"
  obtain r1 s1 where m: "symlink_metadata p s = (r1, s1)" by fastforce
  obtain r2 s2 where rm: "sys_call (OpRemove p) s1 = (r2, s2)" by fastforce
  have "calm (symlink_metadata p)" by (simp add: symlink_metadata_def calm_look)
  from calmD [OF this m] calmD [OF calm_call rm] e m rm
  show "fs_drop_faults s' = fs_drop_faults s \<and> (r \<noteq> Panic \<longrightarrow> fs_late s' = fs_late s)"
    by (auto simp: sweep_one_def split: outcome.splits io_kind.splits if_splits)
qed

lemma calm_sweep_entries: "calm (sweep_entries d cutoff names sw)"
  by (induction names arbitrary: sw) (auto simp: next_entry_def intro!: calm_rules calm_sweep_one)

lemma at_rest_sweep_staging: "st_keeps at_rest (sweep_staging st age)"
proof -
  have "calm (\<lambda>s. sweep_entries (staging_root st) (sweep_cutoff (fs_now s) age) names sw s)" for names sw
    using calm_sweep_entries by (auto simp: calm_def)
  then show ?thesis
    unfolding sweep_staging_def read_dir_def
    by (intro at_rest_future quiet_then quiet_calm calm_rules)
qed

section \<open>The store through a run\<close>

text \<open>
  \<open>A\<close> are the places of objects that are to stay. The invariant holds between operations: nothing
  is in flight, stored objects hash to their names, and those at \<open>A\<close> are there.
\<close>

definition store_inv :: "externs \<Rightarrow> fs_store \<Rightarrow> path set \<Rightarrow> fs \<Rightarrow> bool" where
  "store_inv x st A s \<longleftrightarrow> at_rest s \<and> (\<forall>p\<in>A. is_object_path (objects_root st) p)
     \<and> content_ok x (objects_root st) (node_at s) \<and> objects_present A (node_at s)"

lemma store_inv_safe:
  "store_inv x st A s \<Longrightarrow> safe_fs (objects_present A) (present_allowed A) s"
  by (simp add: store_inv_def at_rest_def safe_fs_def)

lemma probe_not_object: "store_layout st \<Longrightarrow> \<not> is_object_path (objects_root st) (probe_path x st fresh)"
  by (auto simp: is_object_path_def probe_path_def store_layout_def prefix_def)

lemma store_inv_still:
  assumes "\<And>g. st_keeps (safe_fs (\<lambda>f. f = g) (\<lambda>op. False)) m"
  shows "st_keeps (store_inv x st A) m"
proof (rule st_keepsI)
  fix s assume "store_inv x st A s"
  with still_keepsD [OF assms, of s "fst (m s)" "snd (m s)"] show "store_inv x st A (snd (m s))"
    by (simp add: store_inv_def at_rest_def)
qed

lemma store_inv_open: "st_keeps (store_inv x st A) (open_object st k)"
  by (intro store_inv_still still.keeps_open_object)

lemma store_inv_list: "st_keeps (store_inv x st A) (list_objects x st limit)"
  by (intro store_inv_still still.keeps_list_objects)

lemma object_not_staged:
  "store_layout st \<Longrightarrow> is_object_path (objects_root st) p \<Longrightarrow> p \<noteq> staging_root st @ [name]"
  by (auto simp: is_object_path_def store_layout_def)

lemma store_inv_health:
  assumes "store_layout st" "store_inv x st A s"
  shows "store_inv x st A (snd (store_health x st fresh s))"
proof -
  have no: "probe_path x st fresh \<notin> A"
    using assms object_not_staged [OF assms(1)] by (auto simp: store_inv_def probe_path_def)
  have obj: "\<not> is_object_path (objects_root st) (probe_path x st fresh)"
    using object_not_staged [OF assms(1)] by (auto simp: probe_path_def)
  have "safe_fs (content_ok x (objects_root st)) (content_allowed (objects_root st)) s"
    using assms(2) by (simp add: store_inv_def at_rest_def safe_fs_def)
  moreover have "st_keeps (safe_fs (content_ok x (objects_root st)) (content_allowed (objects_root st)))
      (store_health x st fresh)"
    by (rule content.keeps_store_health) (simp_all add: obj)
  ultimately have "safe_fs (content_ok x (objects_root st)) (content_allowed (objects_root st))
      (snd (store_health x st fresh s))"
    by (rule st_keeps_snd [rotated])
  moreover have "safe_fs (objects_present A) (present_allowed A) (snd (store_health x st fresh s))"
    by (rule st_keeps_snd [OF present.keeps_store_health store_inv_safe [OF assms(2)]]) (simp_all add: no)
  moreover have "at_rest (snd (store_health x st fresh s))"
    using st_keeps_snd [OF at_rest_store_health] assms(2) by (simp add: store_inv_def)
  ultimately show ?thesis using assms(2) by (auto simp: store_inv_def safe_fs_def)
qed

lemma store_inv_sweep:
  assumes "store_layout st" "store_inv x st A s"
  shows "store_inv x st A (snd (sweep_staging st age s))"
proof -
  have no: "staging_root st @ [name] \<notin> A" for name
    using assms object_not_staged [OF assms(1)] by (auto simp: store_inv_def)
  have "safe_fs (content_ok x (objects_root st)) (content_allowed (objects_root st)) s"
    using assms(2) by (simp add: store_inv_def at_rest_def safe_fs_def)
  moreover have "st_keeps (safe_fs (content_ok x (objects_root st)) (content_allowed (objects_root st)))
      (sweep_staging st age)"
    by (rule content.keeps_sweep_staging) simp
  ultimately have "safe_fs (content_ok x (objects_root st)) (content_allowed (objects_root st))
      (snd (sweep_staging st age s))"
    by (rule st_keeps_snd [rotated])
  moreover have "safe_fs (objects_present A) (present_allowed A) (snd (sweep_staging st age s))"
    by (rule st_keeps_snd [OF present.keeps_sweep_staging store_inv_safe [OF assms(2)]]) (simp_all add: no)
  moreover have "at_rest (snd (sweep_staging st age s))"
    using st_keeps_snd [OF at_rest_sweep_staging] assms(2) by (simp add: store_inv_def)
  ultimately show ?thesis using assms(2) by (auto simp: store_inv_def safe_fs_def)
qed

lemma store_inv_put:
  assumes "uuid_documented x" "sha256_documented x" "store_layout st" "store_inv x st A s"
  shows "store_inv x st A (snd (put_stream x st fresh ns body s))"
proof -
  let ?s' = "snd (put_stream x st fresh ns body s)"
  have no: "staging_path x st fresh \<notin> A"
    using assms(3,4) staging_not_object [OF assms(3)] by (auto simp: store_inv_def)
  have "content_ok x (objects_root st) (node_at ?s')"
    using assms by (intro put_stream_keeps_content) (simp_all add: store_inv_def at_rest_def)
  moreover have "safe_fs (objects_present A) (present_allowed A) ?s'"
    by (rule st_keeps_snd [OF present.keeps_put_stream [OF assms(1,2)] store_inv_safe [OF assms(4)]])
       (simp_all add: no staging_ne_object [OF assms(3)])
  moreover have "at_rest ?s'"
    using st_keeps_snd [OF at_rest_put_stream] assms(4) by (simp add: store_inv_def)
  ultimately show ?thesis using assms(4) by (auto simp: store_inv_def safe_fs_def)
qed

text \<open>After an upload its object is one of those that are there.\<close>

lemma store_inv_put_Ok:
  assumes "uuid_documented x" "sha256_documented x" "store_layout st" "store_inv x st A s"
    and put: "put_stream x st fresh ns body s = (Ok so, s')"
  shows "store_inv x st (insert (object_path x st ns (so_sha256 so)) A) s'
    \<and> so_key so = ObjectKey (key_text x ns (so_sha256 so)) \<and> is_sha256_hex (so_sha256 so)"
proof -
  have late: "fs_late s = []" using assms(4) by (simp add: store_inv_def at_rest_def)
  note stored = put_stream_success [OF assms(1-3) late put]
  have "store_inv x st A s'" using store_inv_put [OF assms(1-4)] put by (metis snd_conv)
  moreover have "file_at s' (object_path x st ns (so_sha256 so)) \<noteq> None"
    using stored by (auto split: if_splits)
  ultimately have "store_inv x st (insert (object_path x st ns (so_sha256 so)) A) s'"
    by (auto simp: store_inv_def objects_present_def file_at_def)
  with stored content_digest_hex [OF assms(2)] show ?thesis by auto
qed

text \<open>An object that is there can be read, and what is read hashes to the name.\<close>

lemma store_inv_open_Ok:
  assumes "uuid_documented x" "store_inv x st A s" "is_sha256_hex d"
    and "open_object st (ObjectKey (key_text x ns d)) s = (Ok b, s')"
  shows "content_digest x (ob_content b) = d \<and> ob_size_bytes b = of_nat (length (ob_content b))"
proof -
  let ?p = "object_path x st ns d"
  have p: "resolve_within (objects_root st) (ObjectKey (key_text x ns d)) = Ok ?p"
    using assms(1,3) by (simp add: resolve_key_text)
  with open_object_Ok [OF assms(4)] have "file_at s ?p = Some (ob_content b)"
    "ob_size_bytes b = of_nat (length (ob_content b))" by auto
  moreover have "content_ok x (objects_root st) (node_at s)" using assms(2) by (simp add: store_inv_def)
  ultimately show ?thesis
    using content_okD [OF _ object_path_is_object, of x st _ x ns d] by (simp add: file_at_def)
qed

lemma store_inv_open_succeeds:
  assumes "uuid_documented x" "store_inv x st A s" "is_sha256_hex d"
    and "object_path x st ns d \<in> A" "fs_faults s = []"
  shows "\<exists>b. open_object st (ObjectKey (key_text x ns d)) s = (Ok b, s)"
proof -
  have p: "resolve_within (objects_root st) (ObjectKey (key_text x ns d)) = Ok (object_path x st ns d)"
    using assms(1,3) by (simp add: resolve_key_text)
  from assms(2,4) obtain c where "file_at s (object_path x st ns d) = Some c"
    by (auto simp: store_inv_def objects_present_def file_at_def)
  from open_object_present [OF p this assms(5)] show ?thesis by blast
qed

end
