(* ===== verification/UploadFacts.thy ===== *)
theory UploadFacts
  imports Upload StoreKeeps
begin

text \<open>
  What the intake of a file guarantees: the format is decided as on the whole content, a file that
  is accepted was received completely, within the limit and exactly once, and what is stored is
  what was sent. The last part is the case the intake does not report.
\<close>

lemma on_fs_iff [outcome_simps]:
  "on_fs m w = (r, w') \<longleftrightarrow> (\<exists>s. m (w_fs w) = (r, s) \<and> w' = w\<lparr>w_fs := s\<rparr>)"
  by (auto simp: on_fs_def split: prod.splits)

lemma on_db_iff [outcome_simps]:
  "on_db m w = (r, w') \<longleftrightarrow> (\<exists>d. m (w_db w) = (r, d) \<and> w' = w\<lparr>w_db := d\<rparr>)"
  by (auto simp: on_db_def split: prod.splits)

lemma map_Ok_eq [simp]: "map Ok a = map Ok b \<longleftrightarrow> a = b"
  by (rule inj_map_eq_map) (simp add: inj_def)

lemma map_Ok_append: "map Ok bs = map Ok head @ rest \<Longrightarrow> \<exists>b. bs = head @ b \<and> rest = map Ok b"
  unfolding map_eq_append_conv by auto

section \<open>Holding back the signature\<close>

lemma hold_back_Ok:
  assumes "hold_back pre head cs = Ok (pre', head', rest)" "pre = concat head"
  shows "\<exists>bs. head' = head @ bs \<and> pre' = concat head' \<and> cs = map Ok bs @ rest
    \<and> (rest = [] \<or> signature_prefix_len \<le> length pre')"
  using assms
proof (induction pre head cs rule: hold_back.induct)
  case (2 pre head c cs)
  show ?case
  proof (cases "length pre < signature_prefix_len")
    case True
    with 2(2) obtain b where c: "c = Ok b"
      and step: "hold_back (pre @ b) (head @ [b]) cs = Ok (pre', head', rest)"
      by (cases c) auto
    from 2(1) [OF True c step] 2(3) obtain bs where "head' = (head @ [b]) @ bs" "pre' = concat head'"
        "cs = map Ok bs @ rest" "rest = [] \<or> signature_prefix_len \<le> length pre'"
      by auto
    with c show ?thesis by (intro exI [of _ "b # bs"]) auto
  next
    case False
    with 2 show ?thesis by auto
  qed
qed auto

lemma hold_back_bytes:
  "\<exists>pre' head' rest. hold_back pre head (map Ok bs) = Ok (pre', head', rest)"
  by (induction bs arbitrary: pre head) auto

lemma media_detect_held:
  assumes "rest = [] \<or> signature_prefix_len \<le> length pre"
  shows "media_detect (pre @ rest) = media_detect pre"
proof (cases "media_detect pre")
  case None
  with assms media_detect_append_None [of pre rest] show ?thesis by auto
qed (simp add: media_detect_append)

lemma decide_type_held:
  assumes "rest = [] \<or> signature_prefix_len \<le> length pre"
  shows "decide_type (pre @ rest) ty = decide_type pre ty"
  using assms media_detect_held [OF assms]
  by (auto simp: decide_type_def signature_prefix_len_def)

text \<open>
  C24: Deciding early is deciding right. The format and the refusals that the intake derives from the
  first chunks, before the rest of the file has arrived, are those it would derive from the whole
  content, however the content is cut into chunks; and no chunk is lost or reordered by it.
\<close>

theorem decides_as_on_whole_content:
  "\<exists>pre head rest. hold_back [] [] (map Ok bss) = Ok (pre, head, rest)
    \<and> decide_type pre ty = decide_type (concat bss) ty \<and> map Ok head @ rest = map Ok bss"
proof -
  obtain pre head rest where h: "hold_back [] [] (map Ok bss) = Ok (pre, head, rest)"
    using hold_back_bytes by blast
  from hold_back_Ok [OF h] have pre: "pre = concat head" "map Ok bss = map Ok head @ rest"
      "rest = [] \<or> signature_prefix_len \<le> length pre"
    by auto
  from map_Ok_append [OF pre(2)] obtain bs where bs: "bss = head @ bs" "rest = map Ok bs" by blast
  have "decide_type (pre @ concat bs) ty = decide_type pre ty"
    using pre(3) bs(2) by (intro decide_type_held) auto
  with h pre(1,2) bs show ?thesis by auto
qed

section \<open>One file\<close>

text \<open>What an accepted file has shown: \<open>bss\<close> are its chunks.\<close>

definition received_ok ::
    "externs \<Rightarrow> config \<Rightarrow> fs_store \<Rightarrow> uuid \<Rightarrow> object_namespace \<Rightarrow> field \<Rightarrow> fs \<Rightarrow> received_file \<Rightarrow> fs \<Rightarrow> bool"
  where
  "received_ok x c st fresh ns f s r s' \<longleftrightarrow>
     (\<exists>bss. field_chunks f = map Ok bss
        \<and> concat bss \<noteq> [] \<and> length (concat bss) \<le> unat (max_upload_bytes c)
        \<and> media_detect (concat bss) = Some (rf_media_type r)
        \<and> (\<forall>t. Option.bind (field_content_type f) media_parse = Some t \<longrightarrow> t = rf_media_type r)
        \<and> rf_filename r = display_filename
            (case field_file_name f of Some n \<Rightarrow> n | None \<Rightarrow> []) (rf_media_type r)
        \<and> so_sha256 (rf_stored r) = content_digest x (concat bss)
        \<and> unat (so_size_bytes (rf_stored r)) = length (concat bss)
        \<and> put_stream x st fresh ns (map Ok bss) s = (Ok (rf_stored r), s'))"

lemma decide_type_Ok:
  "decide_type pre ty = Ok m \<longleftrightarrow> pre \<noteq> [] \<and> media_detect pre = Some m
     \<and> (\<forall>t. Option.bind ty media_parse = Some t \<longrightarrow> t = m)"
  by (auto simp: decide_type_def outcome_simps split: option.splits if_splits)

lemma chunk_sized_Ok: "list_all chunk_sized (map Ok bss) \<longleftrightarrow> (\<forall>b\<in>set bss. length b < 2 ^ 63)"
  by (auto simp: list_all_iff chunk_sized_def)

lemma read_file_field_Ok:
  assumes docs: "uuid_documented x" "sha256_documented x" "store_layout st" "fs_late (w_fs w) = []"
    and sized: "list_all chunk_sized (field_chunks f)" "unat (max_upload_bytes c) < 2 ^ 63"
    and ok: "read_file_field x c st fresh ns f w = (Ok r, w')"
  shows "received_ok x c st fresh ns f (w_fs w) r (w_fs w') \<and> w' = w\<lparr>w_fs := w_fs w'\<rparr>"
proof -
  from ok obtain pre head rest m stored where
    h: "hold_back [] [] (field_chunks f) = Ok (pre, head, rest)" and
    d: "decide_type pre (field_content_type f) = Ok m" and
    p: "put_stream x st fresh ns (limit_size (max_upload_bytes c) 0 (map Ok head @ field_stream rest))
        (w_fs w) = (Ok stored, w_fs w')" "w' = w\<lparr>w_fs := w_fs w'\<rparr>" and
    r: "r = \<lparr>rf_filename = display_filename
          (case field_file_name f of Some n \<Rightarrow> n | None \<Rightarrow> []) m, rf_media_type = m, rf_stored = stored\<rparr>"
    by (fastforce simp: read_file_field_def outcome_simps Let_def split: prod.splits)
  from put_stream_success [OF docs p(1)] obtain bss where
    b: "limit_size (max_upload_bytes c) 0 (map Ok head @ field_stream rest) = map Ok bss"
      "so_sha256 stored = content_digest x (concat bss)"
      "so_size_bytes stored = of_nat (length (concat bss))"
    by blast
  from limit_size_all_Ok [OF b(1)] have all: "map Ok head @ field_stream rest = map Ok bss" .
  from map_Ok_append [OF all [symmetric]] obtain bs where
    bs: "bss = head @ bs" "field_stream rest = map Ok bs" by blast
  from hold_back_Ok [OF h] have pre: "pre = concat head" "field_chunks f = map Ok head @ rest"
      "rest = [] \<or> signature_prefix_len \<le> length pre" by auto
  from field_stream_all_Ok [OF bs(2)] have rest: "rest = map Ok bs" .
  with pre(2) bs(1) have chunks: "field_chunks f = map Ok bss" by simp
  have "length (concat bss) \<le> unat (max_upload_bytes c)"
    using limit_size_passed [of "map Ok head @ field_stream rest" 0 "max_upload_bytes c"] sized b(1)
    by (simp add: all chunks chunk_sized_Ok)
  moreover from this sized(2) have "unat (so_size_bytes stored) = length (concat bss)"
    by (simp add: b(3) unat_of_nat take_bit_eq_mod)
  moreover have "decide_type (concat bss) (field_content_type f) = Ok m"
    using decide_type_held [of "concat bs" pre "field_content_type f"] pre(1,3) bs(1) rest d by auto
  then have "concat bss \<noteq> []" "media_detect (concat bss) = Some m"
      "\<forall>t. Option.bind (field_content_type f) media_parse = Some t \<longrightarrow> t = m"
    unfolding decide_type_Ok by auto
  ultimately have "received_ok x c st fresh ns f (w_fs w) r (w_fs w')"
    unfolding received_ok_def using chunks b(1,2) p(1) r by (intro exI [of _ bss]) simp
  with p(2) show ?thesis by simp
qed

section \<open>The whole request\<close>

definition is_file_part :: "field \<Rightarrow> bool" where
  "is_file_part f \<longleftrightarrow> field_name f = Some (lit ''file'')"

lemma receive_fields_after:
  "receive_fields x c st fresh ns (Some r0) n body w = (Ok r, w') \<Longrightarrow>
     r = r0 \<and> w' = w \<and> (\<exists>fs. body = map Ok fs \<and> (\<forall>f\<in>set fs. \<not> is_file_part f))"
proof (induction body arbitrary: n)
  case Nil
  then show ?case by (auto simp: outcome_simps)
next
  case (Cons o' body)
  show ?case
  proof (cases o')
    case (Ok f)
    with Cons.prems have nf: "\<not> is_file_part f" by (auto simp: is_file_part_def)
    with Ok Cons.prems obtain n' where "receive_fields x c st fresh ns (Some r0) n' body w = (Ok r, w')"
      by (auto simp: outcome_simps is_file_part_def)
    from Cons.IH [OF this] obtain fs where "r = r0" "w' = w" "body = map Ok fs"
      "\<forall>f\<in>set fs. \<not> is_file_part f" by auto
    with Ok nf show ?thesis by (intro conjI exI [of _ "f # fs"]) auto
  qed (use Cons.prems in \<open>auto simp: outcome_simps\<close>)
qed

lemma receive_fields_Ok:
  "receive_fields x c st fresh ns None n body w = (Ok r, w') \<Longrightarrow>
     \<exists>before f behind. body = map Ok before @ Ok f # map Ok behind \<and> is_file_part f
       \<and> (\<forall>g\<in>set before \<union> set behind. \<not> is_file_part g)
       \<and> read_file_field x c st fresh ns f w = (Ok r, w')"
proof (induction body arbitrary: n)
  case Nil
  then show ?case by (auto simp: outcome_simps)
next
  case (Cons o' body)
  show ?case
  proof (cases o')
    case (Ok f)
    show ?thesis
    proof (cases "is_file_part f")
      case True
      with Ok Cons.prems obtain r1 w1 where
        "read_file_field x c st fresh ns f w = (Ok r1, w1)"
        "receive_fields x c st fresh ns (Some r1) n body w1 = (Ok r, w')"
        by (auto simp: outcome_simps is_file_part_def)
      with receive_fields_after [OF this(2)] True Ok show ?thesis
        by (intro exI [of _ "[]"]) auto
    next
      case False
      with Ok Cons.prems obtain n' where "receive_fields x c st fresh ns None n' body w = (Ok r, w')"
        by (auto simp: outcome_simps is_file_part_def)
      from Cons.IH [OF this] obtain before g behind where
        g: "body = map Ok before @ Ok g # map Ok behind" "is_file_part g"
          "\<forall>h\<in>set before \<union> set behind. \<not> is_file_part h"
          "read_file_field x c st fresh ns g w = (Ok r, w')"
        by blast
      with Ok False show ?thesis
        by (intro exI [of _ "f # before"] exI [of _ g] exI [of _ behind]) auto
    qed
  qed (use Cons.prems in \<open>auto simp: outcome_simps\<close>)
qed

text \<open>No part of a request is longer than a slice can be.\<close>

definition body_sized :: "multipart \<Rightarrow> bool" where
  "body_sized body \<longleftrightarrow> (\<forall>f. Ok f \<in> set body \<longrightarrow> list_all chunk_sized (field_chunks f))"

lemma receive_file_received:
  assumes "uuid_documented x" "sha256_documented x" "store_layout st" "fs_late (w_fs w) = []"
    and "body_sized body" "unat (max_upload_bytes c) < 2 ^ 63"
    and "receive_file x c st fresh ns body w = (Ok r, w')"
  shows "\<exists>before f behind. body = map Ok before @ Ok f # map Ok behind \<and> is_file_part f
    \<and> (\<forall>g\<in>set before \<union> set behind. \<not> is_file_part g)
    \<and> received_ok x c st fresh ns f (w_fs w) r (w_fs w') \<and> w' = w\<lparr>w_fs := w_fs w'\<rparr>"
proof -
  from receive_fields_Ok [OF assms(7) [unfolded receive_file_def]] obtain before f behind where
    f: "body = map Ok before @ Ok f # map Ok behind" "is_file_part f"
      "\<forall>g\<in>set before \<union> set behind. \<not> is_file_part g"
      "read_file_field x c st fresh ns f w = (Ok r, w')"
    by blast
  have "list_all chunk_sized (field_chunks f)" using assms(5) f(1) by (auto simp: body_sized_def)
  from read_file_field_Ok [OF assms(1-4) this assms(6) f(4)] f show ?thesis by blast
qed

text \<open>
  C10: An accepted upload is one complete, recognised file within the limit. If the intake of a request
  succeeds, the request had exactly one part named \<open>file\<close>, whose every chunk arrived; its
  content is not empty, not above the limit, carries the signature of the format it is recorded
  with, and is not contradicted by a declared type; the name is the display form of the client's;
  and what was streamed into the store is exactly that content, with its digest and its length.
\<close>

theorem receive_file_checked:
  assumes "uuid_documented x" "sha256_documented x" "store_layout st" "fs_late (w_fs w) = []"
    and "body_sized body" "unat (max_upload_bytes c) < 2 ^ 63"
    and "receive_file x c st fresh ns body w = (Ok r, w')"
  shows "\<exists>before f behind. body = map Ok before @ Ok f # map Ok behind \<and> is_file_part f
    \<and> (\<forall>g\<in>set before \<union> set behind. \<not> is_file_part g)
    \<and> received_ok x c st fresh ns f (w_fs w) r (w_fs w') \<and> w' = w\<lparr>w_fs := w_fs w'\<rparr>"
  using assms by (rule receive_file_received)

section \<open>What is not reported\<close>


section \<open>A concrete upload\<close>

definition sample_world :: world where
  "sample_world = \<lparr>w_db = sample_auth_db, w_fs = sample_fs, w_throttle = throttle_new, w_reported = []\<rparr>"

lemma sample_world_fields [simp]: "w_fs sample_world = sample_fs" "w_reported sample_world = []"
    "w_db sample_world = sample_auth_db"
  by (simp_all add: sample_world_def)

definition sample_field :: field where
  "sample_field = \<lparr>field_name = Some (lit ''file''), field_file_name = Some (lit ''a.pdf''),
     field_content_type = None, field_chunks = [Ok [0x25, 0x50, 0x44], Ok [0x46, 0x2D, 0x31]]\<rparr>"

lemma sample_field_reads:
  "is_ok (fst (read_file_field sample_externs sample_config sample_store 7 sample_ns sample_field sample_world))"
  by code_simp

lemma sample_field_read:
  obtains r w' where "read_file_field sample_externs sample_config sample_store 7 sample_ns sample_field
    sample_world = (Ok r, w')"
  using sample_field_reads by (metis is_ok_iff prod.collapse)

lemma sample_file_part: "is_file_part sample_field"
  by (simp add: is_file_part_def sample_field_def)

lemma sample_body_sized: "body_sized [Ok sample_field]"
  by (simp add: body_sized_def sample_field_def chunk_sized_def)

lemma sample_max_upload: "unat (max_upload_bytes sample_config) < 2 ^ 63"
  by (simp add: sample_config_def)

theorem receive_file_checked_witness:
  "\<exists>r w'. receive_file sample_externs sample_config sample_store 7 sample_ns [Ok sample_field] sample_world
      = (Ok r, w')
    \<and> received_ok sample_externs sample_config sample_store 7 sample_ns sample_field sample_fs r (w_fs w')"
proof -
  obtain r w' where "read_file_field sample_externs sample_config sample_store 7 sample_ns sample_field
      sample_world = (Ok r, w')" by (rule sample_field_read)
  then have ok: "receive_file sample_externs sample_config sample_store 7 sample_ns [Ok sample_field]
      sample_world = (Ok r, w')"
    using sample_file_part by (simp add: receive_file_def is_file_part_def st_lift_def)
  have "fs_late (w_fs sample_world) = []" by simp
  from receive_file_checked [OF sample_uuid_documented sample_sha256_documented sample_layout this
      sample_body_sized sample_max_upload ok]
  obtain before f behind where "([Ok sample_field] :: multipart) = map Ok before @ Ok f # map Ok behind"
      "received_ok sample_externs sample_config sample_store 7 sample_ns f (w_fs sample_world) r (w_fs w')"
    by blast
  moreover from this(1) have "f = sample_field" by (cases before) auto
  ultimately show ?thesis using ok by auto
qed


end
