(* ===== verification/SignIn.thy ===== *)
theory SignIn
  imports SessionRoutes SessionLife UploadFacts
begin

text \<open>
  From the password to the session: what a sign-in answers, and that the cookie it sets brings the
  browser through the session gate with the CSRF token it was told.
\<close>

text \<open>The URL-safe base64 alphabet, without padding; some character for every byte string but the empty one.\<close>

definition base64_documented :: "externs \<Rightarrow> bool" where
  "base64_documented x \<longleftrightarrow>
     (\<forall>bs. (\<forall>c\<in>set (base64_url_no_pad x bs). is_ascii_alphanumeric c \<or> c = 45 \<or> c = 95)
        \<and> (bs \<noteq> [] \<longrightarrow> base64_url_no_pad x bs \<noteq> []))"

text \<open>The generator of the operating system fills the buffer it is given.\<close>

definition random_fills :: "(nat \<Rightarrow> nat \<Rightarrow> bytes) \<Rightarrow> bool" where
  "random_fills os_random \<longleftrightarrow> (\<forall>i n. length (os_random i n) = n)"

lemma token_not_empty:
  "base64_documented x \<Longrightarrow> random_fills os \<Longrightarrow> generate_token x (os i) \<noteq> []"
  by (metis TOKEN_BYTES_def base64_documented_def generate_token_def length_0_conv random_fills_def zero_neq_numeral)

section \<open>A sign-in\<close>

lemma open_session_Ok:
  assumes "open_session x h c os_random w = (Ok resp, w')"
  obtains ttl rec where "i32_try_from (session_ttl c) = Some ttl"
    and "sessions_open (bureau_slug c) (token_fingerprint x (generate_token x (os_random 0)))
        (generate_token x (os_random 1)) ttl (w_db w) = (Ok rec, w_db w')"
    and "resp = with_cookie h (json_response 200 (SessionBody True (sess_csrf_token rec)))
        (session_cookie (cookie_name c) (generate_token x (os_random 0)) (session_ttl c) (cookie_secure c))"
  using assms
  by (cases "i32_try_from (session_ttl c)")
    (auto simp: open_session_def Let_def outcome_simps st_then_def st_lift_def st_map_err_def st_ok_def on_db_def
      split: prod.splits outcome.splits)

lemma login_Ok:
  assumes "login x h c rq now os_random joined password w = (Ok resp, w')"
  obtains w2 where "verify_password x (owner_password_hash c) password" and "w_db w2 = w_db w"
    and "open_session x h c os_random w2 = (Ok resp, w')"
proof -
  from assms obtain w1 w2 where
    1: "throttle_reserve c (client_key rq) now w = (Ok (), w1)"
    and v: "verify_password x (owner_password_hash c) password"
    and 2: "throttle_success (client_key rq) w1 = (Ok (), w2)"
    and o: "open_session x h c os_random w2 = (Ok resp, w')"
    by (auto simp: login_def verify_blocking_def outcome_simps split: if_splits)
  from 1 2 have "w_db w2 = w_db w"
    by (auto simp: throttle_reserve_def throttle_success_def split: prod.splits outcome.splits)
  from v this o show ?thesis by (rule that)
qed

lemma opened_row:
  assumes "sessions_open slug fp csrf ttl d = (Ok rec, d')"
  shows "\<exists>r\<in>set (db_sessions d'). sr_token_fingerprint r = fp \<and> sr_csrf_token r = csrf \<and> rec = record_from_row r
    \<and> sr_last_seen_at r = db_now d' \<and> sr_expires_at r = db_now d' + seconds ttl \<and> 60 \<le> ttl
    \<and> (\<exists>b\<in>set (bureaus (db_tables d)). br_slug b = slug \<and> sr_bureau_id r = br_id b)"
proof -
  from assms obtain r where r: "auto_statement (sql_session_open slug fp csrf ttl) d = (Ok r, d')" "rec = record_from_row r"
    by (auto simp: sessions_open_def outcome_simps)
  from r(1) obtain d1 where "sql_session_open slug fp csrf ttl d1 = (Ok r, d')" "db_tables d1 = db_tables d"
    by (auto simp: auto_statement_def dest: next_db_fault_fields split: prod.splits db_fault.splits outcome.splits)
  with open_rows [OF this(1)] r(2) show ?thesis by (auto simp: db_sessions_def)
qed

section \<open>The browser comes back\<close>

text \<open>
  What a browser may send along with the session cookie, and what it must when it changes state. Of
  its cookies nothing is assumed but that they are well-formed and the session's is the first of its name.
\<close>

definition returns_with :: "config \<Rightarrow> request \<Rightarrow> ustr \<Rightarrow> ustr \<Rightarrow> bool" where
  "returns_with c rq token csrf \<longleftrightarrow>
     (\<exists>pairs. header_str rq ''cookie'' = Some (cookie_header pairs)
        \<and> (\<forall>(k, v)\<in>set pairs. cookie_word k \<and> (v = token \<or> cookie_value v))
        \<and> map_of pairs (cookie_name c) = Some token)
     \<and> (changes_state (rq_method rq) \<longrightarrow>
          header_str rq ''x-csrf-token'' = Some csrf
          \<and> (\<forall>origin. header_str rq ''origin'' = Some origin \<longrightarrow> origin \<in> set (cors_allowed_origins c)))"

lemma alphanumeric_cookie:
  "is_ascii_alphanumeric c \<or> c = 45 \<or> c = 95 \<Longrightarrow> \<not> is_whitespace c \<and> c \<noteq> 59"
  by (auto simp: is_whitespace_def is_ascii_alphanumeric_def is_ascii_digit_def is_ascii_lowercase_def
      is_ascii_uppercase_def)

lemma base64_cookie_value: "base64_documented x \<Longrightarrow> cookie_value (base64_url_no_pad x bs)"
proof -
  assume "base64_documented x"
  then have "\<forall>c\<in>set (base64_url_no_pad x bs). is_ascii_alphanumeric c \<or> c = 45 \<or> c = 95"
    unfolding base64_documented_def by blast
  then show ?thesis unfolding cookie_value_def by (metis alphanumeric_cookie)
qed

lemma returns_token:
  assumes "base64_documented x" "returns_with c rq (generate_token x os) csrf"
  shows "session_token c rq = Some (generate_token x os)"
proof -
  have val: "cookie_value (generate_token x os)"
    using base64_cookie_value [OF assms(1)] by (simp add: generate_token_def)
  with assms(2) obtain pairs where "header_str rq ''cookie'' = Some (cookie_header pairs)"
    "\<forall>(k, v)\<in>set pairs. cookie_word k \<and> (v = generate_token x os \<or> cookie_value v)"
    "map_of pairs (cookie_name c) = Some (generate_token x os)"
    unfolding returns_with_def by (elim conjE exE)
  moreover from this(2) val have "\<forall>(k, v)\<in>set pairs. cookie_word k \<and> cookie_value v"
    by (auto split: prod.splits)
  moreover from \<open>map_of pairs _ = _\<close> have "pairs \<noteq> []" by auto
  ultimately show ?thesis
    using read_cookie_header_aux [of "[]" pairs "cookie_name c"] by (simp add: session_token_def)
qed

lemma signed_in:
  assumes docs: "base64_documented x" "random_fills os_random" "config_ok x c"
    and run: "login x h c rq now os_random joined password w = (Ok resp, w')"
    and returns: "returns_with c rq' (generate_token x (os_random 0)) (generate_token x (os_random 1))"
  shows "verify_password x (owner_password_hash c) password
    \<and> rs_body resp = SessionBody True (generate_token x (os_random 1))
    \<and> (\<exists>s. authenticated x c rq' (w_db w') s \<and> session_csrf_token s = generate_token x (os_random 1)
        \<and> (\<exists>b\<in>set (bureaus (db_tables (w_db w))). br_slug b = bureau_slug c \<and> session_bureau_id s = br_id b))"
proof -
  let ?token = "generate_token x (os_random 0)" and ?csrf = "generate_token x (os_random 1)"
  from login_Ok [OF run] obtain w2 where v: "verify_password x (owner_password_hash c) password"
    and db: "w_db w2 = w_db w" and opened: "open_session x h c os_random w2 = (Ok resp, w')" by blast
  from open_session_Ok [OF opened] obtain ttl rec where
    o: "sessions_open (bureau_slug c) (token_fingerprint x ?token) ?csrf ttl (w_db w) = (Ok rec, w_db w')"
    and resp: "resp = with_cookie h (json_response 200 (SessionBody True (sess_csrf_token rec)))
        (session_cookie (cookie_name c) ?token (session_ttl c) (cookie_secure c))"
    unfolding db by blast
  from opened_row [OF o] obtain r where r: "r \<in> set (db_sessions (w_db w'))"
      "sr_token_fingerprint r = token_fingerprint x ?token" "sr_csrf_token r = ?csrf" "rec = record_from_row r"
      "sr_last_seen_at r = db_now (w_db w')" "sr_expires_at r = db_now (w_db w') + seconds ttl" "60 \<le> ttl"
      "\<exists>b\<in>set (bureaus (db_tables (w_db w))). br_slug b = bureau_slug c \<and> sr_bureau_id r = br_id b"
    by blast
  have "session_live (int (session_idle_timeout c)) (db_now (w_db w')) r"
    using r(5-7) docs(3) by (simp add: session_live_def seconds_def config_ok_def)
  moreover have "changes_state (rq_method rq') \<longrightarrow> may_change c rq' r"
    using returns token_not_empty [OF docs(1,2), of 1] r(3) by (auto simp: returns_with_def may_change_def)
  ultimately have "authenticated x c rq' (w_db w') (session_of_row r)"
    using returns_token [OF docs(1) returns] token_not_empty [OF docs(1,2), of 0] r(1,2)
    unfolding authenticated_def by blast
  moreover have "session_csrf_token (session_of_row r) = ?csrf" "session_bureau_id (session_of_row r) = sr_bureau_id r"
    using r(3) by (simp_all add: session_of_row_def)
  moreover have "rs_body resp = SessionBody True ?csrf"
    using resp r(3,4) by (simp add: with_cookie_def with_header_def json_response_def record_from_row_def)
  ultimately show ?thesis
    using v r(8) by (intro conjI exI [of _ "session_of_row r"]) simp_all
qed


section \<open>A concrete sign-in\<close>

definition sample_random :: "nat \<Rightarrow> nat \<Rightarrow> bytes" where
  "sample_random i n = replicate n (of_nat i)"

definition sample_return :: request where
  "sample_return = \<lparr>rq_method = POST,
     rq_headers = (\<lambda>n. if n = lit ''cookie'' then
           HeaderText (cookie_header [(lit ''otdel_session'', generate_token sample_externs (sample_random 0))])
         else if n = lit ''x-csrf-token'' then HeaderText (generate_token sample_externs (sample_random 1))
         else Absent), rq_peer_ip = None\<rparr>"

lemma sample_base64_documented: "base64_documented sample_externs"
proof -
  have "is_ascii_alphanumeric (hex_digit n)" if "n < 16" for n
    using hex_digit_class [OF that] by (auto simp: is_ascii_alphanumeric_def is_ascii_lowercase_def)
  moreover have "unat b < 256" for b :: "8 word"
    by (rule order_less_le_trans [OF unsigned_less]) simp
  ultimately have "\<forall>c\<in>set (hex_byte b). is_ascii_alphanumeric c" for b
    by (simp add: hex_byte_def div_less_iff_less_mult)
  then show ?thesis
    unfolding base64_documented_def
    by (fastforce simp: sample_externs_def hex_byte_def neq_Nil_conv dest: in_set_takeD)
qed

lemma sample_returns: "returns_with sample_config sample_return
    (generate_token sample_externs (sample_random 0)) (generate_token sample_externs (sample_random 1))"
  unfolding returns_with_def
  by (auto simp: sample_return_def header_str_def sample_config_def cookie_word_def lit_def is_whitespace_def)

text \<open>A client the throttle has not seen gets as far as the password, and with it to the session.\<close>

lemma login_first:
  assumes "w_throttle w = throttle_new" "max_failures (login_throttle c) \<noteq> 0"
    and "verify_password x (owner_password_hash c) password"
  obtains w2 where "w_db w2 = w_db w"
    and "login x h c rq now os_random (Ok ()) password w = open_session x h c os_random w2"
proof -
  from assms(1,2) obtain th where "throttle_reserve c (client_key rq) now w = (Ok (), w\<lparr>w_throttle := th\<rparr>)"
    by (auto simp: throttle_reserve_def reserve_at_def retain_fresh_def throttle_new_def count_attempt_def
        fresh_attempts_def duration_since_def Let_def)
  with assms(3) show ?thesis
    by (intro that [of "w\<lparr>w_throttle := record_success (client_key rq) th\<rparr>"])
       (simp_all add: login_def st_then_def verify_blocking_def throttle_success_def st_lift_def st_ok_def)
qed

lemma open_session_opens:
  assumes "i32_try_from (session_ttl c) = Some ttl"
    and "is_ok (fst (sessions_open (bureau_slug c) (token_fingerprint x (generate_token x (os_random 0)))
        (generate_token x (os_random 1)) ttl (w_db w)))"
  obtains resp w' where "open_session x h c os_random w = (Ok resp, w')"
proof -
  from assms(2) obtain rec d where "sessions_open (bureau_slug c) (token_fingerprint x (generate_token x (os_random 0)))
      (generate_token x (os_random 1)) ttl (w_db w) = (Ok rec, d)"
    by (metis is_ok_iff prod.collapse)
  with assms(1) show ?thesis
    by (intro that) (simp add: open_session_def Let_def st_then_def st_lift_def st_map_err_def st_ok_def on_db_def)
qed

lemma sample_opens: "is_ok (fst (sessions_open (bureau_slug sample_config)
    (token_fingerprint sample_externs (generate_token sample_externs (sample_random 0)))
    (generate_token sample_externs (sample_random 1)) 43200 sample_auth_db))"
  by code_simp

lemma sample_login:
  obtains resp w' where "login sample_externs (\<lambda>_. True) sample_config (sample_request POST) 0 sample_random
    (Ok ()) (lit ''pw'') sample_world = (Ok resp, w')"
proof -
  have v: "verify_password sample_externs (owner_password_hash sample_config) (lit ''pw'')" by code_simp
  have t: "w_throttle sample_world = throttle_new" "max_failures (login_throttle sample_config) \<noteq> 0"
    by (simp_all add: sample_world_def sample_config_def)
  obtain w2 where w2: "w_db w2 = w_db sample_world"
      "login sample_externs (\<lambda>_. True) sample_config (sample_request POST) 0 sample_random (Ok ()) (lit ''pw'') sample_world
        = open_session sample_externs (\<lambda>_. True) sample_config sample_random w2"
    by (rule login_first [OF t v])
  have ttl: "i32_try_from (session_ttl sample_config) = Some 43200"
    by (simp add: i32_try_from_def sample_config_def)
  have "is_ok (fst (sessions_open (bureau_slug sample_config)
      (token_fingerprint sample_externs (generate_token sample_externs (sample_random 0)))
      (generate_token sample_externs (sample_random 1)) 43200 (w_db w2)))"
    using sample_opens by (simp only: w2(1) sample_world_fields)
  with ttl obtain resp w' where "open_session sample_externs (\<lambda>_. True) sample_config sample_random w2 = (Ok resp, w')"
    by (rule open_session_opens)
  with w2 that show ?thesis by simp
qed


end
