(* ===== verification/StoreReturns.thy ===== *)
theory StoreReturns
  imports StoreList StoreSweep
begin

text \<open>
  The walk of \<^verbatim>\<open>list_objects\<close> comes back. That it ends at all is the measure \<open>walk_weight\<close> of its
  definition: below each directory only three levels are entered, so a directory on the stack
  outweighs all it can push. Here: while the file system answers it ends with a listing.
\<close>

definition walkable :: "fs \<Rightarrow> path \<Rightarrow> bool" where
  "walkable s d \<longleftrightarrow> (case node_at s d of None \<Rightarrow> True | Some (Dir m) \<Rightarrow> True | _ \<Rightarrow> False)"

definition stack_walkable :: "fs \<Rightarrow> walk_stack \<Rightarrow> bool" where
  "stack_walkable s stack \<longleftrightarrow> list_all (\<lambda>(d, p). walkable s d) stack"

lemma dir_walkable: "node_at s d = Some n \<Longrightarrow> node_is_dir n \<Longrightarrow> walkable s d"
  by (cases n) (auto simp: walkable_def)

lemma scan_entry_fine:
  assumes "fs_faults s = []" "stack_walkable s stack"
  shows "\<exists>full stack' l'. scan_entry x limit dir pre name stack l s = (Ok (full, stack', l'), s) \<and> stack_walkable s stack'"
proof (cases "os_to_str name")
  case (Some name')
  show ?thesis
  proof (cases "node_at s (dir @ [name])")
    case None
    with assms Some show ?thesis
      by (auto simp: scan_entry_def symlink_metadata_def sys_look_fine look_node_def)
  next
    case node: (Some n)
    with assms Some show ?thesis
      using object_key_parse_no_panic [of x "str_join (lit ''/'') (pre @ [name'])"] dir_walkable [OF node]
      by (cases "object_key_parse x (str_join (lit ''/'') (pre @ [name']))")
         (auto simp: scan_entry_def symlink_metadata_def sys_look_fine look_node_def Let_def stack_walkable_def)
  qed
qed (use assms in \<open>auto simp: scan_entry_def\<close>)

lemma scan_dir_fine:
  assumes "fs_faults s = []" "stack_walkable s stack"
  shows "\<exists>full stack' l'. scan_dir x limit dir pre names stack l s = (Ok (full, stack', l'), s) \<and> stack_walkable s stack'"
  using assms(2)
proof (induction names arbitrary: stack l)
  case Nil
  then show ?case using assms(1) by (auto simp: next_entry_fine st_ok_def)
next
  case (Cons name names)
  from scan_entry_fine [OF assms(1) Cons.prems] obtain full stack1 l1 where
    e: "scan_entry x limit dir pre name stack l s = (Ok (full, stack1, l1), s)" "stack_walkable s stack1" by blast
  with Cons.IH [OF e(2)] show ?case
    using assms(1) by (cases full) (auto simp: next_entry_fine st_ok_def)
qed

lemma list_walk_fine:
  assumes "fs_faults s = []" "stack_walkable s stack"
  shows "\<exists>l'. list_walk x limit stack l s = (Ok l', s)"
  using assms
proof (induction x limit stack l s rule: list_walk.induct)
  case (2 x limit dir pre stack l s)
  then have stack: "stack_walkable s stack" and d: "walkable s dir" by (simp_all add: stack_walkable_def)
  show ?case
  proof (cases "node_at s dir")
    case None
    then have rd: "read_dir dir s = (Err IoNotFound, s)" using 2 by (simp add: read_dir_def sys_look_fine)
    with 2 stack show ?thesis by simp
  next
    case (Some n)
    with d obtain m where "n = Dir m" by (auto simp: walkable_def split: node.splits)
    then have rd: "read_dir dir s = (Ok (children dir s), s)"
      using 2 Some by (simp add: read_dir_def sys_look_fine)
    from scan_dir_fine [OF "2.prems"(1) stack] obtain full stack1 l1 where
      sd: "scan_dir x limit dir pre (children dir s) stack l s = (Ok (full, stack1, l1), s)" "stack_walkable s stack1"
      by blast
    with 2 rd show ?thesis by (cases full) simp_all
  qed
qed simp

lemma list_objects_fine:
  assumes "fs_faults s = []" "walkable s (objects_root st)"
  shows "\<exists>l. list_objects x st limit s = (Ok l, s)"
proof -
  have "stack_walkable s [(objects_root st, [])]" using assms(2) by (simp add: stack_walkable_def)
  from list_walk_fine [OF assms(1) this] show ?thesis
    by (simp add: list_objects_def st_ok_def del: list_walk.simps)
qed

text \<open>
  C27: A listing comes back. Whatever tree of directories, files and links lies below the objects
  directory, and whatever the limit, while the file system answers \<^verbatim>\<open>list_objects\<close> returns a listing, and
  it changes nothing.
\<close>

theorem list_objects_returns:
  assumes "fs_faults s = []" "walkable s (objects_root st)"
  shows "\<exists>l. list_objects x st limit s = (Ok l, s)"
  using assms by (rule list_objects_fine)

lemma list_objects_returns_witness:
  "\<exists>l. list_objects sample_externs sample_store 5 sample_objects_fs = (Ok l, sample_objects_fs)"
proof -
  have "fs_faults sample_objects_fs = []" "walkable sample_objects_fs (objects_root sample_store)"
    by code_simp+
  then show ?thesis by (rule list_objects_returns)
qed

end
