(* ===== verification/StoreSpec.thy ===== *)
theory StoreSpec
  imports StoreKeeps
begin

text \<open>
  The object store as what its trait promises: a map from keys to contents. \<open>store_view\<close> reads this
  map off the tree of files, and every operation acts on it as the operation on a map does. The
  staging files, the directories and the order of the calls are not visible in it.
\<close>

definition store_view :: "externs \<Rightarrow> fs_store \<Rightarrow> fs \<Rightarrow> object_key \<Rightarrow> bytes option" where
  "store_view x st s k =
     (case object_key_parse x (key_str k) of
        Ok k' \<Rightarrow> (case resolve_within (objects_root st) k of Ok p \<Rightarrow> file_at s p | _ \<Rightarrow> None)
      | _ \<Rightarrow> None)"

definition valid_key :: "externs \<Rightarrow> object_key \<Rightarrow> bool" where
  "valid_key x k \<longleftrightarrow> object_key_parse x (key_str k) = Ok k"

lemma parse_valid: "object_key_parse x (key_str k) = Ok k' \<Longrightarrow> k' = k"
  by (cases k) (auto simp: object_key_parse_Ok)

lemma view_valid:
  assumes "valid_key x k" "resolve_within (objects_root st) k = Ok p"
  shows "store_view x st s k = file_at s p"
  using assms by (simp add: store_view_def valid_key_def)

lemma view_same:
  assumes "\<And>p. is_object_path (objects_root st) p \<Longrightarrow> file_at s' p = file_at s p"
  shows "store_view x st s' = store_view x st s"
proof
  fix k
  show "store_view x st s' k = store_view x st s k"
  proof (cases "object_key_parse x (key_str k)")
    case (Ok k')
    then have k: "k' = k" by (rule parse_valid)
    from parsed_key_resolves [OF Ok, of "objects_root st"] k obtain p where
      p: "resolve_within (objects_root st) k = Ok p" "is_object_path (objects_root st) p"
      by (auto simp: is_object_path_def)
    with assms [OF p(2)] show ?thesis by (simp add: store_view_def Ok)
  qed (simp_all add: store_view_def)
qed

text \<open>Keys of different places are different keys, so changing one place changes one key.\<close>

lemma view_update:
  assumes k: "valid_key x k" "resolve_within (objects_root st) k = Ok p"
    and same: "\<And>q. is_object_path (objects_root st) q \<Longrightarrow> q \<noteq> p \<Longrightarrow> file_at s' q = file_at s q"
  shows "store_view x st s' = (store_view x st s)(k := file_at s' p)"
proof
  fix k'
  show "store_view x st s' k' = ((store_view x st s)(k := file_at s' p)) k'"
  proof (cases "object_key_parse x (key_str k')")
    case (Ok k2)
    then have k2: "k2 = k'" by (rule parse_valid)
    from parsed_key_resolves [OF Ok, of "objects_root st"] k2 obtain q where
      q: "resolve_within (objects_root st) k' = Ok q" "is_object_path (objects_root st) q"
      by (auto simp: is_object_path_def)
    show ?thesis
    proof (cases "k' = k")
      case False
      with resolve_within_inj [OF Ok [unfolded k2] k(1) [unfolded valid_key_def] q(1)] k(2) have "q \<noteq> p" by blast
      with same [OF q(2)] q(1) False show ?thesis by (simp add: store_view_def Ok)
    qed (use view_valid [OF k] in simp)
  qed (use k(1) in \<open>auto simp: store_view_def valid_key_def\<close>)
qed

section \<open>The operations on the map\<close>

text \<open>
  What an upload may answer. The content under the key has the returned digest and length: it is what
  was sent, or what was there before, which nothing but its hash identifies.
\<close>

definition put_refines ::
    "externs \<Rightarrow> object_namespace \<Rightarrow> chunk list \<Rightarrow> (object_key \<Rightarrow> bytes option)
      \<Rightarrow> (storage_error, stored_object) outcome \<Rightarrow> (object_key \<Rightarrow> bytes option) \<Rightarrow> bool" where
  "put_refines x ns body v r v' \<longleftrightarrow>
     (case r of
        Ok so \<Rightarrow> (\<exists>bss c. body = map Ok bss \<and> v' = v(so_key so \<mapsto> c) \<and> key_namespace x (so_key so) = Ok ns
          \<and> so_sha256 so = content_digest x (concat bss) \<and> content_digest x c = so_sha256 so
          \<and> so_size_bytes so = of_nat (length c)
          \<and> (if so_already_present so then v (so_key so) = Some c else c = concat bss))
      | Err e \<Rightarrow> v' = v
      | Panic \<Rightarrow> (\<forall>k. key_namespace x k \<noteq> Ok ns \<longrightarrow> v' k = v k))"

definition open_refines ::
    "object_key \<Rightarrow> (object_key \<Rightarrow> bytes option) \<Rightarrow> (storage_error, object_body) outcome
      \<Rightarrow> (object_key \<Rightarrow> bytes option) \<Rightarrow> bool" where
  "open_refines k v r v' \<longleftrightarrow> v' = v
     \<and> (\<forall>b. r = Ok b \<longrightarrow> v k = Some (ob_content b) \<and> ob_size_bytes b = of_nat (length (ob_content b)))"

definition delete_refines ::
    "object_key \<Rightarrow> (object_key \<Rightarrow> bytes option) \<Rightarrow> (storage_error, unit) outcome
      \<Rightarrow> (object_key \<Rightarrow> bytes option) \<Rightarrow> bool" where
  "delete_refines k v r v' \<longleftrightarrow>
     (case r of Ok u \<Rightarrow> v' = v(k := None) | Err e \<Rightarrow> v' = v | Panic \<Rightarrow> (\<forall>k'. k' \<noteq> k \<longrightarrow> v' k' = v k'))"


lemma staged_not_object:
  "store_layout st \<Longrightarrow> is_object_path (objects_root st) p \<Longrightarrow> p \<noteq> staging_path x st fresh"
  using staging_not_object by blast

lemma stored_key:
  assumes "uuid_documented x" "is_sha256_hex d"
  shows "valid_key x (ObjectKey (key_text x ns d))"
    "resolve_within (objects_root st) (ObjectKey (key_text x ns d)) = Ok (object_path x st ns d)"
    "key_namespace x (ObjectKey (key_text x ns d)) = Ok ns"
  using assms key_text_parses resolve_key_text key_text_roundtrip(1)
  by (simp_all add: valid_key_def)

lemma put_Ok_refines:
  assumes docs: "uuid_documented x" "sha256_documented x" "store_layout st" "fs_late s = []"
    and content: "content_ok x (objects_root st) (node_at s)"
    and run: "put_stream x st fresh ns body s = (Ok so, s')"
  shows "put_refines x ns body (store_view x st s) (Ok so) (store_view x st s')"
proof -
  let ?p = "object_path x st ns (so_sha256 so)"
  from put_stream_success [OF docs run] obtain bss where b: "body = map Ok bss"
      "so_sha256 so = content_digest x (concat bss)" "so_size_bytes so = of_nat (length (concat bss))"
      "so_key so = ObjectKey (key_text x ns (so_sha256 so))"
      "same_files {staging_path x st fresh, ?p} s s'"
    and stored: "if so_already_present so
       then \<exists>c. file_at s ?p = Some c \<and> of_nat (length c) = so_size_bytes so \<and> file_at s' ?p = Some c
       else file_at s' ?p = Some (concat bss)"
    by blast
  have "is_sha256_hex (so_sha256 so)" using docs(2) b(2) by (simp add: content_digest_hex)
  note k = stored_key [where ns = ns, OF docs(1) this, folded b(4)]
  have same: "file_at s' q = file_at s q" if "is_object_path (objects_root st) q" "q \<noteq> ?p" for q
    using same_filesD [OF b(5)] staged_not_object [OF docs(3) that(1)] that(2) by simp
  have update: "store_view x st s' = (store_view x st s)(so_key so := file_at s' ?p)"
    by (intro view_update k(1,2) same)
  have here: "store_view x st s (so_key so) = file_at s ?p" by (rule view_valid [OF k(1,2)])
  from stored obtain c where c: "file_at s' ?p = Some c" "so_size_bytes so = of_nat (length c)"
    "if so_already_present so then file_at s ?p = Some c else c = concat bss"
    using b(3) by (cases "so_already_present so") auto
  have "content_digest x c = so_sha256 so"
  proof (cases "so_already_present so")
    case True
    with c(3) content_okD [OF content object_path_is_object] show ?thesis by (simp add: file_at_def)
  qed (use c(3) b(2) in simp)
  moreover have "if so_already_present so then store_view x st s (so_key so) = Some c else c = concat bss"
    using c(3) here by simp
  ultimately show ?thesis
    unfolding put_refines_def outcome.case
    using b(1,2) c(2) k(3) update [unfolded c(1)] by blast
qed

lemma put_any_refines:
  assumes docs: "uuid_documented x" "sha256_documented x" "store_layout st" "fs_late s = []"
    and content: "content_ok x (objects_root st) (node_at s)"
    and run: "put_stream x st fresh ns body s = (r, s')"
  shows "put_refines x ns body (store_view x st s) r (store_view x st s')"
proof (cases r)
  case (Ok so)
  with put_Ok_refines [OF docs content] run show ?thesis by simp
next
  case (Err e)
  with put_stream_failed [OF docs(1,2,4)] run have "same_files {staging_path x st fresh} s s'" by blast
  then have "store_view x st s' = store_view x st s"
    by (intro view_same) (simp add: same_files_def staged_not_object [OF docs(3)])
  with Err show ?thesis by (simp add: put_refines_def)
next
  case Panic
  have "store_view x st s' k = store_view x st s k" if "key_namespace x k \<noteq> Ok ns" for k
  proof (cases "object_key_parse x (key_str k)")
    case (Ok k')
    then have k: "k' = k" by (rule parse_valid)
    from parsed_key_resolves [OF Ok, of "objects_root st"] k obtain p where
      p: "resolve_within (objects_root st) k = Ok p" by auto
    from put_stream_tenant_isolation [OF docs Ok [unfolded k] that p, of fresh body] run p
    show ?thesis by (simp add: store_view_def Ok)
  qed (simp_all add: store_view_def)
  with Panic show ?thesis by (simp add: put_refines_def)
qed

lemma open_refined:
  assumes "fs_late s = []" "valid_key x k" "open_object st k s = (r, s')"
  shows "open_refines k (store_view x st s) r (store_view x st s')"
proof -
  have "node_at s' = node_at s"
    using still_keepsD [OF still.keeps_open_object assms(1,3)] by simp
  then have "store_view x st s' = store_view x st s" by (intro view_same) (simp add: file_at_def)
  moreover have "store_view x st s k = Some (ob_content b) \<and> ob_size_bytes b = of_nat (length (ob_content b))"
    if "r = Ok b" for b
    using open_object_Ok [OF assms(3) [unfolded that]] view_valid [OF assms(2)] by metis
  ultimately show ?thesis by (simp add: open_refines_def)
qed

lemma delete_refined:
  assumes "fs_late s = []" "valid_key x k" "delete_object st k s = (r, s')"
  shows "delete_refines k (store_view x st s) r (store_view x st s')"
proof -
  from parsed_key_resolves [OF assms(2) [unfolded valid_key_def], of "objects_root st"] obtain p where
    p: "resolve_within (objects_root st) k = Ok p" by auto
  have "st_keeps J (delete_object st k)"
    if "st_keeps J (sys_call (OpRemove p))" "\<And>m. st_keeps J m \<Longrightarrow> st_keeps J (future m :: (fs, storage_error, unit) stateful)"
    for J
    unfolding delete_object_def using that(1)
    by (intro that(2)) (auto simp: p st_keeps_def st_then_def st_lift_def split: prod.splits outcome.splits io_kind.splits)
  then have "framed {p} (delete_object st k)"
    unfolding framed_def by (blast intro: frame.keeps_call frame.keeps_future frame_allowed_simps(6) [THEN iffD2] singletonI)
  from framedD [OF this assms(3,1)] have "file_at s' q = file_at s q" if "q \<noteq> p" for q
    using that by (simp add: same_files_def)
  then have update: "store_view x st s' = (store_view x st s)(k := file_at s' p)"
    by (intro view_update [OF assms(2) p]) simp
  show ?thesis
  proof (cases "r = Panic")
    case False
    obtain r1 s1 where c: "sys_call (OpRemove p) s = (r1, s1)" by fastforce
    with assms(3) False p have r1: "r1 \<noteq> Panic" and s1: "s' = s1"
      and r: "r = (case r1 of Ok u \<Rightarrow> Ok () | Err IoNotFound \<Rightarrow> Ok ()
        | Err k \<Rightarrow> Err (StorageIo (lit ''delete object'') k) | Panic \<Rightarrow> Panic)"
      by (auto simp: delete_object_def future_def st_then_def st_lift_def split: outcome.splits io_kind.splits)
    from remove_call_cases [OF c r1] r s1 have
      "r = Ok () \<and> file_at s' p = None \<or> (\<exists>e. r = Err e) \<and> file_at s' p = file_at s p"
      by (auto simp: file_at_def)
    with update view_valid [OF assms(2) p] show ?thesis
      by (auto simp: delete_refines_def fun_upd_idem)
  qed (use update in \<open>simp add: delete_refines_def\<close>)
qed

lemma sweep_refined:
  assumes "store_layout st" "fs_late s = []"
  shows "store_view x st (snd (sweep_staging st age s)) = store_view x st s"
proof (rule view_same)
  fix p assume p: "is_object_path (objects_root st) p"
  have "length (butlast p) \<noteq> length (staging_root st)"
    using p assms(1) by (simp add: is_object_path_def store_layout_def)
  then have "\<not> abandoned (staging_root st) cutoff g p" for cutoff g
    unfolding abandoned_def by metis
  with sweep_swept [OF assms(2), of st age] show "file_at (snd (sweep_staging st age s)) p = file_at s p"
    unfolding swept_def file_at_def by metis
qed

lemma list_refined:
  assumes "fs_late s = []"
  shows "store_view x st (snd (list_objects x st limit s)) = store_view x st s"
proof -
  obtain r s' where run: "list_objects x st limit s = (r, s')" by fastforce
  from still_keepsD [OF still.keeps_list_objects assms run] have "node_at s' = node_at s" by simp
  then show ?thesis unfolding run snd_conv by (intro view_same) (simp add: file_at_def)
qed

text \<open>
  C5: The object store is a map. Seen through \<open>store_view\<close>, an upload that succeeds adds content with
  the answered digest and length under the answered key (what was sent, unless such an object was
  there), one that fails changes nothing, one that is dropped changes at most keys of its own
  namespace; opening answers the content under the key, and always when there is one and no call fails;
  deleting removes the key, or fails without a change; sweeping and listing change nothing.
\<close>

theorem object_store_refines_map:
  assumes "uuid_documented x" "sha256_documented x" "store_layout st" "fs_late s = []"
    and "content_ok x (objects_root st) (node_at s)" "valid_key x k"
  shows "(\<forall>fresh ns body r s'. put_stream x st fresh ns body s = (r, s') \<longrightarrow>
        put_refines x ns body (store_view x st s) r (store_view x st s'))
    \<and> (\<forall>r s'. open_object st k s = (r, s') \<longrightarrow> open_refines k (store_view x st s) r (store_view x st s'))
    \<and> (\<forall>c. store_view x st s k = Some c \<and> fs_faults s = [] \<longrightarrow>
        open_object st k s = (Ok \<lparr>ob_size_bytes = of_nat (length c), ob_content = c\<rparr>, s))
    \<and> (\<forall>r s'. delete_object st k s = (r, s') \<longrightarrow> delete_refines k (store_view x st s) r (store_view x st s'))
    \<and> (\<forall>age. store_view x st (snd (sweep_staging st age s)) = store_view x st s)
    \<and> (\<forall>limit. store_view x st (snd (list_objects x st limit s)) = store_view x st s)"
proof -
  from parsed_key_resolves [OF assms(6) [unfolded valid_key_def], of "objects_root st"] obtain p where
    p: "resolve_within (objects_root st) k = Ok p" by auto
  have "open_object st k s = (Ok \<lparr>ob_size_bytes = of_nat (length c), ob_content = c\<rparr>, s)"
    if "store_view x st s k = Some c" "fs_faults s = []" for c
    using open_object_present [OF p] view_valid [OF assms(6) p] that by simp
  with put_any_refines [OF assms(1-5)] open_refined [OF assms(4,6)] delete_refined [OF assms(4,6)]
    sweep_refined [OF assms(3,4)] list_refined [OF assms(4)] show ?thesis by blast
qed

theorem object_store_refines_map_witness:
  "\<exists>so s' b. put_stream sample_externs sample_store 7 sample_ns sample_body sample_fs = (Ok so, s')
    \<and> store_view sample_externs sample_store s' = (store_view sample_externs sample_store sample_fs)(so_key so \<mapsto> b)"
proof -
  obtain so s' where ok: "put_stream sample_externs sample_store 7 sample_ns sample_body sample_fs = (Ok so, s')"
    using sample_put_ok by (metis is_ok_iff prod.collapse)
  have "valid_key sample_externs (ObjectKey (key_text sample_externs sample_ns (content_digest sample_externs [])))"
    by (intro stored_key content_digest_hex sample_uuid_documented sample_sha256_documented)
  from object_store_refines_map [OF sample_uuid_documented sample_sha256_documented sample_layout
      sample_idle(1) sample_content_ok this] ok
  have "put_refines sample_externs sample_ns sample_body (store_view sample_externs sample_store sample_fs) (Ok so)
      (store_view sample_externs sample_store s')" by blast
  with ok show ?thesis by (auto simp: put_refines_def)
qed

end
