(* ===== verification/DbInvariants.thy ===== *)
theory DbInvariants
  imports DbRepo
begin

text \<open>
  What every statement of the repositories keeps. \<open>tx_invariant\<close> is the contract between a
  property of the tables and the statements: it lists the changes the statements make (rows
  added that passed the constraints, rows of the own bureau updated), and concludes that every
  repository function and every transaction keeps the property, on every exit. The
  interpretations are the constraints of the schema (\<open>constraints\<close>), the rows of other bureaus
  (\<open>isolation\<close>) and the recorded originals (\<open>originals\<close>).
\<close>

section \<open>Updates row by row\<close>

lemma map_update_rows:
  "(\<And>r. r \<in> set rows \<Longrightarrow> hit r \<Longrightarrow> g (f r) = g r) \<Longrightarrow> map g (update_rows hit f rows) = map g rows"
  by (simp add: update_rows_def)

lemma image_update_rows:
  "(\<And>r. r \<in> set rows \<Longrightarrow> hit r \<Longrightarrow> g (f r) = g r) \<Longrightarrow> g ` set (update_rows hit f rows) = g ` set rows"
  using map_update_rows [of rows hit g f] by (metis list.set_map)

lemma update_rows_all:
  "list_all P rows \<Longrightarrow> (\<And>r. r \<in> set rows \<Longrightarrow> hit r \<Longrightarrow> P r \<Longrightarrow> P (f r)) \<Longrightarrow> list_all P (update_rows hit f rows)"
  by (auto simp: update_rows_def list_all_iff)

lemma filter_update_rows:
  "(\<And>r. hit r \<Longrightarrow> \<not> P r \<and> \<not> P (f r)) \<Longrightarrow> filter P (update_rows hit f rows) = filter P rows"
  by (induction rows) (auto simp: update_rows_def)

lemma first_updated_Some:
  "first_updated hit f rows = Some r \<Longrightarrow> \<exists>q\<in>set rows. hit q \<and> r = f q"
  by (auto simp: first_updated_def find_Some_iff)

lemma first_updated_None: "first_updated hit f rows = None \<longleftrightarrow> (\<forall>q\<in>set rows. \<not> hit q)"
  by (auto simp: first_updated_def find_None_iff)

section \<open>The changes of the statements\<close>

definition partner_fits :: "uuid \<Rightarrow> tables \<Rightarrow> partner_row \<Rightarrow> bool" where
  "partner_fits b t r \<longleftrightarrow> pr_bureau_id r = b \<and> partner_check r
     \<and> pr_id r \<notin> pr_id ` set (partners t) \<and> b \<in> br_id ` set (bureaus t)"

definition material_fits :: "uuid \<Rightarrow> tables \<Rightarrow> material_row \<Rightarrow> bool" where
  "material_fits b t m \<longleftrightarrow> mr_bureau_id m = b \<and> material_check m
     \<and> mr_id m \<notin> mr_id ` set (materials t) \<and> content_key m \<notin> content_key ` set (materials t)
     \<and> (b, mr_partner_id m) \<in> partner_key ` set (partners t)"

definition job_fits :: "uuid \<Rightarrow> tables \<Rightarrow> job_row \<Rightarrow> bool" where
  "job_fits b t j \<longleftrightarrow> jr_bureau_id j = b \<and> job_check j
     \<and> jr_id j \<notin> jr_id ` set (jobs t) \<and> queue_key j \<notin> queue_key ` set (jobs t)
     \<and> job_material_key j \<in> material_key ` set (materials t)"

text \<open>What an update of a job keeps of it.\<close>

definition job_identity :: "job_row \<Rightarrow> uuid \<times> uuid \<times> uuid \<times> uuid \<times> ustr" where
  "job_identity r = (jr_id r, jr_bureau_id r, jr_partner_id r, jr_material_id r, jr_idempotency_key r)"

definition job_update :: "(job_row \<Rightarrow> job_row) \<Rightarrow> bool" where
  "job_update f \<longleftrightarrow> (\<forall>r. job_identity (f r) = job_identity r \<and> (job_check r \<longrightarrow> job_check (f r)))"

lemma job_update_requeued: "job_update (requeued_job now)"
  by (auto simp: job_update_def job_identity_def requeued_job_def job_check_def job_statuses_def
      opt_at_most_def)

lemma job_update_reclaimed: "job_update (reclaimed_job now)"
  by (auto simp: job_update_def job_identity_def reclaimed_job_def job_check_def job_statuses_def
      opt_at_most_def lit_def)

section \<open>Statements and transactions keep a property\<close>

text \<open>
  For any property of the tables: a transaction of the bureau \<open>b\<close> keeps it if its statements do,
  and reading keeps it.
\<close>

locale tx_property =
  fixes b :: uuid and I :: "tables \<Rightarrow> bool"

context tx_property begin

definition scoped :: "scoped_tx \<Rightarrow> bool" where
  "scoped t \<longleftrightarrow> tx_bureau_id t = b \<and> tx_context t = Some b \<and> I (tx_tables t)"

lemma own_row_scoped: "scoped t \<Longrightarrow> own_row t c \<longleftrightarrow> c = b"
  by (auto simp: scoped_def own_row_def rls_visible_def)

lemma scoped_bureau: "scoped t \<Longrightarrow> tx_bureau_id t = b"
  by (simp add: scoped_def)

lemma scoped_tables: "scoped t \<Longrightarrow> I (tx_tables t)"
  by (simp add: scoped_def)

lemma scoped_set_tables: "scoped t \<Longrightarrow> I tb \<Longrightarrow> scoped (set_tables tb t)"
  by (simp add: scoped_def set_tables_def tx_tables_def)

lemma scoped_db: "scoped t \<Longrightarrow> db_tables d = tx_tables t \<Longrightarrow> scoped (t\<lparr>tx_db := d\<rparr>)"
  by (simp add: scoped_def tx_tables_def)

lemma keeps_statement:
  assumes "st_keeps scoped q"
  shows "st_keeps scoped (statement q)"
proof (rule st_keepsI)
  fix t assume t: "scoped t"
  obtain f d where f: "next_db_fault (tx_db t) = (f, d)" by fastforce
  then have "db_tables d = tx_tables t"
    by (auto simp: next_db_fault_def tx_tables_def split: list.splits)
  with t have t': "scoped (t\<lparr>tx_db := d\<rparr>)" by (rule scoped_db)
  show "scoped (snd (statement q t))"
    using t' st_keeps_snd [OF assms t'] f
    by (cases f) (auto simp: statement_def st_map_err_def split: prod.splits)
qed

lemma keeps_write: "(\<And>t. scoped t \<Longrightarrow> scoped (snd (q t))) \<Longrightarrow> st_keeps scoped (statement q)"
  by (rule keeps_statement) (rule st_keepsI)

lemma keeps_read: "st_keeps scoped (statement (\<lambda>t. (g t, t)))"
  by (rule keeps_statement) (simp add: st_keeps_def)

lemma keeps_partners_list: "st_keeps scoped partners_list"
  unfolding partners_list_def by (rule keeps_read)

lemma keeps_partners_get: "st_keeps scoped (partners_get pid)"
  unfolding partners_get_def by (rule keeps_read)

lemma keeps_partners_exists: "st_keeps scoped (partners_exists pid)"
  unfolding partners_exists_def by (rule keeps_read)

lemma scoped_gen:
  assumes "scoped t" "gen_random_uuid (tx_db t) = (u, d)"
  shows "scoped (t\<lparr>tx_db := d\<rparr>)" "tx_tables (t\<lparr>tx_db := d\<rparr>) = tx_tables t"
  using assms by (auto simp: gen_random_uuid_def scoped_def tx_tables_def)

lemma keeps_materials_list: "st_keeps scoped (materials_list_for_partner pid)"
  unfolding materials_list_for_partner_def by (intro keeps_rules keeps_read)

lemma keeps_find_by_digest: "st_keeps scoped (materials_find_by_digest pid sha)"
  unfolding materials_find_by_digest_def by (intro keeps_rules keeps_read)

lemma keeps_get_in_partner: "st_keeps scoped (materials_get_in_partner pid mid)"
  unfolding materials_get_in_partner_def
  by (intro keeps_rules keeps_read st_keeps_option)

lemma keeps_jobs_list: "st_keeps scoped (jobs_list_for_partner pid)"
  unfolding jobs_list_for_partner_def by (intro keeps_rules keeps_read)

lemma keeps_count: "st_keeps scoped count_by_status"
  unfolding count_by_status_def Let_def by (intro keeps_rules keeps_read)

text \<open>The end of the transaction, committed or not.\<close>

lemma keeps_in_scoped_tx:
  assumes body: "st_keeps scoped body"
  shows "st_keeps (\<lambda>d. I (db_tables (d :: db))) (in_scoped_tx conv b body)"
proof (rule st_keepsI)
  fix d :: db assume d: "I (db_tables d)"
  obtain r d1 where b: "begin_scoped b d = (r, d1)" by fastforce
  then have r: "r \<noteq> Panic" "db_tables d1 = db_tables d"
      "\<And>t. r = Ok t \<Longrightarrow> tx_bureau_id t = b \<and> tx_context t = Some b \<and> tx_tables t = db_tables d"
    by (auto simp: begin_scoped_def next_db_fault_def tx_tables_def
        split: prod.splits db_fault.splits list.splits)
  show "I (db_tables (snd (in_scoped_tx conv b body d)))"
  proof (cases r)
    case (Ok t)
    have "scoped t" using r(3) [OF Ok] d by (simp add: scoped_def)
    obtain r' t' where q: "body t = (r', t')" by fastforce
    from st_keepsD [OF body \<open>scoped t\<close> q] have t': "I (db_tables (tx_db t'))"
      by (simp add: scoped_def tx_tables_def)
    have c: "I (db_tables (snd (tx_commit (db_tables d) t')))"
      using t' d by (auto simp: tx_commit_def next_db_fault_def split: list.splits db_fault.splits)
    show ?thesis using b Ok q c d
      by (cases r'; cases "tx_commit (db_tables d) t'"; cases "fst (tx_commit (db_tables d) t')")
         (auto simp: in_scoped_tx_def tx_rollback_def)
  qed (use b r d in \<open>auto simp: in_scoped_tx_def\<close>)
qed

lemmas keeps_reads =
  keeps_partners_list keeps_partners_get keeps_partners_exists keeps_materials_list
  keeps_find_by_digest keeps_get_in_partner keeps_jobs_list keeps_count

end

section \<open>Statements that write\<close>

locale tx_invariant = tx_property b I for b :: uuid and I :: "tables \<Rightarrow> bool" +
  fixes recordable :: "material_row \<Rightarrow> bool"
  assumes partner_added: "I t \<Longrightarrow> partner_fits b t r \<Longrightarrow> I (t\<lparr>partners := partners t @ [r]\<rparr>)"
    and partners_patched: "I t \<Longrightarrow> (\<And>r. hit r \<Longrightarrow> pr_bureau_id r = b) \<Longrightarrow>
      (\<And>r. r \<in> set (partners t) \<Longrightarrow> hit r \<Longrightarrow> partner_check (patched_partner now p r)) \<Longrightarrow>
      I (t\<lparr>partners := update_rows hit (patched_partner now p) (partners t)\<rparr>)"
    and material_added: "I t \<Longrightarrow> material_fits b t m \<Longrightarrow> recordable m \<Longrightarrow>
      I (t\<lparr>materials := materials t @ [m]\<rparr>)"
    and materials_requeued: "I t \<Longrightarrow> (\<And>m. mhit m \<Longrightarrow> mr_bureau_id m = b) \<Longrightarrow>
      I (t\<lparr>materials := update_rows mhit (requeued_material now) (materials t)\<rparr>)"
    and job_added: "I t \<Longrightarrow> job_fits b t j \<Longrightarrow> I (t\<lparr>jobs := jobs t @ [j]\<rparr>)"
    and jobs_updated: "I t \<Longrightarrow> (\<And>j. jhit j \<Longrightarrow> jr_bureau_id j = b) \<Longrightarrow> job_update f \<Longrightarrow>
      I (t\<lparr>jobs := update_rows jhit f (jobs t)\<rparr>)"

context tx_invariant begin

lemma partner_insert_fits:
  assumes "partner_insert_error t r = None" "pr_bureau_id r = b"
  shows "partner_fits b (tx_tables t) r"
  using assms by (auto simp: partner_insert_error_def partner_fits_def split: if_splits)

lemma keeps_partner_insert: "st_keeps scoped (partner_insert name note)"
proof (rule st_keepsI)
  fix t assume t: "scoped t"
  obtain u d where g: "gen_random_uuid (tx_db t) = (u, d)" by fastforce
  note t' = scoped_gen(1) [OF t g]
  have "pr_bureau_id (new_partner_row d u b name note) = b" by (simp add: new_partner_row_def)
  with t' show "scoped (snd (partner_insert name note t))"
    by (auto simp: partner_insert_def g Let_def scoped_bureau [OF t] split: option.split
        intro!: scoped_set_tables partner_added partner_insert_fits scoped_tables)
qed

lemma keeps_partners_create: "st_keeps scoped (partners_create name note)"
  unfolding partners_create_def by (intro keeps_rules keeps_statement keeps_partner_insert)

lemma keeps_partners_update: "st_keeps scoped (partners_update_row pid p)"
  unfolding partners_update_row_def
  by (rule keeps_write)
     (auto simp: Let_def list_all_iff own_row_scoped
       intro!: scoped_set_tables partners_patched scoped_tables)

lemma keeps_material_insert:
  assumes "\<And>d u. recordable (new_material_row d u b n)"
  shows "st_keeps scoped (material_insert n)"
proof (rule st_keepsI)
  fix t assume t: "scoped t"
  obtain u d where g: "gen_random_uuid (tx_db t) = (u, d)" by fastforce
  note t' = scoped_gen(1) [OF t g]
  have "mr_bureau_id (new_material_row d u b n) = b" "mr_id (new_material_row d u b n) = u"
    by (simp_all add: new_material_row_def)
  with t' show "scoped (snd (material_insert n t))"
    by (auto simp: material_insert_def g Let_def scoped_bureau [OF t] material_fits_def
        intro!: scoped_set_tables material_added scoped_tables assms
        del: imageE)
qed

lemma keeps_materials_insert:
  "(\<And>d u. recordable (new_material_row d u b n)) \<Longrightarrow> st_keeps scoped (materials_insert n)"
  unfolding materials_insert_def
  by (intro keeps_rules keeps_statement keeps_material_insert keeps_find_by_digest st_keeps_option)

lemma keeps_materials_requeue: "st_keeps scoped (materials_requeue pid mid)"
  unfolding materials_requeue_def
  by (intro keeps_rules keeps_write)
     (auto simp: Let_def own_row_scoped intro!: scoped_set_tables materials_requeued scoped_tables)

lemma keeps_job_insert: "st_keeps scoped (job_insert pid mid kind key)"
proof (rule st_keepsI)
  fix t assume t: "scoped t"
  obtain u d where g: "gen_random_uuid (tx_db t) = (u, d)" by fastforce
  note t' = scoped_gen(1) [OF t g]
  let ?r = "new_job_row d u b pid mid kind key"
  have "jr_bureau_id ?r = b" "jr_id ?r = u"
    by (simp_all add: new_job_row_def)
  with t' show "scoped (snd (job_insert pid mid kind key t))"
    by (auto simp: job_insert_def g Let_def scoped_bureau [OF t] job_fits_def
        intro!: scoped_set_tables job_added scoped_tables
        del: imageE)
qed

lemma keeps_enqueue: "st_keeps scoped (enqueue_extraction x pid mid)"
  unfolding enqueue_extraction_def Let_def
  by (intro keeps_rules keeps_statement keeps_job_insert keeps_read st_keeps_option)

lemma keeps_requeue_extraction: "st_keeps scoped (requeue_extraction x pid mid)"
  unfolding requeue_extraction_def Let_def
  by (intro keeps_rules keeps_write keeps_enqueue st_keeps_option)
     (auto simp: own_row_scoped
       intro!: scoped_set_tables jobs_updated scoped_tables job_update_requeued)

lemma keeps_reclaim: "st_keeps scoped reclaim_expired_leases"
  unfolding reclaim_expired_leases_def Let_def
  by (rule keeps_write)
     (auto simp: own_row_scoped
       intro!: scoped_set_tables jobs_updated scoped_tables job_update_reclaimed)

lemmas keeps_repository = keeps_reads
  keeps_partners_create keeps_partners_update keeps_materials_insert keeps_materials_requeue
  keeps_enqueue keeps_requeue_extraction keeps_reclaim

end


section \<open>The constraints of the schema\<close>

lemma patched_partner_identity [simp]:
  "pr_id (patched_partner now p r) = pr_id r" "pr_bureau_id (patched_partner now p r) = pr_bureau_id r"
  by (simp_all add: patched_partner_def)

text \<open>What no statement changes of a recorded original.\<close>

definition original :: "material_row \<Rightarrow> uuid \<times> uuid \<times> uuid \<times> ustr \<times> ustr \<times> int" where
  "original m = (mr_id m, mr_bureau_id m, mr_partner_id m, mr_sha256 m, mr_storage_key m, mr_size_bytes m)"

lemma requeued_original [simp]: "original (requeued_material now m) = original m"
  by (simp add: original_def requeued_material_def)

lemma requeued_check: "material_check m \<Longrightarrow> material_check (requeued_material now m)"
  by (auto simp: material_check_def requeued_material_def material_statuses_def opt_at_most_def)

lemma material_table_mono: "material_table_ok K ms \<Longrightarrow> K \<subseteq> K' \<Longrightarrow> material_table_ok K' ms"
  by (auto simp: material_table_ok_def list_all_iff)

lemma job_table_mono: "job_table_ok K js \<Longrightarrow> K \<subseteq> K' \<Longrightarrow> job_table_ok K' js"
  by (auto simp: job_table_ok_def list_all_iff)

lemma partner_table_patched:
  assumes "partner_table_ok ids ps"
    and "\<And>r. r \<in> set ps \<Longrightarrow> hit r \<Longrightarrow> partner_check (patched_partner now p r)"
  shows "partner_table_ok ids (update_rows hit (patched_partner now p) ps)"
  using assms by (auto simp: partner_table_ok_def map_update_rows intro!: update_rows_all)

lemma partner_keys_patched:
  "partner_key ` set (update_rows hit (patched_partner now p) ps) = partner_key ` set ps"
  by (rule image_update_rows) (simp add: partner_key_def)

lemma requeued_keys [simp]:
  "mr_id (requeued_material now m) = mr_id m" "content_key (requeued_material now m) = content_key m"
  "material_key (requeued_material now m) = material_key m"
  "mr_bureau_id (requeued_material now m) = mr_bureau_id m"
  "mr_partner_id (requeued_material now m) = mr_partner_id m"
  by (simp_all add: requeued_material_def content_key_def material_key_def)

lemma material_table_requeued:
  "material_table_ok K ms \<Longrightarrow> material_table_ok K (update_rows hit (requeued_material now) ms)"
  by (auto simp: material_table_ok_def map_update_rows requeued_check intro!: update_rows_all)

lemma material_keys_requeued:
  "material_key ` set (update_rows hit (requeued_material now) ms) = material_key ` set ms"
  by (rule image_update_rows) simp

lemma job_update_keys:
  "job_update f \<Longrightarrow> jr_id (f j) = jr_id j \<and> queue_key (f j) = queue_key j
     \<and> job_material_key (f j) = job_material_key j \<and> jr_bureau_id (f j) = jr_bureau_id j
     \<and> (job_check j \<longrightarrow> job_check (f j))"
  by (simp add: job_update_def job_identity_def queue_key_def job_material_key_def)

lemma job_table_updated:
  "job_table_ok K js \<Longrightarrow> job_update f \<Longrightarrow> job_table_ok K (update_rows hit f js)"
  by (auto simp: job_table_ok_def map_update_rows job_update_keys intro!: update_rows_all)

interpretation constraints: tx_invariant b tables_ok "\<lambda>m. True"
proof
  fix t r assume "tables_ok t" "partner_fits b t r"
  then show "tables_ok (t\<lparr>partners := partners t @ [r]\<rparr>)"
    by (auto simp: tables_ok_def partner_fits_def partner_table_ok_def intro: material_table_mono)
next
  fix t now p and hit :: "partner_row \<Rightarrow> bool"
  assume "tables_ok t" "\<And>r. r \<in> set (partners t) \<Longrightarrow> hit r \<Longrightarrow> partner_check (patched_partner now p r)"
  then show "tables_ok (t\<lparr>partners := update_rows hit (patched_partner now p) (partners t)\<rparr>)"
    by (simp add: tables_ok_def partner_table_patched partner_keys_patched)
next
  fix t m assume "tables_ok t" "material_fits b t m"
  then show "tables_ok (t\<lparr>materials := materials t @ [m]\<rparr>)"
    by (auto simp: tables_ok_def material_fits_def material_table_ok_def intro: job_table_mono)
next
  fix t j assume "tables_ok t" "job_fits b t j"
  then show "tables_ok (t\<lparr>jobs := jobs t @ [j]\<rparr>)"
    by (auto simp: tables_ok_def job_fits_def job_table_ok_def)
qed (simp_all add: tables_ok_def material_table_requeued material_keys_requeued job_table_updated)

section \<open>Other bureaus\<close>

definition others_kept :: "uuid \<Rightarrow> tables \<Rightarrow> tables \<Rightarrow> bool" where
  "others_kept b t t' \<longleftrightarrow>
     bureaus t' = bureaus t \<and> sessions t' = sessions t
     \<and> filter (\<lambda>r. pr_bureau_id r \<noteq> b) (partners t') = filter (\<lambda>r. pr_bureau_id r \<noteq> b) (partners t)
     \<and> filter (\<lambda>r. mr_bureau_id r \<noteq> b) (materials t') = filter (\<lambda>r. mr_bureau_id r \<noteq> b) (materials t)
     \<and> filter (\<lambda>r. jr_bureau_id r \<noteq> b) (jobs t') = filter (\<lambda>r. jr_bureau_id r \<noteq> b) (jobs t)"

lemma others_kept_refl [simp]: "others_kept b t t"
  by (simp add: others_kept_def)

interpretation isolation: tx_invariant b "others_kept b t0" "\<lambda>m. True"
  by unfold_locales
     (simp_all add: others_kept_def partner_fits_def material_fits_def job_fits_def
       filter_update_rows job_update_keys)

section \<open>Originals\<close>

text \<open>Every recorded original stays recorded, in its place and unchanged.\<close>

definition originals_kept :: "tables \<Rightarrow> tables \<Rightarrow> bool" where
  "originals_kept t t' \<longleftrightarrow> prefix (map original (materials t)) (map original (materials t'))"

interpretation originals: tx_invariant b "originals_kept t0" "\<lambda>m. True"
  by unfold_locales (simp_all add: originals_kept_def map_update_rows)

end
