(* ===== verification/DbAdmin.thy ===== *)
theory DbAdmin
  imports DbSessions
begin

text \<open>
  \<^verbatim>\<open>crates/otdel-db/src/lib.rs\<close>: the check of the runtime role, the probes of \<^verbatim>\<open>/ready\<close>, the
  provisioning of a bureau and the clean-up before migrations.

  What the catalog queries return is data of the server: \<open>runtime_role\<close> is the row of
  \<^verbatim>\<open>verify_runtime_role\<close>, a \<open>pgvector\<close> the row of \<^verbatim>\<open>pgvector_status\<close>. Connecting and the
  migrator are sqlx's.
\<close>

section \<open>The runtime role\<close>

record runtime_role =
  role_name :: ustr
  is_superuser :: bool
  bypasses_rls :: bool
  can_create_role :: bool
  can_create_db :: bool
  owns_tables :: bool
  reads_sessions :: bool
  rls_partners :: bool
  rls_materials :: bool
  rls_jobs :: bool

definition role_problems :: "runtime_role \<Rightarrow> ustr list" where
  "role_problems r =
     (if is_superuser r then [lit ''the role is SUPERUSER''] else [])
     @ (if bypasses_rls r then [lit ''the role has BYPASSRLS''] else [])
     @ (if can_create_role r then [lit ''the role has CREATEROLE''] else [])
     @ (if can_create_db r then [lit ''the role has CREATEDB''] else [])
     @ (if owns_tables r then [lit ''the role owns tables in the otdel schema''] else [])
     @ (if reads_sessions r then [lit ''the role can read otdel.sessions directly''] else [])
     @ (if \<not> rls_partners r then [lit ''row-level security is not applied on otdel.partners''] else [])
     @ (if \<not> rls_materials r then [lit ''row-level security is not applied on otdel.materials''] else [])
     @ (if \<not> rls_jobs r then [lit ''row-level security is not applied on otdel.jobs''] else [])"

definition verify_runtime_role :: "runtime_role \<Rightarrow> (db, db_error, unit) stateful" where
  "verify_runtime_role role =
     st_then (auto_statement (\<lambda>d. (Ok role, d))) (\<lambda>row.
       if role_problems row = [] then st_ok ()
       else st_err (DbUnsafeRuntimeRole (role_name row) (role_problems row)))"

text \<open>The situation the policies of the schema are made for.\<close>

definition restricted_role :: "runtime_role \<Rightarrow> bool" where
  "restricted_role r \<longleftrightarrow>
     \<not> is_superuser r \<and> \<not> bypasses_rls r \<and> \<not> can_create_role r \<and> \<not> can_create_db r
     \<and> \<not> owns_tables r \<and> \<not> reads_sessions r \<and> rls_partners r \<and> rls_materials r \<and> rls_jobs r"

lemma role_problems_iff: "role_problems r = [] \<longleftrightarrow> restricted_role r"
  by (auto simp: role_problems_def restricted_role_def)

section \<open>Probes\<close>

definition db_health :: "(db, db_error, unit) stateful" where
  "db_health = auto_statement (\<lambda>d. (Ok (), d))"

datatype pgvector_state = PgInstalled | PgAvailable | PgAbsent

record pgvector =
  pg_installed :: bool
  pg_available :: bool

fun pgvector_as_str :: "pgvector_state \<Rightarrow> ustr" where
  "pgvector_as_str PgInstalled = lit ''installed''"
| "pgvector_as_str PgAvailable = lit ''available_not_installed''"
| "pgvector_as_str PgAbsent = lit ''absent''"

definition pgvector_status :: "pgvector \<Rightarrow> (db, db_error, pgvector_state) stateful" where
  "pgvector_status server =
     st_then (auto_statement (\<lambda>d. (Ok server, d))) (\<lambda>row.
       st_ok (if pg_installed row then PgInstalled
              else if pg_available row then PgAvailable else PgAbsent))"

section \<open>Provisioning\<close>

text \<open>The name \<^verbatim>\<open>format!\<close> gives a bureau: the Russian word for it, a space and the slug.\<close>

definition bureau_name_of :: "ustr \<Rightarrow> ustr" where
  "bureau_name_of slug = [0x411, 0x44E, 0x440, 0x43E, 32] @ slug"

text \<open>
  The statement of \<^verbatim>\<open>bootstrap_bureau\<close>: the insert, which does nothing for a known slug, then the
  row just made or else the row that was there.
\<close>

definition sql_bootstrap :: "ustr \<Rightarrow> ustr \<Rightarrow> (db, sql_error, uuid) stateful" where
  "sql_bootstrap slug name d =
     (if \<not> pg_text slug \<or> \<not> pg_text name then (Err bad_text, d)
      else
        (case gen_random_uuid d of (u, d) \<Rightarrow>
          let r = \<lparr>br_id = u, br_slug = slug, br_name = name\<rparr>; rows = bureaus (db_tables d)
          in if \<not> bureau_check r then (Err check_violated, d)
             else (case find (\<lambda>b. br_slug b = slug) rows of
                     Some b \<Rightarrow> (Ok (br_id b), d)
                   | None \<Rightarrow>
                       if u \<in> br_id ` set rows then (Err unique_violated, d)
                       else (Ok u, d\<lparr>db_tables := (db_tables d)\<lparr>bureaus := rows @ [r]\<rparr>\<rparr>))))"

definition bootstrap_bureau :: "ustr \<Rightarrow> (db, db_error, uuid) stateful" where
  "bootstrap_bureau slug = auto_statement (sql_bootstrap slug (bureau_name_of slug))"

section \<open>Migrations\<close>

text \<open>
  The table of migrations in the wrong schema: absent, or so many rows. \<open>count_fails\<close> says the
  counting query fails for another reason, which the code takes for an absent table.
\<close>

type_synonym stray_table = "nat option"

definition remove_stray_migration_table ::
    "bool \<Rightarrow> db_fault \<Rightarrow> stray_table \<Rightarrow> (db_error, unit) outcome \<times> stray_table" where
  "remove_stray_migration_table count_fails drop_fault stray =
     (case (if count_fails then None else stray) of
        None \<Rightarrow> (Ok (), stray)
      | Some rows_present \<Rightarrow>
          if rows_present > 0 then (Ok (), stray)
          else
            (case drop_fault of
               DbFine \<Rightarrow> (Ok (), None)
             | DbFail e \<Rightarrow> (Err (DbSqlx e), stray)
             | DbFailAfter e \<Rightarrow> (Err (DbSqlx e), None)))"

text \<open>Only an empty table is ever dropped.\<close>

lemma stray_history_kept:
  "stray = Some n \<Longrightarrow> 0 < n \<Longrightarrow>
   remove_stray_migration_table count_fails drop_fault stray = (Ok (), stray)"
  by (simp add: remove_stray_migration_table_def)

text \<open>\<open>migrator\<close> is \<^verbatim>\<open>MIGRATOR.run\<close>, which sees the stray table only as what it is now.\<close>

definition run_migrations ::
    "(stray_table \<Rightarrow> (db_error, unit) outcome \<times> stray_table) \<Rightarrow> bool \<Rightarrow> db_fault \<Rightarrow> stray_table
      \<Rightarrow> (db_error, unit) outcome \<times> stray_table" where
  "run_migrations migrator count_fails drop_fault =
     st_then (remove_stray_migration_table count_fails drop_fault) (\<lambda>_. migrator)"

section \<open>A bureau is provisioned once\<close>

lemma bureau_check_slug: "bureau_check \<lparr>br_id = u, br_slug = s, br_name = n\<rparr> \<Longrightarrow> 1 \<le> length s \<and> length s \<le> 64"
  by (simp add: bureau_check_def)

lemma sql_bootstrap_Ok:
  assumes "sql_bootstrap slug name d = (Ok u, d')"
  shows "\<exists>b\<in>set (bureaus (db_tables d')). br_id b = u \<and> br_slug b = slug"
    "(\<exists>b\<in>set (bureaus (db_tables d)). br_slug b = slug) \<longrightarrow> db_tables d' = db_tables d"
    "\<exists>bs. bureaus (db_tables d') = bureaus (db_tables d) @ bs"
  using assms
  by (auto simp: sql_bootstrap_def gen_random_uuid_def Let_def find_None_iff
      dest!: find_SomeD split: if_splits option.splits)

end
