(* ===== verification/SessionTables.thy ===== *)
theory SessionTables
  imports DbInvariants DbAdmin
begin

text \<open>
  What the statements outside a scoped transaction keep: the session functions, the probes and the
  provisioning of a bureau. \<open>session_invariant\<close> is their contract with a property of the tables,
  as \<open>tx_invariant\<close> is that of the repositories; it is interpreted on the constraints of the
  schema and on the tenant data, which the session functions do not touch.
\<close>

text \<open>A session that may be added: it passed the checks, is new, and belongs to a known bureau.\<close>

definition session_fits :: "tables \<Rightarrow> session_row \<Rightarrow> bool" where
  "session_fits t r \<longleftrightarrow> session_check r \<and> sr_bureau_id r \<in> br_id ` set (bureaus t)
     \<and> sr_id r \<notin> sr_id ` set (sessions t)
     \<and> sr_token_fingerprint r \<notin> sr_token_fingerprint ` set (sessions t)"

definition seen_at :: "timestamp \<Rightarrow> session_row \<Rightarrow> session_row" where
  "seen_at now r = r\<lparr>sr_last_seen_at := now\<rparr>"

lemma seen_at_fields [simp]:
  "sr_id (seen_at now r) = sr_id r" "sr_bureau_id (seen_at now r) = sr_bureau_id r"
  "sr_token_fingerprint (seen_at now r) = sr_token_fingerprint r"
  "session_check (seen_at now r) = session_check r"
  by (simp_all add: seen_at_def session_check_def)

locale session_invariant =
  fixes I :: "tables \<Rightarrow> bool"
  assumes session_added: "I t \<Longrightarrow> session_fits t r \<Longrightarrow> I (t\<lparr>sessions := sessions t @ [r]\<rparr>)"
    and sessions_seen: "I t \<Longrightarrow> I (t\<lparr>sessions := update_rows hit (seen_at now) (sessions t)\<rparr>)"
    and sessions_removed: "I t \<Longrightarrow> I (t\<lparr>sessions := filter P (sessions t)\<rparr>)"

lemma auto_statement_keeps:
  assumes "\<And>d1 a d2. q d1 = (Ok a, d2) \<Longrightarrow> I (db_tables d1) \<Longrightarrow> I (db_tables d2)"
  shows "st_keeps (\<lambda>d. I (db_tables (d :: db))) (auto_statement q)"
proof (rule st_keepsI)
  fix d :: db assume d: "I (db_tables d)"
  obtain f d1 where f: "next_db_fault d = (f, d1)" by fastforce
  then have d1: "db_tables d1 = db_tables d" by (simp add: next_db_fault_fields)
  obtain r d2 where q: "q d1 = (r, d2)" by fastforce
  have "r = Ok a \<Longrightarrow> I (db_tables d2)" for a using assms q d d1 by auto
  with f q d d1 show "I (db_tables (snd (auto_statement q d)))"
    by (cases f; cases r) (auto simp: auto_statement_def)
qed

context session_invariant begin

abbreviation db_inv :: "db \<Rightarrow> bool" where
  "db_inv d \<equiv> I (db_tables d)"

lemma keeps_sessions_open: "st_keeps db_inv (sessions_open slug fp csrf ttl)"
proof -
  have "I (db_tables d2)" if q: "sql_session_open slug fp csrf ttl d1 = (Ok a, d2)" and i: "I (db_tables d1)"
    for d1 a d2
  proof -
    from q obtain b u d where b: "find (\<lambda>b. br_slug b = slug) (bureaus (db_tables d1)) = Some b"
      and g: "gen_random_uuid d1 = (u, d)"
      by (auto simp: sql_session_open_def split: if_splits option.splits prod.splits)
    from g have d: "db_tables d = db_tables d1" by (auto simp: gen_random_uuid_def)
    have "br_id b \<in> br_id ` set (bureaus (db_tables d1))" using find_SomeD [OF b] by blast
    with q b g d have "d2 = put_sessions (db_sessions d @ [a]) d" "session_fits (db_tables d1) a"
      by (auto simp: sql_session_open_def session_fits_def db_sessions_def Let_def split: if_splits)
    with i d show ?thesis by (simp add: put_sessions_def db_sessions_def session_added)
  qed
  then show ?thesis
    unfolding sessions_open_def by (intro keeps_rules auto_statement_keeps)
qed

lemma keeps_sessions_touch: "st_keeps db_inv (sessions_touch fp idle)"
proof -
  have "I (db_tables d2)" if "sql_session_touch fp idle d1 = (Ok a, d2)" "I (db_tables d1)" for d1 a d2
    using that by (auto simp: sql_session_touch_def Let_def put_sessions_def db_sessions_def
        update_rows_def [symmetric] seen_at_def [symmetric] sessions_seen split: if_splits)
  then show ?thesis
    unfolding sessions_touch_def by (intro keeps_rules auto_statement_keeps)
qed

lemma keeps_sessions_close: "st_keeps db_inv (sessions_close fp)"
proof -
  have "I (db_tables d2)" if "sql_session_close fp d1 = (Ok a, d2)" "I (db_tables d1)" for d1 a d2
    using that by (auto simp: sql_session_close_def put_sessions_def db_sessions_def sessions_removed
        split: if_splits)
  then show ?thesis
    unfolding sessions_close_def by (intro keeps_rules auto_statement_keeps)
qed

lemma keeps_sessions_purge: "st_keeps db_inv (sessions_purge_expired idle)"
proof -
  have "I (db_tables d2)" if "sql_session_purge_expired idle d1 = (Ok a, d2)" "I (db_tables d1)" for d1 a d2
    using that by (auto simp: sql_session_purge_expired_def Let_def put_sessions_def db_sessions_def
        sessions_removed split: if_splits)
  then show ?thesis
    unfolding sessions_purge_expired_def by (rule auto_statement_keeps)
qed

lemma keeps_auto_read: "st_keeps db_inv (auto_statement (\<lambda>d. (Ok (g d), d)))"
  by (rule auto_statement_keeps) simp

lemma keeps_bureau_id: "st_keeps db_inv (bureau_id_by_slug slug)"
  unfolding bureau_id_by_slug_def
  by (rule auto_statement_keeps) (auto simp: sql_bureau_id_by_slug_def split: if_splits)

lemma keeps_db_health: "st_keeps db_inv db_health"
  unfolding db_health_def by (rule keeps_auto_read)

lemma keeps_pgvector: "st_keeps db_inv (pgvector_status server)"
  unfolding pgvector_status_def by (intro keeps_rules keeps_auto_read)

lemma keeps_verify_role: "st_keeps db_inv (verify_runtime_role role)"
  unfolding verify_runtime_role_def by (intro keeps_rules keeps_auto_read)

lemmas keeps_statements =
  keeps_sessions_open keeps_sessions_touch keeps_sessions_close keeps_sessions_purge
  keeps_bureau_id keeps_db_health keeps_pgvector keeps_verify_role

end

section \<open>The constraints\<close>

lemma session_table_seen:
  "session_table_ok ids ss \<Longrightarrow> session_table_ok ids (update_rows hit (seen_at now) ss)"
  by (auto simp: session_table_ok_def map_update_rows intro!: update_rows_all)

lemma session_table_filter: "session_table_ok ids ss \<Longrightarrow> session_table_ok ids (filter P ss)"
  by (auto simp: session_table_ok_def list_all_iff distinct_map_filter)

interpretation session_constraints: session_invariant tables_ok
proof
  fix t r assume "tables_ok t" "session_fits t r"
  then show "tables_ok (t\<lparr>sessions := sessions t @ [r]\<rparr>)"
    by (auto simp: tables_ok_def session_fits_def session_table_ok_def)
qed (simp_all add: tables_ok_def session_table_seen session_table_filter)

lemma bootstrap_keeps_constraints:
  "st_keeps (\<lambda>d. tables_ok (db_tables (d :: db))) (bootstrap_bureau slug)"
proof -
  have "tables_ok (db_tables d2)" if q: "sql_bootstrap slug name d1 = (Ok a, d2)" and ok: "tables_ok (db_tables d1)"
    for name d1 a d2
  proof -
    obtain u d where g: "gen_random_uuid d1 = (u, d)" by fastforce
    then have d: "db_tables d = db_tables d1" by (auto simp: gen_random_uuid_def)
    let ?r = "\<lparr>br_id = u, br_slug = slug, br_name = name\<rparr>"
    show ?thesis
    proof (cases "find (\<lambda>b. br_slug b = slug) (bureaus (db_tables d))")
      case (Some b)
      with q g ok d show ?thesis by (auto simp: sql_bootstrap_def Let_def split: if_splits)
    next
      case None
      then have "slug \<notin> br_slug ` set (bureaus (db_tables d))" by (auto simp: find_None_iff)
      moreover from q g None have "bureau_check ?r" "u \<notin> br_id ` set (bureaus (db_tables d))"
          "db_tables d2 = (db_tables d)\<lparr>bureaus := bureaus (db_tables d) @ [?r]\<rparr>"
        by (auto simp: sql_bootstrap_def Let_def split: if_splits)
      ultimately show ?thesis using ok d
        by (auto simp: tables_ok_def bureau_table_ok_def partner_table_ok_def session_table_ok_def list_all_iff)
    qed
  qed
  then show ?thesis unfolding bootstrap_bureau_def by (intro auto_statement_keeps)
qed

lemma bootstrap_keeps_materials:
  "st_keeps (\<lambda>d. P (materials (db_tables (d :: db)))) (bootstrap_bureau slug)"
proof -
  have "materials (db_tables d2) = materials (db_tables d1)" if "sql_bootstrap slug name d1 = (Ok a, d2)"
    for name d1 a d2
    using that by (auto simp: sql_bootstrap_def gen_random_uuid_def Let_def split: if_splits option.splits)
  then show ?thesis unfolding bootstrap_bureau_def by (intro auto_statement_keeps) simp
qed

section \<open>Tenant data\<close>

definition tenant_data :: "tables \<Rightarrow> bureau_row list \<times> partner_row list \<times> material_row list \<times> job_row list"
  where
  "tenant_data t = (bureaus t, partners t, materials t, jobs t)"

interpretation session_data: session_invariant "\<lambda>t. tenant_data t = v" for v
  by unfold_locales (simp_all add: tenant_data_def)

end
