(* ===== verification/Routes.thy ===== *)
theory Routes
  imports Extract Upload StoreKeeps
begin

text \<open>
  \<^verbatim>\<open>crates/otdel-api/src/routes/partners.rs\<close>, \<^verbatim>\<open>materials.rs\<close> and \<^verbatim>\<open>jobs.rs\<close>: one definition
  per handler, in the order of its extractors and statements.
\<close>

text \<open>The call of a repository function in a handler, and a transaction of the session's bureau.\<close>

abbreviation repo :: "(scoped_tx, db_error, 'a) stateful \<Rightarrow> (scoped_tx, api_error, 'a) stateful" where
  "repo m \<equiv> st_map_err api_of_db m"

definition in_tx :: "session \<Rightarrow> (scoped_tx, api_error, 'a) stateful \<Rightarrow> (world, api_error, 'a) stateful"
  where
  "in_tx s body = on_db (in_scoped_tx api_of_db (session_bureau_id s) body)"

definition require_session ::
    "externs \<Rightarrow> config \<Rightarrow> request \<Rightarrow> (session \<Rightarrow> (world, api_error, 'a) stateful)
      \<Rightarrow> (world, api_error, 'a) stateful" where
  "require_session x c rq handler = st_then (on_db (session_extract x c rq)) handler"

section \<open>Partners\<close>

definition partner_not_found :: api_error where
  "partner_not_found = api_not_found (lit ''partner not found'')"

definition list_partners :: "session \<Rightarrow> (world, api_error, response) stateful" where
  "list_partners s =
     st_then (in_tx s (repo partners_list)) (\<lambda>items.
       st_ok (json_response 200 (PartnersBody items)))"

definition create_partner ::
    "session \<Rightarrow> create_partner_request \<Rightarrow> (world, api_error, response) stateful" where
  "create_partner s payload =
     st_then (st_lift (map_err api_error_new (partner_name (cp_name payload)))) (\<lambda>name.
     st_then (st_lift (map_err api_error_new (partner_note (cp_note payload)))) (\<lambda>note.
     st_then (in_tx s (repo (partners_create name note))) (\<lambda>partner.
       st_ok (json_response 201 (PartnerBody partner)))))"

definition show_partner :: "session \<Rightarrow> uuid \<Rightarrow> (world, api_error, response) stateful" where
  "show_partner s pid =
     st_then (in_tx s (repo (partners_get pid))) (\<lambda>partner.
     st_then (st_lift (ok_or partner_not_found partner)) (\<lambda>partner.
       st_ok (json_response 200 (PartnerBody partner))))"

text \<open>The patch: a name, if there is one, then a note, if there is one.\<close>

definition validated_patch :: "patch_partner_request \<Rightarrow> (app_error, partner_patch) outcome" where
  "validated_patch payload =
     and_then (case pp_name payload of
                 None \<Rightarrow> Ok None
               | Some name \<Rightarrow> and_then (partner_name name) (\<lambda>n. Ok (Some n))) (\<lambda>name.
     and_then (case pp_note payload of
                 None \<Rightarrow> Ok None
               | Some note \<Rightarrow> and_then (partner_note note) (\<lambda>n. Ok (Some n))) (\<lambda>note.
     Ok \<lparr>patch_name = name, patch_note = note\<rparr>))"

definition update_partner ::
    "session \<Rightarrow> uuid \<Rightarrow> patch_partner_request \<Rightarrow> (world, api_error, response) stateful" where
  "update_partner s pid payload =
     st_then (st_lift (map_err api_error_new (validated_patch payload))) (\<lambda>patch.
     if patch_is_empty patch then
       st_err (api_error_new (ae_validation (lit ''patch must contain at least one of `name` or `note`'')))
     else
       st_then (in_tx s (repo (partners_update_row pid patch))) (\<lambda>partner.
       st_then (st_lift (ok_or partner_not_found partner)) (\<lambda>partner.
         st_ok (json_response 200 (PartnerBody partner)))))"

section \<open>Materials\<close>

definition material_not_found :: api_error where
  "material_not_found = api_not_found (lit ''material not found for this partner'')"

definition list_materials :: "session \<Rightarrow> uuid \<Rightarrow> (world, api_error, response) stateful" where
  "list_materials s pid =
     st_then (in_tx s (
       st_then (repo (partners_exists pid)) (\<lambda>known.
       if \<not> known then st_err partner_not_found
       else repo (materials_list_for_partner pid)))) (\<lambda>items.
     st_ok (json_response 200 (MaterialsBody items)))"

definition i64_try_from :: "u64 \<Rightarrow> int option" where
  "i64_try_from n = (if unat n < 2 ^ 63 then Some (int (unat n)) else None)"

fun outcome_material :: "insert_outcome \<Rightarrow> material" where
  "outcome_material (Created m) = m"
| "outcome_material (Duplicate m) = m"

text \<open>The row and its queue entry in one transaction.\<close>

definition publish_material ::
    "externs \<Rightarrow> uuid \<Rightarrow> new_material \<Rightarrow> (db, db_error, insert_outcome) stateful" where
  "publish_material x bureau n =
     in_scoped_tx id bureau (
       st_then (materials_insert n) (\<lambda>outcome.
       st_then (enqueue_extraction x (nm_partner_id n) (mat_id (outcome_material outcome))) (\<lambda>job.
       st_ok outcome)))"

definition record_material ::
    "externs \<Rightarrow> uuid \<Rightarrow> received_file \<Rightarrow> new_material \<Rightarrow> (world, api_error, insert_outcome) stateful"
  where
  "record_material x bureau received n w =
     (case on_db (publish_material x bureau n) w of
        (Ok outcome, w) \<Rightarrow> (Ok outcome, w)
      | (Err e, w) \<Rightarrow> (Err (api_of_db e), report_orphaned_object (rf_stored received) w)
      | (Panic, w) \<Rightarrow> (Panic, w))"

definition new_material_of :: "uuid \<Rightarrow> received_file \<Rightarrow> (app_error, new_material) outcome" where
  "new_material_of pid received =
     and_then (ok_or (app_error_new PayloadTooLarge (lit ''file is too large to record''))
       (i64_try_from (so_size_bytes (rf_stored received)))) (\<lambda>size.
     Ok \<lparr>nm_partner_id = pid, nm_filename = rf_filename received,
         nm_media_type = media_type_string (rf_media_type received), nm_size_bytes = size,
         nm_sha256 = so_sha256 (rf_stored received),
         nm_storage_key = key_str (so_key (rf_stored received))\<rparr>)"

definition outcome_response :: "insert_outcome \<Rightarrow> response" where
  "outcome_response outcome =
     (case outcome of
        Created m \<Rightarrow> json_response 201 (MaterialBody m)
      | Duplicate m \<Rightarrow> json_response 200 (MaterialBody m))"

definition upload_material ::
    "externs \<Rightarrow> config \<Rightarrow> fs_store \<Rightarrow> uuid \<Rightarrow> session \<Rightarrow> uuid \<Rightarrow> multipart
      \<Rightarrow> (world, api_error, response) stateful" where
  "upload_material x c st fresh s pid body =
     st_then (in_tx s (repo (partners_exists pid))) (\<lambda>known.
     if \<not> known then st_err partner_not_found
     else
       let ns = \<lparr>ns_bureau_id = session_bureau_id s, ns_partner_id = pid\<rparr> in
       st_then (receive_file x c st fresh ns body) (\<lambda>received.
       st_then (st_lift (map_err api_error_new (new_material_of pid received))) (\<lambda>n.
       st_then (record_material x (session_bureau_id s) received n) (\<lambda>outcome.
       st_ok (outcome_response outcome)))))"

definition content_disposition :: "(ustr \<Rightarrow> bool) \<Rightarrow> material \<Rightarrow> ustr option" where
  "content_disposition header_ok m =
     Option.bind (media_parse (mat_media_type m)) (\<lambda>media.
       let value = lit ''attachment; filename='' @ [34]
             @ content_disposition_ascii_fallback (mat_filename m) media @ [34]
             @ lit ''; filename*='' @ content_disposition_utf8 (mat_filename m)
       in if header_ok value then Some value else None)"

definition header_or :: "(ustr \<Rightarrow> bool) \<Rightarrow> ustr \<Rightarrow> string \<Rightarrow> ustr" where
  "header_or header_ok value fallback = (if header_ok value then value else lit fallback)"

definition download_response ::
    "(ustr \<Rightarrow> bool) \<Rightarrow> material \<Rightarrow> object_body \<Rightarrow> response" where
  "download_response header_ok m body =
     (let r = \<lparr>rs_status = 200, rs_headers = [], rs_body = BytesBody (ob_content body)\<rparr>;
          r = with_header ''content-type''
                (header_or header_ok (mat_media_type m) ''application/octet-stream'') r;
          r = with_header ''content-length''
                (header_or header_ok (dec (unat (ob_size_bytes body))) ''0'') r;
          r = (case content_disposition header_ok m of
                 None \<Rightarrow> r
               | Some disposition \<Rightarrow> with_header ''content-disposition'' disposition r);
          r = with_header ''x-content-type-options'' (lit ''nosniff'') r
      in with_header ''cache-control'' (lit ''private, no-store'') r)"

definition download_original ::
    "externs \<Rightarrow> (ustr \<Rightarrow> bool) \<Rightarrow> fs_store \<Rightarrow> session \<Rightarrow> uuid \<times> uuid
      \<Rightarrow> (world, api_error, response) stateful" where
  "download_original x header_ok st s ids =
     (case ids of (pid, mid) \<Rightarrow>
       st_then (in_tx s (repo (materials_get_in_partner pid mid))) (\<lambda>stored.
       st_then (st_lift (ok_or material_not_found stored)) (\<lambda>stored.
       st_then (st_lift (map_err (\<lambda>e. api_error_new (ae_internal (lit ''internal server error'')))
         (object_key_parse x (sm_storage_key stored)))) (\<lambda>key.
       st_then (st_map_err api_of_storage (on_fs (open_object st key))) (\<lambda>body.
       st_ok (download_response header_ok (sm_material stored) body))))))"

definition retry_material ::
    "externs \<Rightarrow> session \<Rightarrow> uuid \<times> uuid \<Rightarrow> (world, api_error, response) stateful" where
  "retry_material x s ids =
     (case ids of (pid, mid) \<Rightarrow>
       st_then (in_tx s (
         st_then (repo (materials_get_in_partner pid mid)) (\<lambda>stored.
         st_then (st_lift (ok_or material_not_found stored)) (\<lambda>stored.
         if \<not> can_retry (mat_status (sm_material stored)) then
           st_err (api_error_new (retry_refusal (mat_status (sm_material stored))))
         else
           st_then (repo (materials_requeue pid mid)) (\<lambda>material.
           st_then (st_lift (ok_or material_not_found material)) (\<lambda>material.
           st_then (repo (requeue_extraction x pid mid)) (\<lambda>job.
           st_ok material))))))) (\<lambda>material.
       st_ok (json_response 200 (MaterialBody material))))"

section \<open>Jobs\<close>

definition list_jobs :: "session \<Rightarrow> uuid \<Rightarrow> (world, api_error, response) stateful" where
  "list_jobs s pid =
     st_then (in_tx s (
       st_then (repo (partners_exists pid)) (\<lambda>known.
       if \<not> known then st_err partner_not_found
       else repo (jobs_list_for_partner pid)))) (\<lambda>items.
     st_ok (json_response 200 (JobsBody items)))"

end
