(* ===== verification/Router.thy ===== *)
theory Router
  imports Routes SessionRoutes DbAdmin
begin

text \<open>
  \<^verbatim>\<open>crates/otdel-api/src/routes/mod.rs\<close> and \<^verbatim>\<open>health.rs\<close>: the two probes, the route table and
  the whole of a request, from its method and path to the response.

  A path is the list of its segments. As in axum, a parameter matches a segment that is not
  empty, \<^verbatim>\<open>get\<close> also answers \<^verbatim>\<open>HEAD\<close>, and a known path with another method is refused by the
  fallback. The CORS and trace layers are tower's; they answer or pass a request on unchanged.
\<close>

section \<open>Probes\<close>

definition health :: "(world, api_error, response) stateful" where
  "health = st_ok (json_response 200 (HealthBody (lit ''ok'')))"

definition unavailable_as :: "string \<Rightarrow> (world, 'e, 'a) stateful \<Rightarrow> (world, api_error, 'a) stateful" where
  "unavailable_as msg m = st_map_err (\<lambda>e. api_error_new (ae_unavailable (lit msg))) m"

definition pgvector_report :: "pgvector \<Rightarrow> (world, api_error, ustr) stateful" where
  "pgvector_report server w =
     (case on_db (pgvector_status server) w of
        (Ok status, w) \<Rightarrow> (Ok (pgvector_as_str status), w)
      | (Err e, w) \<Rightarrow> (Ok (lit ''unknown''), w)
      | (Panic, w) \<Rightarrow> (Panic, w))"

definition ready ::
    "externs \<Rightarrow> config \<Rightarrow> fs_store \<Rightarrow> uuid \<Rightarrow> pgvector \<Rightarrow> (world, api_error, response) stateful" where
  "ready x c st fresh server =
     st_then (unavailable_as ''the database is not available'' (on_db db_health)) (\<lambda>_.
     st_then (unavailable_as ''file storage is not available'' (on_fs (store_health x st fresh))) (\<lambda>_.
     st_then (st_map_err api_of_db (on_db (bureau_id_by_slug (bureau_slug c)))) (\<lambda>bureau.
     if bureau = None then
       st_err (api_error_new (ae_unavailable
         (lit ''the configured bureau is not provisioned; run migrations and bootstrap'')))
     else
       st_then (pgvector_report server) (\<lambda>pgvector.
       st_ok (json_response 200
         (ReadyBody (lit ''ready'') (lit ''ok'') (lit ''ok'') (lit ''provisioned'') pgvector))))))"

section \<open>The route table\<close>

datatype endpoint =
    Login | ShowSession | Logout | ListPartners | CreatePartner | ShowPartner | UpdatePartner
  | ListMaterials | UploadMaterial | DownloadOriginal | RetryMaterial | ListJobs
  | Health | Ready | NoSuchEndpoint | NotAllowedHere

definition api_resource :: "ustr list \<Rightarrow> (http_method \<times> endpoint) list option" where
  "api_resource segments =
     (case segments of
        [a] \<Rightarrow>
          if a = lit ''session'' then Some [(POST, Login), (GET, ShowSession), (DELETE, Logout)]
          else if a = lit ''partners'' then Some [(GET, ListPartners), (POST, CreatePartner)]
          else None
      | [a, pid] \<Rightarrow>
          if a = lit ''partners'' \<and> pid \<noteq> [] then Some [(GET, ShowPartner), (PATCH, UpdatePartner)]
          else None
      | [a, pid, b] \<Rightarrow>
          if a = lit ''partners'' \<and> pid \<noteq> [] \<and> b = lit ''materials'' then
            Some [(GET, ListMaterials), (POST, UploadMaterial)]
          else if a = lit ''partners'' \<and> pid \<noteq> [] \<and> b = lit ''jobs'' then Some [(GET, ListJobs)]
          else None
      | [a, pid, b, mid, op] \<Rightarrow>
          if a = lit ''partners'' \<and> pid \<noteq> [] \<and> b = lit ''materials'' \<and> mid \<noteq> [] then
            (if op = lit ''original'' then Some [(GET, DownloadOriginal)]
             else if op = lit ''retry'' then Some [(POST, RetryMaterial)]
             else None)
          else None
      | _ \<Rightarrow> None)"

definition resource :: "ustr list \<Rightarrow> (http_method \<times> endpoint) list option" where
  "resource segments =
     (if segments = [lit ''health''] then Some [(GET, Health)]
      else if segments = [lit ''ready''] then Some [(GET, Ready)]
      else
        (case segments of
           a # rest \<Rightarrow> if a = lit ''api'' then api_resource rest else None
         | [] \<Rightarrow> None))"

definition route :: "http_method \<Rightarrow> ustr list \<Rightarrow> endpoint" where
  "route m segments =
     (case resource segments of
        None \<Rightarrow> NoSuchEndpoint
      | Some handlers \<Rightarrow>
          (case map_of handlers (if m = HEAD then GET else m) of
             None \<Rightarrow> NotAllowedHere
           | Some e \<Rightarrow> e))"

text \<open>\<^verbatim>\<open>DefaultBodyLimit\<close>: the file limit and some room, on a 64-bit \<^verbatim>\<open>usize\<close>.\<close>

definition MULTIPART_OVERHEAD_BYTES :: nat where
  "MULTIPART_OVERHEAD_BYTES = 1024 * 1024"

definition upload_limit :: "config \<Rightarrow> nat" where
  "upload_limit c = min (unat (max_upload_bytes c) + MULTIPART_OVERHEAD_BYTES) (2 ^ 64 - 1)"

definition not_found :: api_error where
  "not_found = api_error_new (ae_not_found (lit ''no such endpoint''))"

definition method_not_allowed :: api_error where
  "method_not_allowed = api_error_new (app_error_new MethodNotAllowed
     (lit ''this method is not allowed for this endpoint''))"

section \<open>Requests\<close>

text \<open>What the handlers draw from a request beside its headers, and from the outside world.\<close>

record call_input =
  in_login :: "(json_rejection, ustr) outcome"
  in_create :: "(json_rejection, create_partner_request) outcome"
  in_patch :: "(json_rejection, patch_partner_request) outcome"
  in_partner :: "(path_rejection, uuid) outcome"
  in_material :: "(path_rejection, uuid \<times> uuid) outcome"
  in_multipart :: "(nat, multipart) outcome"
  in_instant :: instant
  in_random :: "nat \<Rightarrow> nat \<Rightarrow> bytes"
  in_joined :: "(unit, unit) outcome"
  in_fresh :: uuid
  in_pgvector :: pgvector

fun handle ::
    "externs \<Rightarrow> (ustr \<Rightarrow> bool) \<Rightarrow> config \<Rightarrow> fs_store \<Rightarrow> request \<Rightarrow> call_input \<Rightarrow> endpoint
      \<Rightarrow> (world, api_error, response) stateful" where
  "handle x h c st rq i Login =
     st_then (api_json (in_login i)) (login x h c rq (in_instant i) (in_random i) (in_joined i))"
| "handle x h c st rq i ShowSession = require_session x c rq show_session"
| "handle x h c st rq i Logout = require_session x c rq (logout x h c rq)"
| "handle x h c st rq i ListPartners = require_session x c rq list_partners"
| "handle x h c st rq i CreatePartner =
     require_session x c rq (\<lambda>s. st_then (api_json (in_create i)) (create_partner s))"
| "handle x h c st rq i ShowPartner =
     require_session x c rq (\<lambda>s. st_then (api_path (in_partner i)) (show_partner s))"
| "handle x h c st rq i UpdatePartner =
     require_session x c rq (\<lambda>s. st_then (api_path (in_partner i)) (\<lambda>pid.
       st_then (api_json (in_patch i)) (update_partner s pid)))"
| "handle x h c st rq i ListMaterials =
     require_session x c rq (\<lambda>s. st_then (api_path (in_partner i)) (list_materials s))"
| "handle x h c st rq i UploadMaterial =
     require_session x c rq (\<lambda>s. st_then (api_path (in_partner i)) (\<lambda>pid.
       st_then (api_multipart (in_multipart i)) (upload_material x c st (in_fresh i) s pid)))"
| "handle x h c st rq i DownloadOriginal =
     require_session x c rq (\<lambda>s. st_then (api_path (in_material i)) (download_original x h st s))"
| "handle x h c st rq i RetryMaterial =
     require_session x c rq (\<lambda>s. st_then (api_path (in_material i)) (retry_material x s))"
| "handle x h c st rq i ListJobs =
     require_session x c rq (\<lambda>s. st_then (api_path (in_partner i)) (list_jobs s))"
| "handle x h c st rq i Health = health"
| "handle x h c st rq i Ready = ready x c st (in_fresh i) (in_pgvector i)"
| "handle x h c st rq i NoSuchEndpoint = st_err not_found"
| "handle x h c st rq i NotAllowedHere = st_err method_not_allowed"

text \<open>The response, or none when the client went away.\<close>

definition answer ::
    "externs \<Rightarrow> (ustr \<Rightarrow> bool) \<Rightarrow> config \<Rightarrow> fs_store \<Rightarrow> request \<Rightarrow> ustr list \<Rightarrow> call_input
      \<Rightarrow> world \<Rightarrow> response option \<times> world" where
  "answer x h c st rq segments i w =
     (case handle x h c st rq i (route (rq_method rq) segments) w of
        (Ok r, w) \<Rightarrow> (Some r, w)
      | (Err e, w) \<Rightarrow> (Some (api_error_response h e), w)
      | (Panic, w) \<Rightarrow> (None, w))"

section \<open>Only unsafe methods reach the endpoints that write\<close>

definition writes :: "endpoint \<Rightarrow> bool" where
  "writes e \<longleftrightarrow> e \<in> {Logout, CreatePartner, UpdatePartner, UploadMaterial, RetryMaterial}"

lemma api_resource_shape:
  "api_resource segments = Some hs \<Longrightarrow>
     hs \<in> {[(POST, Login), (GET, ShowSession), (DELETE, Logout)],
       [(GET, ListPartners), (POST, CreatePartner)], [(GET, ShowPartner), (PATCH, UpdatePartner)],
       [(GET, ListMaterials), (POST, UploadMaterial)], [(GET, ListJobs)],
       [(GET, DownloadOriginal)], [(POST, RetryMaterial)]}"
  by (auto simp: api_resource_def split: list.splits if_splits)

lemma route_cases:
  "route m segments = NoSuchEndpoint \<or> route m segments = NotAllowedHere
   \<or> (\<exists>hs. resource segments = Some hs \<and> (if m = HEAD then GET else m, route m segments) \<in> set hs)"
  by (auto simp: route_def split: option.splits dest: map_of_SomeD)

lemma route_writes: "writes (route m segments) \<Longrightarrow> changes_state m"
proof -
  assume w: "writes (route m segments)"
  with route_cases [of m segments] obtain hs where hs: "resource segments = Some hs"
      "(if m = HEAD then GET else m, route m segments) \<in> set hs"
    by (auto simp: writes_def)
  from hs(1) have "hs = [(GET, Health)] \<or> hs = [(GET, Ready)] \<or> (\<exists>rest. api_resource rest = Some hs)"
    by (auto simp: resource_def split: if_splits list.splits)
  with hs(2) w show "changes_state m"
    by (auto simp: writes_def changes_state_def dest!: api_resource_shape split: if_splits)
qed

end
