(* ===== verification/Worker.thy ===== *)
theory Worker
  imports StoreKeeps Upload DbAdmin
begin

text \<open>
  \<^verbatim>\<open>crates/otdel-worker/src/lib.rs\<close>: the maintenance pass. Durations are nanoseconds. The keys
  that \<^verbatim>\<open>report_orphans\<close> writes to the log are part of its result here.
\<close>

record maintenance_settings =
  ms_interval :: nat
  ms_staging_max_age :: nat
  ms_orphan_scan_limit :: nat

definition default_settings :: maintenance_settings where
  "default_settings = \<lparr>ms_interval = 300 * 10 ^ 9, ms_staging_max_age = 3600 * 10 ^ 9,
     ms_orphan_scan_limit = 5000\<rparr>"

record maintenance_report =
  sessions_purged :: int
  leases_reclaimed :: nat
  staging_files_removed :: u64
  objects_scanned :: nat
  orphan_objects :: nat
  scan_truncated :: bool

datatype maintenance_error =
    MaintenanceDb db_error
  | MaintenanceStorage storage_error
  | BureauMissing ustr

fun orphan_keys ::
    "externs \<Rightarrow> uuid \<Rightarrow> object_key list \<Rightarrow> (scoped_tx, maintenance_error, object_key list) stateful"
  where
  "orphan_keys x bureau [] = st_ok []"
| "orphan_keys x bureau (key # keys) =
     st_then (st_lift (map_err MaintenanceStorage (key_namespace x key))) (\<lambda>namespace.
     if ns_bureau_id namespace \<noteq> bureau then orphan_keys x bureau keys
     else
       st_then (st_map_err MaintenanceDb
         (materials_find_by_digest (ns_partner_id namespace) (key_digest key))) (\<lambda>referenced.
       st_then (orphan_keys x bureau keys) (\<lambda>orphans.
       st_ok (if referenced = None then key # orphans else orphans))))"

definition report_orphans ::
    "externs \<Rightarrow> fs_store \<Rightarrow> nat \<Rightarrow> uuid
      \<Rightarrow> (world, maintenance_error, object_key list \<times> nat \<times> bool) stateful" where
  "report_orphans x st limit bureau =
     st_then (st_map_err MaintenanceStorage (on_fs (list_objects x st limit))) (\<lambda>listing.
     st_then (on_db (in_scoped_tx MaintenanceDb bureau (orphan_keys x bureau (listing_keys listing))))
       (\<lambda>orphans.
     st_ok (orphans, length (listing_keys listing), listing_truncated listing)))"

definition worker_idle_timeout :: "config \<Rightarrow> int" where
  "worker_idle_timeout c =
     (case i32_try_from (session_idle_timeout c) of Some n \<Rightarrow> n | None \<Rightarrow> 7200)"

definition run_once ::
    "externs \<Rightarrow> config \<Rightarrow> fs_store \<Rightarrow> maintenance_settings
      \<Rightarrow> (world, maintenance_error, maintenance_report) stateful" where
  "run_once x c st settings =
     st_then (st_map_err MaintenanceDb (on_db (sessions_purge_expired (worker_idle_timeout c)))) (\<lambda>purged.
     st_then (st_map_err MaintenanceDb (on_db (bureau_id_by_slug (bureau_slug c)))) (\<lambda>found.
     st_then (st_lift (ok_or (BureauMissing (bureau_slug c)) found)) (\<lambda>bureau.
     st_then (on_db (in_scoped_tx MaintenanceDb bureau
       (st_map_err MaintenanceDb reclaim_expired_leases))) (\<lambda>reclaimed.
     st_then (st_map_err MaintenanceStorage (on_fs (sweep_staging st (ms_staging_max_age settings))))
       (\<lambda>sweep.
     st_then (report_orphans x st (ms_orphan_scan_limit settings) bureau)
       (\<lambda>(orphans, scanned, truncated).
     st_ok \<lparr>sessions_purged = purged, leases_reclaimed = reclaimed,
            staging_files_removed = removed_files sweep, objects_scanned = scanned,
            orphan_objects = length orphans, scan_truncated = truncated\<rparr>))))))"

text \<open>
  \<^verbatim>\<open>run_until\<close> up to the shutdown: one pass per tick, a failed pass is only logged. \<open>between\<close> is
  what the rest of the program did before each tick; a pass is never cancelled.
\<close>

fun run_until ::
    "externs \<Rightarrow> config \<Rightarrow> fs_store \<Rightarrow> maintenance_settings \<Rightarrow> (world \<Rightarrow> world) list
      \<Rightarrow> world \<Rightarrow> (maintenance_error, maintenance_report) outcome list \<times> world" where
  "run_until x c st settings [] w = ([], w)"
| "run_until x c st settings (between # ticks) w =
     (case run_once x c st settings (between w) of (result, w) \<Rightarrow>
      case run_until x c st settings ticks w of (results, w) \<Rightarrow> (result # results, w))"

end
