(* ===== verification/RouteKeeps.thy ===== *)
theory RouteKeeps
  imports SessionTables Router Worker UploadFacts
begin

text \<open>
  Every handler and the maintenance pass keep what the statements keep. \<open>handler_invariant\<close> joins
  the two contracts of the database for one bureau; its lemmas lift them through the handlers, on
  every exit, and are used at the constraints of the schema, at the rows of other bureaus and at
  the originals that are in the store.
\<close>

section \<open>Worlds\<close>

definition data_inv :: "(tables \<Rightarrow> bool) \<Rightarrow> world \<Rightarrow> bool" where
  "data_inv I w \<longleftrightarrow> I (db_tables (w_db w))"

lemma data_on_db: "st_keeps (\<lambda>d. I (db_tables (d :: db))) m \<Longrightarrow> st_keeps (data_inv I) (on_db m)"
  by (fastforce simp: st_keeps_def data_inv_def on_db_def split: prod.splits)

lemma data_on_fs: "st_keeps (data_inv I) (on_fs m)"
  by (auto simp: st_keeps_def data_inv_def on_fs_def split: prod.splits)

lemma data_throttle: "st_keeps (data_inv I) (throttle_reserve c key now)" "st_keeps (data_inv I) (throttle_success key)"
  by (auto simp: st_keeps_def data_inv_def throttle_reserve_def throttle_success_def
      split: prod.splits outcome.splits)

lemma data_extractors:
  "st_keeps (data_inv I) (api_json j)" "st_keeps (data_inv I) (api_path p)" "st_keeps (data_inv I) (api_multipart m)"
  by (simp_all add: api_json_def api_path_def api_multipart_def st_keeps_lift)

lemma data_receive_fields: "st_keeps (data_inv I) (receive_fields x c st fresh ns received n body)"
proof -
  have read: "st_keeps (data_inv I) (read_file_field x c st fresh ns f)" for f
    unfolding read_file_field_def Let_def case_prod_unfold by (intro keeps_rules data_on_fs)
  have report: "st_keeps (data_inv I) (\<lambda>w. (Err e, report_orphaned_object so w))" for e so
    by (auto simp: st_keeps_def data_inv_def report_orphaned_object_def)
  show ?thesis
  proof (induction body arbitrary: n received)
    case (Cons o' body)
    show ?case
    proof (cases o')
      case (Ok f)
      show ?thesis unfolding Ok receive_fields.simps
        by (intro keeps_rules st_keeps_option Cons.IH read report)
    qed (auto intro: keeps_rules)
  qed (auto intro: keeps_rules)
qed

lemma data_receive_file: "st_keeps (data_inv I) (receive_file x c st fresh ns body)"
  unfolding receive_file_def by (rule data_receive_fields)

section \<open>Handlers that do not write tenant data\<close>

locale reader_invariant = tx_property b I + session_invariant I
  for b :: uuid and I :: "tables \<Rightarrow> bool"
begin

abbreviation world_inv :: "world \<Rightarrow> bool" where
  "world_inv \<equiv> data_inv I"

lemma keeps_session_extract: "st_keeps world_inv (on_db (session_extract x c rq))"
  unfolding session_extract_def Let_def
  by (intro data_on_db keeps_rules keeps_statements)

lemma keeps_in_tx:
  "session_bureau_id s = b \<Longrightarrow> st_keeps scoped body \<Longrightarrow> st_keeps world_inv (in_tx s body)"
  unfolding in_tx_def by (simp add: data_on_db keeps_in_scoped_tx)

lemmas keeps_readers = keeps_rules data_extractors keeps_in_tx keeps_reads st_keeps_option

lemma keeps_list_partners: "session_bureau_id s = b \<Longrightarrow> st_keeps world_inv (list_partners s)"
  unfolding list_partners_def by (intro keeps_readers)

lemma keeps_show_partner: "session_bureau_id s = b \<Longrightarrow> st_keeps world_inv (show_partner s pid)"
  unfolding show_partner_def by (intro keeps_readers)

lemma keeps_list_materials: "session_bureau_id s = b \<Longrightarrow> st_keeps world_inv (list_materials s pid)"
  unfolding list_materials_def by (intro keeps_readers)

lemma keeps_list_jobs: "session_bureau_id s = b \<Longrightarrow> st_keeps world_inv (list_jobs s pid)"
  unfolding list_jobs_def by (intro keeps_readers)

lemma keeps_download: "session_bureau_id s = b \<Longrightarrow> st_keeps world_inv (download_original x h st s ids)"
  unfolding download_original_def case_prod_unfold by (intro keeps_readers data_on_fs)

lemma keeps_logout: "st_keeps world_inv (logout x h c rq s)"
  unfolding logout_def Let_def by (intro keeps_rules data_on_db keeps_statements)

lemma keeps_show_session: "st_keeps world_inv (show_session s)"
  unfolding show_session_def by (intro keeps_rules)

lemma keeps_login: "st_keeps world_inv (login x h c rq now os_random joined password)"
  unfolding login_def verify_blocking_def open_session_def Let_def
  by (intro keeps_rules data_throttle data_on_db keeps_statements)

lemma keeps_ready: "st_keeps world_inv (ready x c st fresh server)"
proof -
  have "st_keeps world_inv (on_db (pgvector_status server))" by (intro data_on_db keeps_statements)
  then have "st_keeps world_inv (pgvector_report server)"
    by (fastforce simp: st_keeps_def pgvector_report_def split: prod.splits outcome.splits)
  then show ?thesis
    unfolding ready_def unavailable_as_def
    by (intro keeps_rules data_on_db data_on_fs keeps_statements)
qed

lemma keeps_health: "st_keeps world_inv health"
  unfolding health_def by (intro keeps_rules)

lemmas keeps_open_handlers = keeps_login keeps_ready keeps_health keeps_session_extract

lemmas keeps_session_readers =
  keeps_list_partners keeps_show_partner keeps_list_materials keeps_list_jobs keeps_download
  keeps_logout keeps_show_session

end

section \<open>All handlers\<close>

locale handler_invariant = reader_invariant b I + tx_invariant b I recordable
  for b :: uuid and I :: "tables \<Rightarrow> bool" and recordable :: "material_row \<Rightarrow> bool"
begin

lemmas keeps_handlers = keeps_rules data_extractors keeps_in_tx keeps_repository st_keeps_option

lemma keeps_create_partner: "session_bureau_id s = b \<Longrightarrow> st_keeps world_inv (create_partner s p)"
  unfolding create_partner_def by (intro keeps_handlers)

lemma keeps_update_partner: "session_bureau_id s = b \<Longrightarrow> st_keeps world_inv (update_partner s pid p)"
  unfolding update_partner_def by (intro keeps_handlers)

lemma keeps_retry: "session_bureau_id s = b \<Longrightarrow> st_keeps world_inv (retry_material x s ids)"
  unfolding retry_material_def case_prod_unfold by (intro keeps_handlers)

lemmas keeps_session_writers = keeps_create_partner keeps_update_partner keeps_retry

lemma keeps_publish_material:
  assumes "\<And>d u. recordable (new_material_row d u b n)"
  shows "st_keeps (\<lambda>d. I (db_tables (d :: db))) (publish_material x b n)"
  unfolding publish_material_def
  by (intro keeps_in_scoped_tx keeps_rules keeps_repository assms)

lemma keeps_record_material:
  assumes "\<And>d u. recordable (new_material_row d u b n)"
  shows "st_keeps world_inv (record_material x b received n)"
proof (rule st_keepsI)
  fix w assume w: "world_inv w"
  obtain r w1 where p: "on_db (publish_material x b n) w = (r, w1)" by fastforce
  have "world_inv w1" by (rule st_keepsD [OF data_on_db [OF keeps_publish_material [OF assms]] w p])
  with p show "world_inv (snd (record_material x b received n w))"
    by (cases r) (simp_all add: record_material_def data_inv_def report_orphaned_object_def)
qed

lemma keeps_upload:
  assumes "\<And>m. recordable m" "session_bureau_id s = b"
  shows "st_keeps world_inv (upload_material x c st fresh s pid body)"
  unfolding upload_material_def Let_def assms(2)
  by (intro keeps_handlers data_receive_file keeps_record_material assms)

lemma keeps_session_handlers:
  assumes "\<And>m. recordable m" "session_bureau_id s = b"
  shows "st_keeps world_inv (show_session s)" "st_keeps world_inv (logout x h c rq s)"
    "st_keeps world_inv (list_partners s)" "st_keeps world_inv (create_partner s cp)"
    "st_keeps world_inv (show_partner s pid)" "st_keeps world_inv (update_partner s pid pp)"
    "st_keeps world_inv (list_materials s pid)"
    "st_keeps world_inv (upload_material x c st fresh s pid body)"
    "st_keeps world_inv (download_original x h st s ids)" "st_keeps world_inv (retry_material x s ids)"
    "st_keeps world_inv (list_jobs s pid)"
  using assms by (auto intro: keeps_show_session keeps_logout keeps_list_partners keeps_create_partner
      keeps_show_partner keeps_update_partner keeps_list_materials keeps_upload keeps_download keeps_retry
      keeps_list_jobs)

end

section \<open>Requests\<close>

lemma keeps_require_session:
  "st_keeps J (on_db (session_extract x c rq)) \<Longrightarrow> (\<And>s. st_keeps J (handler s))
    \<Longrightarrow> st_keeps J (require_session x c rq handler)"
  unfolding require_session_def by (intro keeps_rules)

lemma handle_keeps:
  assumes inv: "\<And>b. handler_invariant b I (\<lambda>m. True)"
  shows "st_keeps (data_inv I) (handle x h c st rq i e)"
proof -
  note readers = handler_invariant.axioms(1) [OF inv]
  have ext: "st_keeps (data_inv I) (on_db (session_extract x c rq))"
    by (rule reader_invariant.keeps_session_extract [OF readers])
  note h = handler_invariant.keeps_session_handlers [OF inv _ refl]
  show ?thesis
    by (cases e)
       (simp_all only: handle.simps not_found_def method_not_allowed_def,
        auto intro!: keeps_require_session ext h keeps_rules data_extractors
          reader_invariant.keeps_open_handlers [OF readers])
qed

lemma answer_world: "answer x h c st rq segments i w = (resp, w') \<Longrightarrow>
    \<exists>r. handle x h c st rq i (route (rq_method rq) segments) w = (r, w')"
  by (auto simp: answer_def split: prod.splits outcome.splits)

interpretation all_constraints: handler_invariant b tables_ok "\<lambda>m. True" for b
  by unfold_locales

interpretation all_originals: handler_invariant b "originals_kept t0" "\<lambda>m. True" for b t0
  by unfold_locales (simp_all add: originals_kept_def)

interpretation readers: reader_invariant b "\<lambda>t. tenant_data t = v" for b v
  by unfold_locales

lemma answer_keeps_constraints:
  "answer x h c st rq segments i w = (resp, w') \<Longrightarrow> tables_ok (db_tables (w_db w))
    \<Longrightarrow> tables_ok (db_tables (w_db w'))"
  using st_keepsD [OF handle_keeps [OF all_constraints.handler_invariant_axioms]] answer_world
  by (fastforce simp: data_inv_def)

end
