(* ===== verification/RequestEffects.thy ===== *)
theory RequestEffects
  imports RouteKeeps
begin

text \<open>
  What a whole request can do to the data of the tenants: nothing without a session, nothing with a
  method a browser sends across origins, nothing to another bureau, and nothing that the
  constraints of the schema do not allow.
\<close>

definition others_data :: "uuid \<Rightarrow> tables \<Rightarrow> tables \<Rightarrow> bool" where
  "others_data b t t' \<longleftrightarrow> others_kept b t (t'\<lparr>sessions := sessions t\<rparr>)"

lemma others_data_refl [simp]: "others_data b t t"
  by (simp add: others_data_def)

interpretation tenant: handler_invariant b "others_data b t0" "\<lambda>m. True" for b t0
  by unfold_locales
     (simp_all add: others_data_def others_kept_def partner_fits_def material_fits_def job_fits_def
       filter_update_rows job_update_keys)

text \<open>The handler of an endpoint behind the session gate, where it is one that writes tenant data.\<close>

fun writer ::
    "externs \<Rightarrow> config \<Rightarrow> fs_store \<Rightarrow> call_input \<Rightarrow> endpoint
      \<Rightarrow> (session \<Rightarrow> (world, api_error, response) stateful) option" where
  "writer x c st i CreatePartner = Some (\<lambda>s. st_then (api_json (in_create i)) (create_partner s))"
| "writer x c st i UpdatePartner = Some (\<lambda>s. st_then (api_path (in_partner i)) (\<lambda>pid.
       st_then (api_json (in_patch i)) (update_partner s pid)))"
| "writer x c st i UploadMaterial = Some (\<lambda>s. st_then (api_path (in_partner i)) (\<lambda>pid.
       st_then (api_multipart (in_multipart i)) (upload_material x c st (in_fresh i) s pid)))"
| "writer x c st i RetryMaterial = Some (\<lambda>s. st_then (api_path (in_material i)) (retry_material x s))"
| "writer x c st i _ = None"

lemma handle_writer:
  "writer x c st i e = Some serve \<Longrightarrow> handle x h c st rq i e = require_session x c rq serve"
  by (cases e) auto

lemma writer_writes: "writer x c st i e = Some serve \<Longrightarrow> writes e"
  by (cases e) (auto simp: writes_def)

lemma writer_others:
  assumes "writer x c st i e = Some serve"
  shows "st_keeps (data_inv (others_data (session_bureau_id s) t0)) (serve s)"
  using assms by (cases e) (auto intro!: keeps_rules data_extractors tenant.keeps_session_handlers)

lemma handle_reader:
  assumes "writer x c st i e = None"
  shows "st_keeps (data_inv (\<lambda>t. tenant_data t = v)) (handle x h c st rq i e)"
proof -
  have ext: "st_keeps (data_inv (\<lambda>t. tenant_data t = v)) (on_db (session_extract x c rq))"
    by (rule readers.keeps_session_extract)
  show ?thesis
    using assms
    by (cases e)
       (simp_all only: handle.simps not_found_def method_not_allowed_def writer.simps option.distinct,
        auto intro!: keeps_require_session ext readers.keeps_session_readers keeps_rules data_extractors
          readers.keeps_open_handlers)
qed

lemma session_only_data: "\<exists>rows. t' = t\<lparr>sessions := rows\<rparr> \<Longrightarrow> tenant_data t' = tenant_data t"
  by (auto simp: tenant_data_def)

lemma others_data_sessions:
  "others_data b (t\<lparr>sessions := rows\<rparr>) t' = others_data b t t'"
  by (simp add: others_data_def others_kept_def)

lemma originals_kept_sessions: "originals_kept (t\<lparr>sessions := rows\<rparr>) t' = originals_kept t t'"
  by (simp add: originals_kept_def)

lemma request_effect_cases:
  assumes "ct_eq_documented x" "answer x h c st rq segments i w = (resp, w')"
  shows "tenant_data (db_tables (w_db w')) = tenant_data (db_tables (w_db w))
    \<or> (\<exists>s. authenticated x c rq (w_db w) s \<and> changes_state (rq_method rq)
        \<and> others_data (session_bureau_id s) (db_tables (w_db w)) (db_tables (w_db w')))"
proof -
  let ?e = "route (rq_method rq) segments"
  from answer_world [OF assms(2)] obtain r where r: "handle x h c st rq i ?e w = (r, w')" by blast
  show ?thesis
  proof (cases "writer x c st i ?e")
    case None
    have "data_inv (\<lambda>t. tenant_data t = tenant_data (db_tables (w_db w))) w'"
      by (rule st_keepsD [OF handle_reader [OF None] _ r]) (simp add: data_inv_def)
    then show ?thesis by (simp add: data_inv_def)
  next
    case (Some serve)
    obtain rs d1 where e: "session_extract x c rq (w_db w) = (rs, d1)" by fastforce
    from session_extract_tables [OF e] obtain rows where
      t1: "db_tables d1 = (db_tables (w_db w))\<lparr>sessions := rows\<rparr>" by blast
    have run: "handle x h c st rq i ?e w = st_then (on_db (session_extract x c rq)) serve w"
      using handle_writer [OF Some] by (simp add: require_session_def)
    show ?thesis
    proof (cases rs)
      case (Ok s)
      let ?w1 = "w\<lparr>w_db := d1\<rparr>"
      from run r e Ok have "serve s ?w1 = (r, w')" by (simp add: on_db_def)
      moreover have "data_inv (others_data (session_bureau_id s) (db_tables d1)) ?w1"
        by (simp add: data_inv_def)
      ultimately have "data_inv (others_data (session_bureau_id s) (db_tables d1)) w'"
        by (blast intro: st_keepsD [OF writer_others [OF Some]])
      then have "others_data (session_bureau_id s) (db_tables (w_db w)) (db_tables (w_db w'))"
        by (simp add: data_inv_def t1 others_data_sessions)
      moreover have "authenticated x c rq (w_db w) s"
        using session_extract_Ok [OF assms(1)] e Ok by blast
      moreover have "changes_state (rq_method rq)" using route_writes writer_writes [OF Some] by blast
      ultimately show ?thesis by blast
    qed (use run r e t1 session_only_data in \<open>auto simp: on_db_def\<close>)
  qed
qed

text \<open>
  C2: Tenant data changes only for its owner, on purpose. If a request changes any partner, material
  or job (or a bureau), its method is one that changes state, its cookie carries the token of a
  live session, it repeats that session's CSRF token and names no foreign origin; and every row
  of every bureau but that session's is as it was, in its place.
\<close>

theorem request_effects:
  assumes "ct_eq_documented x" "answer x h c st rq segments i w = (resp, w')"
  shows "tenant_data (db_tables (w_db w')) = tenant_data (db_tables (w_db w))
    \<or> (\<exists>s. authenticated x c rq (w_db w) s \<and> changes_state (rq_method rq)
        \<and> others_data (session_bureau_id s) (db_tables (w_db w)) (db_tables (w_db w')))"
  using assms by (rule request_effect_cases)

text \<open>
  No request breaks the schema. Tables that satisfy every CHECK, UNIQUE and FOREIGN KEY constraint
  satisfy them after any request, however it ends, and the originals recorded before it are
  recorded after it, unchanged and in their place.
\<close>

theorem request_keeps_schema:
  assumes "answer x h c st rq segments i w = (resp, w')" "tables_ok (db_tables (w_db w))"
  shows "tables_ok (db_tables (w_db w')) \<and> originals_kept (db_tables (w_db w)) (db_tables (w_db w'))"
proof -
  from answer_world [OF assms(1)] obtain r where
    "handle x h c st rq i (route (rq_method rq) segments) w = (r, w')" by blast
  then have "data_inv (originals_kept (db_tables (w_db w))) w'"
    by (rule st_keepsD [OF handle_keeps [OF all_originals.handler_invariant_axioms], rotated])
       (simp add: data_inv_def originals_kept_def)
  with answer_keeps_constraints [OF assms] show ?thesis by (simp add: data_inv_def)
qed

section \<open>A concrete request\<close>

definition sample_input :: call_input where
  "sample_input = \<lparr>in_login = Err OtherJsonRejection,
     in_create = Ok \<lparr>cp_name = lit ''BASIS'', cp_note = None\<rparr>, in_patch = Err OtherJsonRejection,
     in_partner = Ok 2, in_material = Ok (2, 3), in_multipart = Ok [Ok sample_field],
     in_instant = 0, in_random = (\<lambda>i n. replicate n (of_nat i)), in_joined = Ok (), in_fresh = 7,
     in_pgvector = \<lparr>pg_installed = False, pg_available = True\<rparr>\<rparr>"

definition sample_create :: "response option \<times> world" where
  "sample_create = answer sample_externs (\<lambda>v. True) sample_config sample_store (sample_request POST)
     [lit ''api'', lit ''partners''] sample_input sample_world"

lemma sample_create_result:
  "map_option rs_status (fst sample_create) = Some 201
   \<and> map pr_name (partners (db_tables (w_db (snd sample_create)))) = [lit ''BASIS'']"
  by code_simp

lemma sample_create_answer:
  "answer sample_externs (\<lambda>v. True) sample_config sample_store (sample_request POST)
     [lit ''api'', lit ''partners''] sample_input sample_world = (fst sample_create, snd sample_create)"
  by (simp add: sample_create_def)

lemma sample_auth_tables_ok: "tables_ok (db_tables sample_auth_db)"
proof -
  have "bureau_table_ok (bureaus (db_tables sample_auth_db))" by code_simp
  moreover have "session_table_ok (br_id ` set (bureaus (db_tables sample_auth_db))) (sessions (db_tables sample_auth_db))"
    using sample_sessions_ok by (simp add: sample_auth_db_def db_sessions_def)
  ultimately show ?thesis
    by (simp add: tables_ok_def) (simp add: sample_auth_db_def partner_table_ok_def material_table_ok_def job_table_ok_def)
qed

theorem request_effects_witness:
  "\<exists>s. authenticated sample_externs sample_config (sample_request POST) sample_auth_db s
    \<and> others_data (session_bureau_id s) (db_tables sample_auth_db) (db_tables (w_db (snd sample_create)))
    \<and> map pr_name (partners (db_tables (w_db (snd sample_create)))) = [lit ''BASIS'']"
proof -
  have "partners (db_tables (w_db (snd sample_create))) \<noteq> partners (db_tables (w_db sample_world))"
    using sample_create_result by (auto simp: sample_auth_db_def)
  then have "tenant_data (db_tables (w_db (snd sample_create))) \<noteq> tenant_data (db_tables (w_db sample_world))"
    by (simp add: tenant_data_def)
  with request_effects [OF sample_ct_eq_documented sample_create_answer] sample_create_result
  show ?thesis by auto
qed

theorem request_keeps_schema_witness:
  "tables_ok (db_tables (w_db (snd sample_create)))
   \<and> map pr_name (partners (db_tables (w_db (snd sample_create)))) = [lit ''BASIS'']"
proof -
  have "tables_ok (db_tables (w_db sample_world))" by (simp add: sample_auth_tables_ok)
  from request_keeps_schema [OF sample_create_answer this] sample_create_result show ?thesis by blast
qed

end
