(* ===== verification/StoredOriginals.thy ===== *)
theory StoredOriginals
  imports RequestEffects
begin

text \<open>
  What is recorded is stored: the relation between the rows of the materials and the files of the
  object store, and that every handler and the maintenance pass keep it, on every exit. The
  uploads are the ones that extend the set \<open>A\<close> of places that hold an object.
\<close>

section \<open>Rows and their objects\<close>

definition row_namespace :: "material_row \<Rightarrow> object_namespace" where
  "row_namespace m = \<lparr>ns_bureau_id = mr_bureau_id m, ns_partner_id = mr_partner_id m\<rparr>"

definition row_path :: "externs \<Rightarrow> fs_store \<Rightarrow> material_row \<Rightarrow> path" where
  "row_path x st m = object_path x st (row_namespace m) (mr_sha256 m)"

text \<open>A row that names its object by its digest, and whose object is at one of the places \<open>A\<close>.\<close>

definition keyed_in :: "externs \<Rightarrow> fs_store \<Rightarrow> path set \<Rightarrow> material_row \<Rightarrow> bool" where
  "keyed_in x st A m \<longleftrightarrow>
     mr_storage_key m = key_text x (row_namespace m) (mr_sha256 m) \<and> row_path x st m \<in> A"

definition rows_in :: "externs \<Rightarrow> fs_store \<Rightarrow> path set \<Rightarrow> tables \<Rightarrow> bool" where
  "rows_in x st A t \<longleftrightarrow> list_all (keyed_in x st A) (materials t)"

lemma keyed_in_requeued [simp]: "keyed_in x st A (requeued_material now m) = keyed_in x st A m"
  by (simp add: keyed_in_def row_path_def row_namespace_def requeued_material_def)

interpretation rows: handler_invariant b "rows_in x st A" "keyed_in x st A" for b x st A
  by unfold_locales
     (auto simp: rows_in_def intro: update_rows_all)

lemma rows_mono: "A \<subseteq> B \<Longrightarrow> rows_in x st A t \<Longrightarrow> rows_in x st B t"
  by (auto simp: list_all_iff rows_in_def keyed_in_def)

section \<open>The store through the handlers\<close>

definition store_world :: "externs \<Rightarrow> fs_store \<Rightarrow> path set \<Rightarrow> world \<Rightarrow> bool" where
  "store_world x st A w \<longleftrightarrow> store_inv x st A (w_fs w)"

lemma store_on_db: "st_keeps (store_world x st A) (on_db m)"
  by (auto simp: st_keeps_def store_world_def on_db_def split: prod.splits)

lemma store_on_fs: "st_keeps (store_inv x st A) m \<Longrightarrow> st_keeps (store_world x st A) (on_fs m)"
  by (fastforce simp: st_keeps_def store_world_def on_fs_def split: prod.splits)

lemma store_in_tx: "st_keeps (store_world x st A) (in_tx s body)"
  unfolding in_tx_def by (rule store_on_db)

lemma store_throttle:
  "st_keeps (store_world x st A) (throttle_reserve c key now)" "st_keeps (store_world x st A) (throttle_success key)"
  by (auto simp: st_keeps_def store_world_def throttle_reserve_def throttle_success_def
      split: prod.splits outcome.splits)

lemma store_extractors:
  "st_keeps (store_world x st A) (api_json j)" "st_keeps (store_world x st A) (api_path p)"
  "st_keeps (store_world x st A) (api_multipart m)"
  by (simp_all add: api_json_def api_path_def api_multipart_def st_keeps_lift)

lemma store_record: "st_keeps (store_world x st A) (record_material y b received n)"
  by (auto simp: st_keeps_def store_world_def record_material_def on_db_def report_orphaned_object_def
      split: prod.splits outcome.splits)

section \<open>Both sides together\<close>

definition recorded_in :: "externs \<Rightarrow> fs_store \<Rightarrow> path set \<Rightarrow> world \<Rightarrow> bool" where
  "recorded_in x st A w \<longleftrightarrow> store_world x st A w \<and> data_inv (rows_in x st A) w \<and> data_inv tables_ok w"

text \<open>The places of \<open>A0\<close> hold objects, and so do those of all recorded rows.\<close>

definition recorded_stored :: "externs \<Rightarrow> fs_store \<Rightarrow> path set \<Rightarrow> world \<Rightarrow> bool" where
  "recorded_stored x st A0 w \<longleftrightarrow> (\<exists>A. A0 \<subseteq> A \<and> recorded_in x st A w)"

lemma recorded_storedI: "A0 \<subseteq> A \<Longrightarrow> recorded_in x st A w \<Longrightarrow> recorded_stored x st A0 w"
  by (auto simp: recorded_stored_def)

lemma keeps_recorded:
  assumes "\<And>A. st_keeps (store_world x st A) m" "\<And>A. st_keeps (data_inv (rows_in x st A)) m"
    "st_keeps (data_inv tables_ok) m"
  shows "st_keeps (recorded_stored x st A0) m"
  using assms unfolding st_keeps_def recorded_stored_def recorded_in_def by blast

section \<open>Every request but an upload\<close>

lemmas store_rules = keeps_rules st_keeps_option store_on_db store_in_tx store_throttle store_extractors

lemma store_open_handlers:
  "st_keeps (store_world x st A) (login x' h c rq now os_random joined password)"
  "st_keeps (store_world x st A) health"
  unfolding login_def verify_blocking_def open_session_def health_def Let_def by (intro store_rules)+

lemma store_pgvector: "st_keeps (store_world x st A) (pgvector_report server)"
proof (rule st_keepsI)
  fix w assume w: "store_world x st A w"
  obtain r w1 where p: "on_db (pgvector_status server) w = (r, w1)" by fastforce
  have "store_world x st A w1" by (rule st_keepsD [OF store_on_db w p])
  with p show "store_world x st A (snd (pgvector_report server w))"
    by (cases r) (simp_all add: pgvector_report_def)
qed

lemma store_ready:
  assumes "store_layout st"
  shows "st_keeps (store_world x st A) (ready x c st fresh server)"
proof -
  have "st_keeps (store_inv x st A) (store_health x st fresh)"
    by (rule st_keepsI) (rule store_inv_health [OF assms])
  then show ?thesis
    unfolding ready_def unavailable_as_def by (intro store_rules store_pgvector store_on_fs)
qed

lemma store_session_handlers:
  "st_keeps (store_world x st A) (show_session s)" "st_keeps (store_world x st A) (logout x' h c rq s)"
  "st_keeps (store_world x st A) (list_partners s)" "st_keeps (store_world x st A) (create_partner s cp)"
  "st_keeps (store_world x st A) (show_partner s pid)" "st_keeps (store_world x st A) (update_partner s pid pp)"
  "st_keeps (store_world x st A) (list_materials s pid)" "st_keeps (store_world x st A) (list_jobs s pid)"
  "st_keeps (store_world x st A) (download_original x' h st s ids)"
  "st_keeps (store_world x st A) (retry_material x' s ids)"
  unfolding show_session_def logout_def list_partners_def create_partner_def show_partner_def
    update_partner_def list_materials_def list_jobs_def download_original_def retry_material_def
    Let_def case_prod_unfold
  by (intro store_rules store_on_fs store_inv_open)+

lemma handle_store:
  assumes "store_layout st" "e \<noteq> UploadMaterial"
  shows "st_keeps (store_world x st A) (handle x h c st rq i e)"
proof (cases "e = UploadMaterial")
  case False
  then show ?thesis
    by (cases e)
       (simp_all only: handle.simps not_found_def method_not_allowed_def,
        auto intro!: keeps_require_session store_rules store_open_handlers store_session_handlers
          store_ready [OF assms(1)])
qed (use assms in simp)

lemma rows_ext: "st_keeps (data_inv (rows_in x st A)) (on_db (session_extract x c rq))"
  by (rule rows.keeps_session_extract)

lemma handle_rows:
  assumes "e \<noteq> UploadMaterial"
  shows "st_keeps (data_inv (rows_in x st A)) (handle x h c st rq i e)"
proof (cases "e = UploadMaterial")
  case False
  then show ?thesis
    by (cases e)
       (simp_all only: handle.simps not_found_def method_not_allowed_def,
        auto intro!: keeps_require_session rows_ext rows.keeps_session_readers rows.keeps_session_writers
          keeps_rules data_extractors rows.keeps_open_handlers)
qed (use assms in simp)

lemma handle_tables: "st_keeps (data_inv tables_ok) (handle x h c st rq i e)"
  by (rule handle_keeps [OF all_constraints.handler_invariant_axioms])

section \<open>Uploads\<close>

definition upload_namespace :: "session \<Rightarrow> uuid \<Rightarrow> object_namespace" where
  "upload_namespace s pid = \<lparr>ns_bureau_id = session_bureau_id s, ns_partner_id = pid\<rparr>"

text \<open>What the intake of a file of this partner hands to the recording step.\<close>

definition received_in :: "externs \<Rightarrow> fs_store \<Rightarrow> path set \<Rightarrow> object_namespace \<Rightarrow> received_file \<Rightarrow> bool" where
  "received_in x st A ns r \<longleftrightarrow>
     so_key (rf_stored r) = ObjectKey (key_text x ns (so_sha256 (rf_stored r)))
     \<and> object_path x st ns (so_sha256 (rf_stored r)) \<in> A"

lemma new_material_keyed:
  assumes "new_material_of pid r = Ok n" "received_in x st A \<lparr>ns_bureau_id = b, ns_partner_id = pid\<rparr> r"
  shows "keyed_in x st A (new_material_row d u b n)"
  using assms
  by (auto simp: new_material_of_def outcome_simps received_in_def keyed_in_def row_path_def
      row_namespace_def new_material_row_def Let_def split: option.splits)

lemma data_report: "data_inv I (report_orphaned_object so w) = data_inv I w"
  "store_world x st A (report_orphaned_object so w) = store_world x st A w"
  by (simp_all add: data_inv_def store_world_def report_orphaned_object_def)

text \<open>The intake adds at most one place, and on success it is that of the file.\<close>

definition takes_in ::
    "externs \<Rightarrow> fs_store \<Rightarrow> object_namespace \<Rightarrow> (world, api_error, received_file) stateful \<Rightarrow> bool" where
  "takes_in x st ns m \<longleftrightarrow>
     (\<forall>A w r w'. store_world x st A w \<longrightarrow> m w = (r, w') \<longrightarrow>
        (\<exists>B. A \<subseteq> B \<and> store_world x st B w' \<and> (\<forall>f. r = Ok f \<longrightarrow> received_in x st B ns f)))"

lemma takes_inD:
  "takes_in x st ns m \<Longrightarrow> store_world x st A w \<Longrightarrow> m w = (r, w') \<Longrightarrow>
     \<exists>B. A \<subseteq> B \<and> store_world x st B w' \<and> (\<forall>f. r = Ok f \<longrightarrow> received_in x st B ns f)"
  unfolding takes_in_def by (drule spec, drule spec, drule spec, drule spec, drule (1) mp, erule (1) mp)

lemma store_put_stream:
  assumes "uuid_documented x" "sha256_documented x" "store_layout st"
  shows "st_keeps (store_inv x st A) (put_stream x st fresh ns body)"
  by (rule st_keepsI) (rule store_inv_put [OF assms])

lemma store_read_file_field:
  assumes "uuid_documented x" "sha256_documented x" "store_layout st"
  shows "st_keeps (store_world x st A) (read_file_field x c st fresh ns f)"
  unfolding read_file_field_def Let_def case_prod_unfold
  by (intro store_rules store_on_fs store_put_stream assms)

lemma takes_in_file:
  assumes "uuid_documented x" "sha256_documented x" "store_layout st"
  shows "takes_in x st ns (read_file_field x c st fresh ns f)"
  unfolding takes_in_def
proof (intro allI impI)
  fix A w r w'
  assume w: "store_world x st A w" and run: "read_file_field x c st fresh ns f w = (r, w')"
  have kept: "store_world x st A w'" by (rule st_keepsD [OF store_read_file_field [OF assms] w run])
  show "\<exists>B. A \<subseteq> B \<and> store_world x st B w' \<and> (\<forall>f. r = Ok f \<longrightarrow> received_in x st B ns f)"
  proof (cases r)
    case (Ok rf)
    from run Ok obtain body stored where
      p: "put_stream x st fresh ns body (w_fs w) = (Ok stored, w_fs w')" and
      r: "rf_stored rf = stored"
      by (fastforce simp: read_file_field_def outcome_simps Let_def split: prod.splits)
    from store_inv_put_Ok [OF assms _ p] w have
      "store_inv x st (insert (object_path x st ns (so_sha256 stored)) A) (w_fs w')"
      "so_key stored = ObjectKey (key_text x ns (so_sha256 stored))"
      by (auto simp: store_world_def)
    with r Ok show ?thesis
      by (intro exI [of _ "insert (object_path x st ns (so_sha256 stored)) A"])
         (auto simp: store_world_def received_in_def)
  qed (use kept in auto)
qed

text \<open>Once there is a file, the rest of the request does not touch the store.\<close>

lemma receive_fields_rest:
  "w_fs (snd (receive_fields x c st fresh ns (Some r0) n body w)) = w_fs w"
proof (induction body arbitrary: n)
  case (Cons o' body)
  then show ?case
    by (cases o') (auto simp: st_then_def st_lift_def st_err_def report_orphaned_object_def split: outcome.splits)
qed (simp add: st_lift_def)

lemma takes_in_fields:
  assumes "uuid_documented x" "sha256_documented x" "store_layout st"
  shows "takes_in x st ns (receive_fields x c st fresh ns None n body)"
proof (induction body arbitrary: n)
  case Nil
  show ?case by (auto simp: takes_in_def st_lift_def)
next
  case (Cons o' body)
  show ?case
  proof (cases o')
    case (Ok f)
    show ?thesis
    proof (cases "is_file_part f")
      case True
      show ?thesis unfolding takes_in_def
      proof (intro allI impI)
        fix A w r w'
        assume w: "store_world x st A w" and
          run: "receive_fields x c st fresh ns None n (o' # body) w = (r, w')"
        obtain r1 w1 where read: "read_file_field x c st fresh ns f w = (r1, w1)" by fastforce
        from takes_inD [OF takes_in_file [OF assms] w read] obtain B where
          B: "A \<subseteq> B" "store_world x st B w1" "\<forall>f. r1 = Ok f \<longrightarrow> received_in x st B ns f" by blast
        show "\<exists>B. A \<subseteq> B \<and> store_world x st B w' \<and> (\<forall>f. r = Ok f \<longrightarrow> received_in x st B ns f)"
        proof (cases r1)
          case r1: (Ok rf)
          have rest: "receive_fields x c st fresh ns (Some rf) n body w1 = (r, w')"
            using run True r1 read by (simp add: Ok outcome_simps is_file_part_def)
          have "store_world x st B w'"
            using B(2) receive_fields_rest [of x c st fresh ns rf n body w1] rest
            by (simp add: store_world_def)
          moreover have "r = Ok f \<Longrightarrow> f = rf" for f
            using receive_fields_after [of x c st fresh ns rf n body w1 f w'] rest by simp
          ultimately show ?thesis using B(1,3) r1 by (intro exI [of _ B]) auto
        qed (use run True read B in \<open>auto simp: Ok st_then_def is_file_part_def\<close>)
      qed
    next
      case False
      show ?thesis unfolding takes_in_def
      proof (intro allI impI)
        fix A w r w'
        assume w: "store_world x st A w" and
          run: "receive_fields x c st fresh ns None n (o' # body) w = (r, w')"
        show "\<exists>B. A \<subseteq> B \<and> store_world x st B w' \<and> (\<forall>f. r = Ok f \<longrightarrow> received_in x st B ns f)"
        proof (cases "drain_other n (field_chunks f)")
          case d: (Ok n')
          with run False have "receive_fields x c st fresh ns None n' body w = (r, w')"
            by (simp add: Ok outcome_simps is_file_part_def)
          from takes_inD [OF Cons.IH w this] show ?thesis .
        qed (use run w False in \<open>auto simp: Ok st_then_def st_lift_def is_file_part_def\<close>)
      qed
    qed
  qed (auto simp: takes_in_def st_err_def st_lift_def)
qed

lemma takes_in_receive_file:
  "uuid_documented x \<Longrightarrow> sha256_documented x \<Longrightarrow> store_layout st
    \<Longrightarrow> takes_in x st ns (receive_file x c st fresh ns body)"
  unfolding receive_file_def by (rule takes_in_fields)

text \<open>Intake and recording, on both sides.\<close>

lemma receive_recorded:
  assumes docs: "uuid_documented x" "sha256_documented x" "store_layout st"
    and w: "recorded_in x st A w" and run: "receive_file x c st fresh ns body w = (r, w')"
  shows "\<exists>B. A \<subseteq> B \<and> recorded_in x st B w' \<and> (\<forall>f. r = Ok f \<longrightarrow> received_in x st B ns f)"
proof -
  from w have "store_world x st A w" by (simp add: recorded_in_def)
  from takes_inD [OF takes_in_receive_file [OF docs] this run] obtain B where
    B: "A \<subseteq> B" "store_world x st B w'" "\<forall>f. r = Ok f \<longrightarrow> received_in x st B ns f" by blast
  from w have "data_inv (rows_in x st A) w" "data_inv tables_ok w" by (auto simp: recorded_in_def)
  from this [THEN st_keepsD [OF data_receive_file _ run]] have
    "data_inv (rows_in x st A) w'" "data_inv tables_ok w'" .
  then have "recorded_in x st B w'"
    using B(2) rows_mono [OF B(1)] by (simp add: recorded_in_def data_inv_def)
  with B show ?thesis by (intro exI [of _ B]) simp
qed

lemma record_recorded:
  assumes w: "recorded_in x st A w" and n: "new_material_of pid r = Ok n"
    and r: "received_in x st A \<lparr>ns_bureau_id = b, ns_partner_id = pid\<rparr> r"
  shows "recorded_in x st A (snd (record_material y b r n w))"
proof -
  have "data_inv (rows_in x st A) (snd (record_material y b r n w))"
    using w by (intro st_keeps_snd [OF rows.keeps_record_material] new_material_keyed [OF n r])
      (simp add: recorded_in_def)
  moreover have "data_inv tables_ok (snd (record_material y b r n w))"
    using w by (intro st_keeps_snd [OF all_constraints.keeps_record_material])
      (simp_all add: recorded_in_def)
  moreover have "store_world x st A (snd (record_material y b r n w))"
    using w by (intro st_keeps_snd [OF store_record]) (simp add: recorded_in_def)
  ultimately show ?thesis by (simp add: recorded_in_def)
qed

lemma keeps_partner_known: "st_keeps (recorded_stored x st A0) (in_tx s (repo (partners_exists pid)))"
  by (intro keeps_recorded store_in_tx rows.keeps_in_tx [OF refl] all_constraints.keeps_in_tx [OF refl]
      keeps_rules rows.keeps_partners_exists constraints.keeps_partners_exists)

lemma upload_recorded:
  assumes docs: "uuid_documented x" "sha256_documented x" "store_layout st"
  shows "st_keeps (recorded_stored x st A0) (upload_material x c st fresh s pid body)"
proof -
  let ?b = "session_bureau_id s"
  let ?ns = "\<lparr>ns_bureau_id = ?b, ns_partner_id = pid\<rparr>"
  let ?recording = "\<lambda>received. st_then (st_lift (map_err api_error_new (new_material_of pid received))) (\<lambda>n.
       st_then (record_material x ?b received n) (\<lambda>outcome. st_ok (outcome_response outcome)))"
  let ?rest = "st_then (receive_file x c st fresh ?ns body) ?recording"
  have "st_keeps (recorded_stored x st A0) ?rest"
  proof (rule st_keepsI)
    fix w assume "recorded_stored x st A0 w"
    then obtain A where A: "A0 \<subseteq> A" "recorded_in x st A w" by (auto simp: recorded_stored_def)
    obtain r w1 where run: "receive_file x c st fresh ?ns body w = (r, w1)" by fastforce
    from receive_recorded [OF docs A(2) run] obtain B where
      B: "A \<subseteq> B" "recorded_in x st B w1" "\<forall>f. r = Ok f \<longrightarrow> received_in x st B ?ns f" by blast
    have "recorded_in x st B (snd (?recording f w1))"
      if f: "r = Ok f" for f
    proof (cases "new_material_of pid f")
      case (Ok n)
      have "recorded_in x st B (snd (record_material x ?b f n w1))"
        using B f by (intro record_recorded [OF B(2) Ok]) simp
      then show ?thesis
        by (auto simp: Ok st_then_def st_lift_def st_ok_def split: prod.splits outcome.splits)
    qed (use B in \<open>simp_all add: st_then_def st_lift_def\<close>)
    with B(2) have "recorded_in x st B (snd (?rest w))"
      by (cases r) (simp_all add: st_then_def [of "receive_file x c st fresh ?ns body"] run)
    with A(1) B(1) show "recorded_stored x st A0 (snd (?rest w))"
      by (auto intro: recorded_storedI)
  qed
  note rest = this
  show ?thesis
    unfolding upload_material_def Let_def
    by (rule st_keeps_then [OF keeps_partner_known]) (rule st_keeps_if [OF st_keeps_err rest])
qed

section \<open>Every request and every pass\<close>

lemma handle_recorded:
  assumes docs: "uuid_documented x" "sha256_documented x" "store_layout st"
  shows "st_keeps (recorded_stored x st A0) (handle x h c st rq i e)"
proof (cases "e = UploadMaterial")
  case True
  have "st_keeps (recorded_stored x st A0) (on_db (session_extract x c rq))"
    by (intro keeps_recorded store_on_db rows_ext all_constraints.keeps_session_extract)
  moreover have "st_keeps (recorded_stored x st A0) (api_path p)"
    "st_keeps (recorded_stored x st A0) (api_multipart m)" for p m
    by (intro keeps_recorded store_extractors data_extractors)+
  ultimately show ?thesis
    unfolding True handle.simps by (intro keeps_require_session keeps_rules upload_recorded docs)
next
  case False
  then show ?thesis by (intro keeps_recorded handle_store handle_rows handle_tables docs)
qed

lemma store_run_once:
  assumes "store_layout st"
  shows "st_keeps (store_world x st A) (run_once x c st ms)"
proof -
  have "st_keeps (store_inv x st A) (sweep_staging st age)" for age
    by (rule st_keepsI) (rule store_inv_sweep [OF assms])
  then show ?thesis
    unfolding run_once_def report_orphans_def case_prod_unfold
    by (intro store_rules store_on_fs store_inv_list)
qed

lemma keeps_orphan_keys: "st_keeps (tx_property.scoped b I) (orphan_keys x b' keys)"
proof (induction keys)
  case (Cons k keys)
  show ?case unfolding orphan_keys.simps
    by (intro keeps_rules Cons.IH tx_property.keeps_find_by_digest)
qed (simp add: st_keeps_ok)

lemma run_once_data:
  assumes inv: "\<And>b. handler_invariant b I R"
  shows "st_keeps (data_inv I) (run_once x c st ms)"
proof -
  note session = reader_invariant.axioms(1) [OF handler_invariant.axioms(1) [OF inv]]
  note tx = handler_invariant.axioms(2) [OF inv]
  have reclaim: "st_keeps (data_inv I) (on_db (in_scoped_tx MaintenanceDb b (st_map_err MaintenanceDb reclaim_expired_leases)))" for b
    by (intro data_on_db tx_property.keeps_in_scoped_tx keeps_rules tx_invariant.keeps_reclaim [OF tx])
  have orphans: "st_keeps (data_inv I) (on_db (in_scoped_tx MaintenanceDb b (orphan_keys x b keys)))" for b keys
    by (intro data_on_db tx_property.keeps_in_scoped_tx keeps_orphan_keys)
  show ?thesis
    unfolding run_once_def report_orphans_def case_prod_unfold
    by (intro keeps_rules reclaim orphans data_on_fs data_on_db session_invariant.keeps_sessions_purge [OF session]
          session_invariant.keeps_bureau_id [OF session])
qed

lemma run_once_recorded:
  "store_layout st \<Longrightarrow> st_keeps (recorded_stored x st A0) (run_once x c st ms)"
  by (intro keeps_recorded store_run_once run_once_data [OF rows.handler_invariant_axioms]
      run_once_data [OF all_constraints.handler_invariant_axioms])

end
