(* ===== verification/DbFacts.thy ===== *)
theory DbFacts
  imports DbInvariants
begin

text \<open>
  What the repository functions return and do, and how a transaction ends. A statement that
  succeeds ran on the tables the transaction saw; one that fails fails with an SQL error, so
  that the \<^verbatim>\<open>Decode\<close> errors of the repositories are theirs alone - and never happen on tables
  that satisfy the constraints.
\<close>

section \<open>Statements\<close>

text \<open>The same transaction, some faults of the database later.\<close>

definition tx_same :: "scoped_tx \<Rightarrow> scoped_tx \<Rightarrow> bool" where
  "tx_same t t1 \<longleftrightarrow> tx_bureau_id t1 = tx_bureau_id t \<and> tx_context t1 = tx_context t
     \<and> tx_tables t1 = tx_tables t \<and> db_now (tx_db t1) = db_now (tx_db t)
     \<and> db_gen (tx_db t1) = db_gen (tx_db t)"

lemma tx_same_refl [simp]: "tx_same t t"
  by (simp add: tx_same_def)

lemma tx_same_trans: "tx_same a b \<Longrightarrow> tx_same b c \<Longrightarrow> tx_same a c"
  by (simp add: tx_same_def)

lemma tx_same_fault: "next_db_fault (tx_db t) = (f, d) \<Longrightarrow> tx_same t (t\<lparr>tx_db := d\<rparr>)"
  by (auto simp: next_db_fault_def tx_same_def tx_tables_def split: list.splits)

lemma tx_same_gen: "gen_random_uuid (tx_db t) = (u, d) \<Longrightarrow> tx_same t (t\<lparr>tx_db := d\<rparr>)"
  by (auto simp: gen_random_uuid_def tx_same_def tx_tables_def)

lemma tx_same_own: "tx_same t t1 \<Longrightarrow> own_row t1 c \<longleftrightarrow> own_row t c"
  by (simp add: tx_same_def own_row_def rls_visible_def)

lemma tx_same_visible:
  assumes "tx_same t t1"
  shows "visible_partners t1 = visible_partners t" "visible_materials t1 pid = visible_materials t pid"
    "visible_jobs t1 = visible_jobs t"
  using assms tx_same_own [OF assms]
  by (simp_all add: visible_partners_def visible_materials_def visible_jobs_def tx_same_def)

lemma statement_Ok:
  assumes "statement q t = (Ok a, t')"
  obtains t1 where "tx_same t t1" "q t1 = (Ok a, t')"
  using assms
  by (auto simp: statement_def outcome_simps split: prod.splits db_fault.splits dest!: tx_same_fault)

lemma statement_Err:
  assumes "statement q t = (Err e, t')"
  obtains e' where "e = DbSqlx e'"
  using assms by (auto simp: statement_def outcome_simps split: prod.splits db_fault.splits)

lemma statement_Panic:
  assumes "statement q t = (Panic, t')"
  obtains t1 where "q t1 = (Panic, t')"
  using assms by (auto simp: statement_def outcome_simps split: prod.splits db_fault.splits)

lemma read_Ok:
  assumes "statement (\<lambda>t. (Ok (g t), t)) t = (Ok a, t')"
  obtains "tx_same t t'" "a = g t'"
  using assms by (auto elim!: statement_Ok)

lemma read_no_panic: "statement (\<lambda>t. (Ok (g t), t)) t \<noteq> (Panic, t')"
  by (auto elim: statement_Panic)

section \<open>Rows read back\<close>

definition material_of :: "material_row \<Rightarrow> material" where
  "material_of m =
     \<lparr>mat_id = mr_id m, mat_partner_id = mr_partner_id m, mat_filename = mr_filename m,
      mat_media_type = mr_media_type m, mat_size_bytes = mr_size_bytes m, mat_sha256 = mr_sha256 m,
      mat_status = the (material_status_parse (mr_status m)), mat_page_count = mr_page_count m,
      mat_created_at = mr_created_at m, mat_error = mr_error m\<rparr>"

definition job_of :: "job_row \<Rightarrow> job" where
  "job_of j =
     \<lparr>job_id = jr_id j, job_partner_id = jr_partner_id j, job_material_id = jr_material_id j,
      job_kind_of = the (job_kind_parse (jr_kind j)),
      job_status_of = the (job_status_parse (jr_status j)), job_stage = jr_stage j,
      job_attempts = jr_attempts j, job_created_at = jr_created_at j,
      job_updated_at = jr_updated_at j, job_error = jr_error j\<rparr>"

lemma known_material_status:
  "s \<in> set material_statuses \<Longrightarrow> \<exists>st. material_status_parse s = Some st"
  by (auto simp: material_statuses_def material_status_parse_def)

lemma known_job_status: "s \<in> set job_statuses \<Longrightarrow> \<exists>st. job_status_parse s = Some st"
  by (auto simp: job_statuses_def job_status_parse_def)

lemma material_from_row_checked: "material_check m \<Longrightarrow> material_from_row m = Ok (material_of m)"
  using known_material_status [of "mr_status m"]
  by (auto simp: material_from_row_def material_of_def material_check_def)

lemma job_from_row_checked: "job_check j \<Longrightarrow> job_from_row j = Ok (job_of j)"
  using known_job_status [of "jr_status j"]
  by (auto simp: job_from_row_def job_of_def job_check_def job_kind_parse_def)

lemma material_from_row_Ok: "material_from_row m = Ok r \<Longrightarrow> r = material_of m"
  by (auto simp: material_from_row_def material_of_def outcome_simps)

lemma job_from_row_Ok: "job_from_row j = Ok r \<Longrightarrow> r = job_of j"
  by (auto simp: job_from_row_def job_of_def outcome_simps)

lemma from_row_no_panic [simp]: "material_from_row m \<noteq> Panic" "job_from_row j \<noteq> Panic"
  by (auto simp: material_from_row_def job_from_row_def outcome_simps)

lemma collect_ok_all: "(\<forall>r\<in>set rs. f r = Ok (g r)) \<Longrightarrow> collect_ok (map f rs) = Ok (map g rs)"
  by (induction rs) auto

lemma tables_material_checked: "tables_ok tb \<Longrightarrow> m \<in> set (materials tb) \<Longrightarrow> material_check m"
  by (auto simp: tables_ok_def material_table_ok_def list_all_iff)

lemma tables_job_checked: "tables_ok tb \<Longrightarrow> j \<in> set (jobs tb) \<Longrightarrow> job_check j"
  by (auto simp: tables_ok_def job_table_ok_def list_all_iff)

lemma set_newest_first [simp]: "set (newest_first c i rows) = set rows"
  by (simp add: newest_first_def)

lemma length_newest_first [simp]: "length (newest_first c i rows) = length rows"
  by (simp add: newest_first_def)

lemma newest_first_sorted:
  "sorted (rev (map (\<lambda>r. (c r, unat (i r))) (newest_first c i rows)))"
  by (simp add: newest_first_def rev_map)

section \<open>Finding a material\<close>

definition own_material :: "scoped_tx \<Rightarrow> uuid \<Rightarrow> material_row \<Rightarrow> bool" where
  "own_material t pid m \<longleftrightarrow> m \<in> set (materials (tx_tables t)) \<and> own_row t (mr_bureau_id m) \<and> mr_partner_id m = pid"

lemma set_visible_materials: "m \<in> set (visible_materials t pid) \<longleftrightarrow> own_material t pid m"
  by (auto simp: visible_materials_def own_material_def)

lemma own_material_same: "tx_same t t1 \<Longrightarrow> own_material t1 pid m \<longleftrightarrow> own_material t pid m"
  by (simp add: own_material_def tx_same_own) (simp add: tx_same_def)

lemma find_by_digest_Ok:
  assumes "materials_find_by_digest pid sha t = (Ok r, t')"
  obtains (none) "r = None" "tx_same t t'" "\<And>m. own_material t pid m \<Longrightarrow> mr_sha256 m \<noteq> sha"
  | (some) m where "r = Some (material_of m)" "tx_same t t'" "own_material t pid m" "mr_sha256 m = sha"
proof -
  from assms obtain row where st: "statement (\<lambda>t. (Ok (find (\<lambda>r. mr_sha256 r = sha)
      (visible_materials t pid)), t)) t = (Ok row, t')"
    and r: "transpose_ok (map_option material_from_row row) = Ok r"
    by (auto simp: materials_find_by_digest_def outcome_simps)
  from st have same: "tx_same t t'" and row: "row = find (\<lambda>r. mr_sha256 r = sha) (visible_materials t' pid)"
    by (auto elim: read_Ok)
  show ?thesis
  proof (cases row)
    case None
    have none_there: "mr_sha256 m \<noteq> sha" if "own_material t pid m" for m
      using find_NoneD [OF row [symmetric, unfolded None], of m] that
      by (simp add: set_visible_materials own_material_same [OF same])
    show ?thesis by (rule none [OF _ same none_there]) (use None r in simp_all)
  next
    case (Some m)
    have "own_material t pid m" "mr_sha256 m = sha"
      using find_SomeD [OF row [symmetric, unfolded Some]]
      by (simp_all add: set_visible_materials own_material_same [OF same])
    with Some r same show ?thesis by (auto simp: outcome_simps dest!: material_from_row_Ok intro: some)
  qed
qed

lemma find_by_digest_Err:
  assumes "materials_find_by_digest pid sha t = (Err e, t')" "tables_ok (tx_tables t)"
  obtains e' where "e = DbSqlx e'"
proof -
  from assms(1) consider "statement (\<lambda>t. (Ok (find (\<lambda>r. mr_sha256 r = sha) (visible_materials t pid)), t)) t
      = (Err e, t')"
    | row where "statement (\<lambda>t. (Ok (find (\<lambda>r. mr_sha256 r = sha) (visible_materials t pid)), t)) t
      = (Ok row, t')" "transpose_ok (map_option material_from_row row) = Err e"
    by (auto simp: materials_find_by_digest_def outcome_simps)
  then show ?thesis
  proof cases
    case 2
    from 2(1) have same: "tx_same t t'" and row: "row = find (\<lambda>r. mr_sha256 r = sha) (visible_materials t' pid)"
      by (auto elim: read_Ok)
    show ?thesis
    proof (cases row)
      case (Some m)
      have "own_material t pid m"
        using find_SomeD [OF row [symmetric, unfolded Some]]
        by (simp add: set_visible_materials own_material_same [OF same])
      then have "material_check m"
        using assms(2) by (auto simp: own_material_def intro: tables_material_checked)
      with Some 2(2) show ?thesis by (simp add: material_from_row_checked)
    qed (use 2(2) in simp)
  qed (auto elim: statement_Err intro: that)
qed


section \<open>Recording an upload\<close>

text \<open>
  What an insert does to the tables of a transaction in its own context: nothing, or one new
  row with the content that was not recorded yet.
\<close>

definition material_added :: "new_material \<Rightarrow> scoped_tx \<Rightarrow> material_row \<Rightarrow> scoped_tx \<Rightarrow> bool" where
  "material_added n t m t' \<longleftrightarrow>
     tx_tables t' = (tx_tables t)\<lparr>materials := materials (tx_tables t) @ [m]\<rparr>
     \<and> (\<exists>u d. m = new_material_row d u (tx_bureau_id t) n \<and> db_now d = db_now (tx_db t))
     \<and> material_fits (tx_bureau_id t) (tx_tables t) m"

lemma material_insert_cases:
  assumes "material_insert n t = (r, t')"
  obtains (added) m where "r = Ok (Some m)" "material_added n t m t'"
      "tx_bureau_id t' = tx_bureau_id t" "tx_context t' = tx_context t"
  | (known) "r = Ok None" "tx_same t t'"
      "(nm_partner_id n, nm_sha256 n) \<in> content_key ` set (materials (tx_tables t))"
  | (refused) e where "r = Err e" "tx_same t t'"
proof -
  obtain u d where g: "gen_random_uuid (tx_db t) = (u, d)" by fastforce
  let ?t = "t\<lparr>tx_db := d\<rparr>" and ?m = "new_material_row d u (tx_bureau_id t) n"
  have same: "tx_same t ?t" by (rule tx_same_gen [OF g])
  have now: "db_now d = db_now (tx_db t)" using g by (auto simp: gen_random_uuid_def)
  have fields: "mr_bureau_id ?m = tx_bureau_id t" "mr_id ?m = u"
      "content_key ?m = (nm_partner_id n, nm_sha256 n)"
    by (simp_all add: new_material_row_def content_key_def)
  have "(\<exists>e. material_insert n t = (Err e, ?t))
      \<or> (material_insert n t = (Ok None, ?t) \<and> content_key ?m \<in> content_key ` set (materials (tx_tables ?t)))
      \<or> (material_insert n t = (Ok (Some ?m), set_tables ((tx_tables ?t)\<lparr>materials :=
           materials (tx_tables ?t) @ [?m]\<rparr>) ?t) \<and> material_fits (tx_bureau_id t) (tx_tables ?t) ?m)"
    unfolding material_insert_def g Let_def prod.case using fields
    by (simp add: material_fits_def split: if_split)
  then consider e where "material_insert n t = (Err e, ?t)"
    | "material_insert n t = (Ok None, ?t)" "content_key ?m \<in> content_key ` set (materials (tx_tables ?t))"
    | "material_insert n t = (Ok (Some ?m), set_tables ((tx_tables ?t)\<lparr>materials :=
         materials (tx_tables ?t) @ [?m]\<rparr>) ?t)" "material_fits (tx_bureau_id t) (tx_tables ?t) ?m"
    by blast
  then show ?thesis
  proof cases
    case (1 e)
    with assms same show ?thesis by (intro refused [of e]) auto
  next
    case 2
    have tabs: "tx_tables ?t = tx_tables t" using same by (simp add: tx_same_def)
    from 2(2) have k: "(nm_partner_id n, nm_sha256 n) \<in> content_key ` set (materials (tx_tables t))"
      unfolding fields tabs .
    from 2(1) assms same k show ?thesis by (intro known) auto
  next
    case 3
    have tabs: "tx_tables ?t = tx_tables t" using same by (simp add: tx_same_def)
    from 3 assms have r: "r = Ok (Some ?m)" and t': "t' = set_tables ((tx_tables t)\<lparr>materials :=
         materials (tx_tables t) @ [?m]\<rparr>) ?t" and fits: "material_fits (tx_bureau_id t) (tx_tables t) ?m"
      unfolding tabs by auto
    have "material_added n t ?m t'"
      using fits now by (auto simp: material_added_def t' set_tables_def tx_tables_def)
    moreover have "tx_bureau_id t' = tx_bureau_id t" "tx_context t' = tx_context t"
      by (simp_all add: t' set_tables_def)
    ultimately show ?thesis using r by (intro added)
  qed
qed


lemma material_added_same: "material_added n t1 m t' \<Longrightarrow> tx_same t t1 \<Longrightarrow> material_added n t m t'"
  by (simp add: material_added_def tx_same_def)

lemma materials_insert_Ok:
  assumes "materials_insert n t = (Ok out, t')"
  obtains (created) m where "out = Created (material_of m)" "material_added n t m t'"
      "tx_bureau_id t' = tx_bureau_id t" "tx_context t' = tx_context t"
  | (duplicate) m where "out = Duplicate (material_of m)" "tx_same t t'"
      "own_material t (nm_partner_id n) m" "mr_sha256 m = nm_sha256 n"
proof -
  from assms obtain row t1 where 1: "statement (material_insert n) t = (Ok row, t1)"
    and 2: "(case row of
         Some r \<Rightarrow> st_then (st_lift (material_from_row r)) (\<lambda>m. st_ok (Created m))
       | None \<Rightarrow>
           st_then (materials_find_by_digest (nm_partner_id n) (nm_sha256 n)) (\<lambda>existing.
           st_then (st_lift (ok_or (DbDecode (lit ''insert reported a duplicate but the existing material is not visible''))
             existing)) (\<lambda>m. st_ok (Duplicate m)))) t1 = (Ok out, t')"
    unfolding materials_insert_def by (blast dest: st_then_Ok [THEN iffD1])
  from 1 obtain t0 where same: "tx_same t t0" and ins: "material_insert n t0 = (Ok row, t1)"
    by (rule statement_Ok)
  from ins show ?thesis
  proof (cases rule: material_insert_cases)
    case (added m)
    with 2 have "t' = t1" "out = Created (material_of m)"
      by (auto simp: outcome_simps dest!: material_from_row_Ok)
    with added same show ?thesis
      by (intro created [of m]) (auto intro: material_added_same simp: tx_same_def)
  next
    case known
    with 2 obtain ex where f: "materials_find_by_digest (nm_partner_id n) (nm_sha256 n) t1 = (Ok ex, t')"
      and ex: "\<exists>m. ex = Some m \<and> out = Duplicate m"
      by (auto simp: outcome_simps)
    have tt1: "tx_same t t1" using same known(2) by (rule tx_same_trans)
    from f show ?thesis
    proof (cases rule: find_by_digest_Ok)
      case (some m)
      with ex tt1 show ?thesis
        by (intro duplicate [of m]) (auto simp: own_material_same [OF tt1] intro: tx_same_trans)
    qed (use ex in simp)
  qed simp
qed

text \<open>A partner's identifier determines the bureau, so a conflicting row is always visible.\<close>

lemma known_content_visible:
  assumes "tables_ok (tx_tables t)" "tx_context t = Some (tx_bureau_id t)"
    and "(tx_bureau_id t, pid) \<in> partner_key ` set (partners (tx_tables t))"
    and "(pid, sha) \<in> content_key ` set (materials (tx_tables t))"
  shows "\<exists>m. own_material t pid m \<and> mr_sha256 m = sha"
proof -
  from assms(4) obtain m where m: "m \<in> set (materials (tx_tables t))" "mr_partner_id m = pid" "mr_sha256 m = sha"
    by (auto simp: content_key_def)
  with assms(1) obtain p where p: "p \<in> set (partners (tx_tables t))" "pr_bureau_id p = mr_bureau_id m" "pr_id p = pid"
    by (auto simp: tables_ok_def material_table_ok_def list_all_iff partner_key_def)
  from assms(3) obtain q where q: "q \<in> set (partners (tx_tables t))" "pr_bureau_id q = tx_bureau_id t" "pr_id q = pid"
    by (auto simp: partner_key_def)
  have "distinct (map pr_id (partners (tx_tables t)))"
    using assms(1) by (simp add: tables_ok_def partner_table_ok_def)
  then have "p = q" using p q by (auto simp: distinct_map dest: inj_onD)
  then have "own_row t (mr_bureau_id m)" using p q assms(2) by (simp add: own_row_def rls_visible_def)
  with m show ?thesis by (auto simp: own_material_def)
qed

lemma materials_insert_Err:
  assumes "materials_insert n t = (Err e, t')"
    and ok: "tables_ok (tx_tables t)" "tx_context t = Some (tx_bureau_id t)"
      "(tx_bureau_id t, nm_partner_id n) \<in> partner_key ` set (partners (tx_tables t))"
  obtains e' where "e = DbSqlx e'"
proof -
  let ?rest = "\<lambda>row. case row of
         Some r \<Rightarrow> st_then (st_lift (material_from_row r)) (\<lambda>m. st_ok (Created m))
       | None \<Rightarrow>
           st_then (materials_find_by_digest (nm_partner_id n) (nm_sha256 n)) (\<lambda>existing.
           st_then (st_lift (ok_or (DbDecode (lit ''insert reported a duplicate but the existing material is not visible''))
             existing)) (\<lambda>m. st_ok (Duplicate m)))"
  from assms(1) consider (insert) "statement (material_insert n) t = (Err e, t')"
    | (rest) row t1 where "statement (material_insert n) t = (Ok row, t1)" "?rest row t1 = (Err e, t')"
    unfolding materials_insert_def by (blast dest: st_then_Err [THEN iffD1])
  then show ?thesis
  proof cases
    case insert
    then show ?thesis by (auto elim: statement_Err intro: that)
  next
    case rest
    from rest(1) obtain t0 where same: "tx_same t t0" and ins: "material_insert n t0 = (Ok row, t1)"
      by (rule statement_Ok)
    from ins show ?thesis
    proof (cases rule: material_insert_cases)
      case (added m)
      then have "material_check m" by (simp add: material_added_def material_fits_def)
      with added rest(2) show ?thesis by (simp add: material_from_row_checked outcome_simps)
    next
      case known
      have tt1: "tx_same t t1" using same known(2) by (rule tx_same_trans)
      from known(3) have "(nm_partner_id n, nm_sha256 n) \<in> content_key ` set (materials (tx_tables t))"
        using same by (simp add: tx_same_def)
      with known_content_visible [OF ok] obtain m where
        m: "own_material t1 (nm_partner_id n) m" "mr_sha256 m = nm_sha256 n"
        by (auto simp: own_material_same [OF tt1])
      have ok1: "tables_ok (tx_tables t1)" using ok(1) tt1 by (simp add: tx_same_def)
      from rest(2) known(1) consider
        "materials_find_by_digest (nm_partner_id n) (nm_sha256 n) t1 = (Err e, t')"
        | t2 where "materials_find_by_digest (nm_partner_id n) (nm_sha256 n) t1 = (Ok None, t2)"
        by (auto simp: outcome_simps)
      then show ?thesis
      proof cases
        case 1
        then show ?thesis using ok1 by (auto elim: find_by_digest_Err intro: that)
      next
        case 2
        then show ?thesis
        proof (cases rule: find_by_digest_Ok)
          case none
          with m show ?thesis by blast
        qed simp
      qed
    qed simp
  qed
qed

section \<open>The queue\<close>

definition own_job :: "scoped_tx \<Rightarrow> job_row \<Rightarrow> bool" where
  "own_job t j \<longleftrightarrow> j \<in> set (jobs (tx_tables t)) \<and> own_row t (jr_bureau_id j)"

lemma set_visible_jobs: "j \<in> set (visible_jobs t) \<longleftrightarrow> own_job t j"
  by (auto simp: visible_jobs_def own_job_def)

lemma own_job_same: "tx_same t t1 \<Longrightarrow> own_job t1 j \<longleftrightarrow> own_job t j"
  by (simp add: own_job_def tx_same_own) (simp add: tx_same_def)

definition job_added_row :: "uuid \<Rightarrow> uuid \<Rightarrow> job_kind \<Rightarrow> ustr \<Rightarrow> scoped_tx \<Rightarrow> job_row \<Rightarrow> scoped_tx \<Rightarrow> bool" where
  "job_added_row pid mid kind key t j t' \<longleftrightarrow>
     tx_tables t' = (tx_tables t)\<lparr>jobs := jobs (tx_tables t) @ [j]\<rparr>
     \<and> (\<exists>u d. j = new_job_row d u (tx_bureau_id t) pid mid kind key \<and> db_now d = db_now (tx_db t))
     \<and> job_fits (tx_bureau_id t) (tx_tables t) j"

lemma job_insert_cases:
  assumes "job_insert pid mid kind key t = (r, t')"
  obtains (added) j where "r = Ok (Some j)" "job_added_row pid mid kind key t j t'"
      "tx_bureau_id t' = tx_bureau_id t" "tx_context t' = tx_context t"
  | (known) "r = Ok None" "tx_same t t'"
      "(tx_bureau_id t, key) \<in> queue_key ` set (jobs (tx_tables t))"
  | (refused) e where "r = Err e" "tx_same t t'"
proof -
  obtain u d where g: "gen_random_uuid (tx_db t) = (u, d)" by fastforce
  let ?t = "t\<lparr>tx_db := d\<rparr>" and ?j = "new_job_row d u (tx_bureau_id t) pid mid kind key"
  have same: "tx_same t ?t" by (rule tx_same_gen [OF g])
  then have tabs: "tx_tables ?t = tx_tables t" by (simp add: tx_same_def)
  have now: "db_now d = db_now (tx_db t)" using g by (auto simp: gen_random_uuid_def)
  have fields: "jr_bureau_id ?j = tx_bureau_id t" "jr_id ?j = u" "queue_key ?j = (tx_bureau_id t, key)"
    by (simp_all add: new_job_row_def queue_key_def)
  have "(\<exists>e. job_insert pid mid kind key t = (Err e, ?t))
      \<or> (job_insert pid mid kind key t = (Ok None, ?t) \<and> queue_key ?j \<in> queue_key ` set (jobs (tx_tables ?t)))
      \<or> (job_insert pid mid kind key t = (Ok (Some ?j), set_tables ((tx_tables ?t)\<lparr>jobs :=
           jobs (tx_tables ?t) @ [?j]\<rparr>) ?t) \<and> job_fits (tx_bureau_id t) (tx_tables ?t) ?j)"
    unfolding job_insert_def g Let_def prod.case using fields(1,2)
    by (simp add: job_fits_def split: if_split)
  then consider e where "job_insert pid mid kind key t = (Err e, ?t)"
    | "job_insert pid mid kind key t = (Ok None, ?t)"
      "queue_key ?j \<in> queue_key ` set (jobs (tx_tables ?t))"
    | "job_insert pid mid kind key t = (Ok (Some ?j), set_tables ((tx_tables ?t)\<lparr>jobs :=
         jobs (tx_tables ?t) @ [?j]\<rparr>) ?t)" "job_fits (tx_bureau_id t) (tx_tables ?t) ?j"
    by blast
  then show ?thesis
  proof cases
    case (1 e)
    with assms same show ?thesis by (intro refused [of e]) auto
  next
    case 2
    with assms same show ?thesis unfolding fields tabs by (intro known) auto
  next
    case 3
    from 3 assms have r: "r = Ok (Some ?j)" and t': "t' = set_tables ((tx_tables t)\<lparr>jobs :=
         jobs (tx_tables t) @ [?j]\<rparr>) ?t" and fits: "job_fits (tx_bureau_id t) (tx_tables t) ?j"
      unfolding tabs by auto
    have "job_added_row pid mid kind key t ?j t'"
      using fits now by (auto simp: job_added_row_def t' set_tables_def tx_tables_def)
    moreover have "tx_bureau_id t' = tx_bureau_id t" "tx_context t' = tx_context t"
      by (simp_all add: t' set_tables_def)
    ultimately show ?thesis using r by (intro added)
  qed
qed


lemma job_added_same:
  "job_added_row pid mid kind key t1 j t' \<Longrightarrow> tx_same t t1 \<Longrightarrow> job_added_row pid mid kind key t j t'"
  by (simp add: job_added_row_def tx_same_def)

abbreviation queue_key_of :: "externs \<Rightarrow> uuid \<Rightarrow> ustr" where
  "queue_key_of x mid \<equiv> extraction_idempotency_key (uuid_to_string x) mid ExtractDocument"

lemma enqueue_extraction_Ok:
  assumes "enqueue_extraction x pid mid t = (Ok out, t')"
  obtains (added) j where "out = job_of j"
      "job_added_row pid mid ExtractDocument (queue_key_of x mid) t j t'"
      "tx_bureau_id t' = tx_bureau_id t" "tx_context t' = tx_context t"
  | (known) j where "out = job_of j" "tx_same t t'" "own_job t j"
      "jr_idempotency_key j = queue_key_of x mid"
proof -
  let ?q = "\<lambda>t. (Ok (find (\<lambda>r. jr_idempotency_key r = queue_key_of x mid) (visible_jobs t)), t)"
  let ?rest = "\<lambda>inserted. case inserted of
       Some r \<Rightarrow> st_lift (job_from_row r)
     | None \<Rightarrow> st_then (statement ?q) (\<lambda>row.
         st_then (st_lift (ok_or (DbDecode (lit ''job insert conflicted but the existing job is not visible''))
               row)) (\<lambda>r. st_lift (job_from_row r)))"
  from assms obtain row t1 where
    1: "statement (job_insert pid mid ExtractDocument (queue_key_of x mid)) t = (Ok row, t1)"
    and 2: "?rest row t1 = (Ok out, t')"
    unfolding enqueue_extraction_def Let_def by (blast dest: st_then_Ok [THEN iffD1])
  from 1 obtain t0 where same: "tx_same t t0"
    and ins: "job_insert pid mid ExtractDocument (queue_key_of x mid) t0 = (Ok row, t1)"
    by (rule statement_Ok)
  from ins show ?thesis
  proof (cases rule: job_insert_cases)
    case (added j)
    with 2 have "t' = t1" "out = job_of j" by (auto simp: outcome_simps dest!: job_from_row_Ok)
    with added same show ?thesis
      by (intro that(1) [of j]) (auto intro: job_added_same simp: tx_same_def)
  next
    case known
    with 2 obtain r where f: "statement ?q t1 = (Ok (Some r), t')" and r: "job_from_row r = Ok out"
      by (auto simp: outcome_simps)
    from f have same2: "tx_same t1 t'" and fnd: "Some r = find (\<lambda>r. jr_idempotency_key r = queue_key_of x mid) (visible_jobs t')"
      by (auto elim: read_Ok)
    have all: "tx_same t t'" using same known(2) same2 by (blast intro: tx_same_trans)
    from find_SomeD [OF fnd [symmetric]] have "own_job t r" "jr_idempotency_key r = queue_key_of x mid"
      by (simp_all add: set_visible_jobs own_job_same [OF all])
    with all job_from_row_Ok [OF r] show ?thesis by (intro that(2))
  qed simp
qed

lemma enqueue_extraction_Err:
  assumes "enqueue_extraction x pid mid t = (Err e, t')"
    and ok: "tables_ok (tx_tables t)" "tx_context t = Some (tx_bureau_id t)"
  obtains e' where "e = DbSqlx e'"
proof -
  let ?q = "\<lambda>t. (Ok (find (\<lambda>r. jr_idempotency_key r = queue_key_of x mid) (visible_jobs t)), t)"
  let ?rest = "\<lambda>inserted. case inserted of
       Some r \<Rightarrow> st_lift (job_from_row r)
     | None \<Rightarrow> st_then (statement ?q) (\<lambda>row.
         st_then (st_lift (ok_or (DbDecode (lit ''job insert conflicted but the existing job is not visible''))
               row)) (\<lambda>r. st_lift (job_from_row r)))"
  from assms(1) consider
    (insert) "statement (job_insert pid mid ExtractDocument (queue_key_of x mid)) t = (Err e, t')"
  | (rest) row t1 where "statement (job_insert pid mid ExtractDocument (queue_key_of x mid)) t = (Ok row, t1)"
      "?rest row t1 = (Err e, t')"
    unfolding enqueue_extraction_def Let_def by (blast dest: st_then_Err [THEN iffD1])
  then show ?thesis
  proof cases
    case insert
    then show ?thesis by (auto elim: statement_Err intro: that)
  next
    case rest
    from rest(1) obtain t0 where same: "tx_same t t0"
      and ins: "job_insert pid mid ExtractDocument (queue_key_of x mid) t0 = (Ok row, t1)"
      by (rule statement_Ok)
    from ins show ?thesis
    proof (cases rule: job_insert_cases)
      case (added j)
      then have "job_check j" by (simp add: job_added_row_def job_fits_def)
      with added rest(2) show ?thesis by (simp add: job_from_row_checked outcome_simps)
    next
      case known
      have tt1: "tx_same t t1" using same known(2) by (rule tx_same_trans)
      from known(3) same obtain j where j: "j \<in> set (jobs (tx_tables t))" "jr_bureau_id j = tx_bureau_id t"
          "jr_idempotency_key j = queue_key_of x mid"
        by (auto simp: tx_same_def queue_key_def)
      then have own: "own_job t j" using ok(2) by (simp add: own_job_def own_row_def rls_visible_def)
      from rest(2) known(1) consider "statement ?q t1 = (Err e, t')"
        | t2 where "statement ?q t1 = (Ok None, t2)"
        | r t2 where "statement ?q t1 = (Ok (Some r), t2)" "job_from_row r = Err e"
        by (auto simp: outcome_simps)
      then show ?thesis
      proof cases
        case 1
        then show ?thesis by (auto elim: statement_Err intro: that)
      next
        case 2
        then have s2: "tx_same t1 t2" and n: "None = find (\<lambda>r. jr_idempotency_key r = queue_key_of x mid) (visible_jobs t2)"
          by (auto elim: read_Ok)
        have "own_job t2 j" using own own_job_same [OF tx_same_trans [OF tt1 s2]] by simp
        with find_NoneD [OF n [symmetric], of j] j(3) show ?thesis by (simp add: set_visible_jobs)
      next
        case 3
        then have s2: "tx_same t1 t2" and n: "Some r = find (\<lambda>r. jr_idempotency_key r = queue_key_of x mid) (visible_jobs t2)"
          by (auto elim: read_Ok)
        have "own_job t r" using find_SomeD [OF n [symmetric]] own_job_same [OF tx_same_trans [OF tt1 s2]]
          by (simp add: set_visible_jobs)
        then have "job_check r" using ok(1) by (auto simp: own_job_def intro: tables_job_checked)
        with 3(2) show ?thesis by (simp add: job_from_row_checked)
      qed
    qed simp
  qed
qed

section \<open>Transactions\<close>

lemma begin_scoped_Ok:
  assumes "begin_scoped b d = (Ok t, d1)"
  shows "tx_bureau_id t = b \<and> tx_context t = Some b \<and> tx_tables t = db_tables d
    \<and> db_now (tx_db t) = db_now d \<and> db_gen (tx_db t) = db_gen d"
  using assms
  by (auto simp: begin_scoped_def next_db_fault_def tx_tables_def
      split: prod.splits db_fault.splits list.splits)

lemma begin_scoped_Err:
  assumes "begin_scoped b d = (Err e, d1)"
  shows "db_tables d1 = db_tables d \<and> (\<exists>e'. e = DbSqlx e')"
  using assms
  by (auto simp: begin_scoped_def next_db_fault_def split: prod.splits db_fault.splits list.splits)

lemma begin_scoped_no_panic: "begin_scoped b d \<noteq> (Panic, d1)"
  by (auto simp: begin_scoped_def next_db_fault_def split: prod.splits db_fault.splits list.splits)

lemma tx_commit_cases:
  assumes "tx_commit before t = (r, d)"
  shows "(r = Ok () \<and> db_tables d = tx_tables t)
    \<or> (\<exists>e. r = Err (DbSqlx e) \<and> (db_tables d = before \<or> db_tables d = tx_tables t))"
  using assms
  by (auto simp: tx_commit_def next_db_fault_def tx_tables_def
      split: prod.splits db_fault.splits list.splits)

text \<open>The transaction a body starts in, and how the whole ends.\<close>

definition tx_started :: "uuid \<Rightarrow> db \<Rightarrow> scoped_tx \<Rightarrow> bool" where
  "tx_started b d t \<longleftrightarrow> tx_bureau_id t = b \<and> tx_context t = Some b \<and> tx_tables t = db_tables d
     \<and> db_now (tx_db t) = db_now d"

lemma tx_started_own: "tx_started b d t \<Longrightarrow> own_row t c \<longleftrightarrow> c = b"
  by (auto simp: tx_started_def own_row_def rls_visible_def)

lemma in_scoped_tx_cases:
  assumes "in_scoped_tx conv b body d = (r, d')"
  obtains (committed) a t t' where "r = Ok a" "tx_started b d t" "body t = (Ok a, t')"
      "db_tables d' = tx_tables t'"
  | (body_error) e t t' where "r = Err e" "tx_started b d t" "body t = (Err e, t')"
      "db_tables d' = db_tables d"
  | (body_panic) t t' where "r = Panic" "tx_started b d t" "body t = (Panic, t')"
      "db_tables d' = db_tables d"
  | (not_begun) e where "r = Err (conv (DbSqlx e))" "db_tables d' = db_tables d"
  | (not_committed) e a t t' where "r = Err (conv (DbSqlx e))" "tx_started b d t" "body t = (Ok a, t')"
      "db_tables d' = db_tables d"
  | (unknown) e a t t' where "r = Err (conv (DbSqlx e))" "tx_started b d t" "body t = (Ok a, t')"
      "db_tables d' = tx_tables t'"
proof -
  obtain r1 d1 where b: "begin_scoped b d = (r1, d1)" by fastforce
  show ?thesis
  proof (cases r1)
    case (Err e)
    with b begin_scoped_Err [of b d e d1] assms show ?thesis
      by (auto simp: in_scoped_tx_def intro: not_begun)
  next
    case Panic
    with b begin_scoped_no_panic show ?thesis by blast
  next
    case (Ok t)
    have st: "tx_started b d t" using begin_scoped_Ok [of b d t d1] b Ok by (simp add: tx_started_def)
    obtain r2 t' where q: "body t = (r2, t')" by fastforce
    show ?thesis
    proof (cases r2)
      case (Err e)
      with b Ok q assms have "r = Err e" "db_tables d' = db_tables d"
        by (auto simp: in_scoped_tx_def tx_rollback_def)
      with q Err st show ?thesis by (intro body_error) auto
    next
      case Panic
      with b Ok q assms have "r = Panic" "db_tables d' = db_tables d"
        by (auto simp: in_scoped_tx_def tx_rollback_def)
      with q Panic st show ?thesis by (intro body_panic) auto
    next
      case (Ok a)
      obtain r3 d3 where c: "tx_commit (db_tables d) t' = (r3, d3)" by fastforce
      from tx_commit_cases [OF c] show ?thesis
      proof (elim disjE exE conjE)
        assume "r3 = Ok ()" "db_tables d3 = tx_tables t'"
        with b \<open>r1 = Ok t\<close> q Ok c assms have "r = Ok a" "db_tables d' = tx_tables t'"
          by (auto simp: in_scoped_tx_def)
        with q Ok st show ?thesis by (intro committed) auto
      next
        fix e assume "r3 = Err (DbSqlx e)" "db_tables d3 = db_tables d"
        with b \<open>r1 = Ok t\<close> q Ok c assms have "r = Err (conv (DbSqlx e))" "db_tables d' = db_tables d"
          by (auto simp: in_scoped_tx_def)
        with q Ok st show ?thesis by (intro not_committed) auto
      next
        fix e assume "r3 = Err (DbSqlx e)" "db_tables d3 = tx_tables t'"
        with b \<open>r1 = Ok t\<close> q Ok c assms have "r = Err (conv (DbSqlx e))" "db_tables d' = tx_tables t'"
          by (auto simp: in_scoped_tx_def)
        with q Ok st show ?thesis by (intro unknown) auto
      qed
    qed
  qed
qed

end
