(* ===== verification/System.thy ===== *)
theory System
  imports StoredOriginals DbFacts
begin

text \<open>
  The running system: any number of uploads in progress, every other request, the maintenance
  worker, provisioning and the passing of time, interleaved at the steps of an upload (its check of
  the partner, the intake into the store, the transaction that records it). A request may go away
  between any two of them. The invariant is the promise of the intake: what is recorded is stored.
\<close>

section \<open>The steps\<close>

datatype upload_phase =
    Arrived session uuid multipart
  | Accepted session uuid multipart
  | Stored session uuid received_file
  | Answered response
  | Refused api_error
  | Gone

type_synonym system = "world \<times> upload_phase list"

fun after_check :: "session \<Rightarrow> uuid \<Rightarrow> multipart \<Rightarrow> (api_error, bool) outcome \<Rightarrow> upload_phase" where
  "after_check s pid body (Ok known) = (if known then Accepted s pid body else Refused partner_not_found)"
| "after_check s pid body (Err e) = Refused e"
| "after_check s pid body Panic = Gone"

fun after_store :: "session \<Rightarrow> uuid \<Rightarrow> (api_error, received_file) outcome \<Rightarrow> upload_phase" where
  "after_store s pid (Ok r) =
     (case new_material_of pid r of Err e \<Rightarrow> Refused (api_error_new e) | Panic \<Rightarrow> Gone | Ok n \<Rightarrow> Stored s pid r)"
| "after_store s pid (Err e) = Refused e"
| "after_store s pid Panic = Gone"

fun after_record :: "(api_error, insert_outcome) outcome \<Rightarrow> upload_phase" where
  "after_record (Ok out) = Answered (outcome_response out)"
| "after_record (Err e) = Refused e"
| "after_record Panic = Gone"

text \<open>What the machine may do between two steps: time passes, calls may come to fail.\<close>

definition same_data :: "world \<Rightarrow> world \<Rightarrow> bool" where
  "same_data w w' \<longleftrightarrow> db_tables (w_db w') = db_tables (w_db w)
     \<and> fs_tree (w_fs w') = fs_tree (w_fs w) \<and> fs_late (w_fs w') = fs_late (w_fs w)"

inductive system_step ::
    "externs \<Rightarrow> (ustr \<Rightarrow> bool) \<Rightarrow> config \<Rightarrow> fs_store \<Rightarrow> maintenance_settings \<Rightarrow> system \<Rightarrow> system \<Rightarrow> bool"
  for x h c st ms where
  arrives: "on_db (session_extract x c rq) w = (Ok s, w') \<Longrightarrow>
    system_step x h c st ms (w, us) (w', us @ [Arrived s pid body])"
| checks: "i < length us \<Longrightarrow> us ! i = Arrived s pid body \<Longrightarrow>
    in_tx s (repo (partners_exists pid)) w = (known, w') \<Longrightarrow>
    system_step x h c st ms (w, us) (w', us[i := after_check s pid body known])"
| stores: "i < length us \<Longrightarrow> us ! i = Accepted s pid body \<Longrightarrow>
    receive_file x c st fresh (upload_namespace s pid) body w = (received, w') \<Longrightarrow>
    system_step x h c st ms (w, us) (w', us[i := after_store s pid received])"
| records: "i < length us \<Longrightarrow> us ! i = Stored s pid f \<Longrightarrow> new_material_of pid f = Ok n \<Longrightarrow>
    record_material x (session_bureau_id s) f n w = (out, w') \<Longrightarrow>
    system_step x h c st ms (w, us) (w', us[i := after_record out])"
| drops: "i < length us \<Longrightarrow> system_step x h c st ms (w, us) (w, us[i := Gone])"
| serves: "answer x h c st rq segments inp w = (resp, w') \<Longrightarrow>
    system_step x h c st ms (w, us) (w', us)"
| maintains: "run_once x c st ms w = (report, w') \<Longrightarrow> system_step x h c st ms (w, us) (w', us)"
| provisions: "on_db (bootstrap_bureau slug) w = (ident, w') \<Longrightarrow> system_step x h c st ms (w, us) (w', us)"
| waits: "same_data w w' \<Longrightarrow> system_step x h c st ms (w, us) (w', us)"

inductive_cases system_stepE: "system_step x h c st ms S S'"

definition system_start :: "externs \<Rightarrow> fs_store \<Rightarrow> world \<Rightarrow> bool" where
  "system_start x st w \<longleftrightarrow> tables_ok (db_tables (w_db w)) \<and> materials (db_tables (w_db w)) = []
     \<and> at_rest (w_fs w) \<and> content_ok x (objects_root st) (node_at (w_fs w))"

definition system_reachable ::
    "externs \<Rightarrow> (ustr \<Rightarrow> bool) \<Rightarrow> config \<Rightarrow> fs_store \<Rightarrow> maintenance_settings \<Rightarrow> world \<Rightarrow> system \<Rightarrow> bool" where
  "system_reachable x h c st ms w0 S \<longleftrightarrow> (system_step x h c st ms)\<^sup>*\<^sup>* (w0, []) S"

section \<open>The invariant\<close>

definition upload_ok :: "externs \<Rightarrow> fs_store \<Rightarrow> path set \<Rightarrow> upload_phase \<Rightarrow> bool" where
  "upload_ok x st A u \<longleftrightarrow>
     (case u of Stored s pid f \<Rightarrow> received_in x st A (upload_namespace s pid) f | _ \<Rightarrow> True)"

definition system_inv :: "externs \<Rightarrow> fs_store \<Rightarrow> system \<Rightarrow> bool" where
  "system_inv x st S \<longleftrightarrow>
     (\<exists>A. recorded_in x st A (fst S) \<and> list_all (upload_ok x st A) (snd S))"

lemma upload_ok_simps [simp]:
  "upload_ok x st A (Arrived s pid body)" "upload_ok x st A (Accepted s pid body)"
  "upload_ok x st A (Answered r)" "upload_ok x st A (Refused e)" "upload_ok x st A Gone"
  "upload_ok x st A (Stored s pid f) \<longleftrightarrow> received_in x st A (upload_namespace s pid) f"
  by (simp_all add: upload_ok_def)

lemma upload_ok_after [simp]:
  "upload_ok x st A (after_check s pid body known)" "upload_ok x st A (after_record out)"
  by (cases known, simp_all) (cases out, simp_all)

lemma upload_ok_stored:
  "(\<And>f. received = Ok f \<Longrightarrow> received_in x st A (upload_namespace s pid) f)
    \<Longrightarrow> upload_ok x st A (after_store s pid received)"
  by (cases received) (auto split: outcome.splits)

lemma uploads_update: "list_all P us \<Longrightarrow> P u \<Longrightarrow> list_all P (us[i := u])"
  by (auto simp: list_all_iff dest!: subsetD [OF set_update_subset_insert])

lemma uploads_nth: "list_all P us \<Longrightarrow> i < length us \<Longrightarrow> P (us ! i)"
  by (simp add: list_all_length)

lemma uploads_mono:
  assumes "list_all (upload_ok x st A) us" "A \<subseteq> B"
  shows "list_all (upload_ok x st B) us"
  using assms(1)
proof (rule list.pred_mono_strong)
  fix u assume "upload_ok x st A u"
  with assms(2) show "upload_ok x st B u" by (cases u) (auto simp: received_in_def)
qed

text \<open>A step of the rest of the system lets the uploads in progress be.\<close>

lemma system_inv_beside:
  assumes keeps: "\<And>A. st_keeps (recorded_stored x st A) m" and run: "m w = (r, w')"
    and inv: "system_inv x st (w, us)"
  shows "system_inv x st (w', us)"
proof -
  from inv obtain A where A: "recorded_in x st A w" "list_all (upload_ok x st A) us"
    by (auto simp: system_inv_def)
  have "recorded_stored x st A w" by (rule recorded_storedI [OF subset_refl A(1)])
  from st_keepsD [OF keeps this run] obtain B where "A \<subseteq> B" "recorded_in x st B w'"
    by (auto simp: recorded_stored_def)
  with uploads_mono [OF A(2)] show ?thesis by (auto simp: system_inv_def)
qed

lemma system_inv_update: "system_inv x st (w, us) \<Longrightarrow> (\<And>A. upload_ok x st A u) \<Longrightarrow> system_inv x st (w, us[i := u])"
  using uploads_update by (fastforce simp: system_inv_def)

lemma recorded_bootstrap: "st_keeps (recorded_stored x st A) (on_db (bootstrap_bureau slug))"
proof (rule keeps_recorded)
  show "st_keeps (store_world x st A) (on_db (bootstrap_bureau slug))" for A by (rule store_on_db)
  show "st_keeps (data_inv tables_ok) (on_db (bootstrap_bureau slug))"
    by (rule data_on_db) (rule bootstrap_keeps_constraints)
  show "st_keeps (data_inv (rows_in x st A)) (on_db (bootstrap_bureau slug))" for A
    unfolding rows_in_def by (rule data_on_db) (rule bootstrap_keeps_materials)
qed

lemma recorded_same_data: "same_data w w' \<Longrightarrow> recorded_in x st A w' = recorded_in x st A w"
  by (auto simp: same_data_def recorded_in_def store_world_def data_inv_def store_inv_def at_rest_def
      node_at_def objects_present_def cong: content_ok_def)

text \<open>The steps of an upload.\<close>

lemma system_inv_store:
  assumes docs: "uuid_documented x" "sha256_documented x" "store_layout st"
    and run: "receive_file x c st fresh (upload_namespace s pid) body w = (received, w')"
    and inv: "system_inv x st (w, us)"
  shows "system_inv x st (w', us[i := after_store s pid received])"
proof -
  from inv obtain A where A: "recorded_in x st A w" "list_all (upload_ok x st A) us"
    by (auto simp: system_inv_def)
  from receive_recorded [OF docs A(1) run] obtain B where
    B: "A \<subseteq> B" "recorded_in x st B w'" "\<forall>f. received = Ok f \<longrightarrow> received_in x st B (upload_namespace s pid) f"
    by blast
  have "upload_ok x st B (after_store s pid received)" using B(3) by (intro upload_ok_stored) simp
  with uploads_mono [OF A(2) B(1)] have "list_all (upload_ok x st B) (us[i := after_store s pid received])"
    by (rule uploads_update)
  with B(2) show ?thesis by (auto simp: system_inv_def)
qed

lemma system_inv_record:
  assumes u: "i < length us" "us ! i = Stored s pid f" and n: "new_material_of pid f = Ok n"
    and run: "record_material x (session_bureau_id s) f n w = (out, w')"
    and inv: "system_inv x st (w, us)"
  shows "system_inv x st (w', us[i := after_record out])"
proof -
  from inv obtain A where A: "recorded_in x st A w" "list_all (upload_ok x st A) us"
    by (auto simp: system_inv_def)
  from uploads_nth [OF A(2) u(1)] u(2) have
    "received_in x st A \<lparr>ns_bureau_id = session_bureau_id s, ns_partner_id = pid\<rparr> f"
    by (simp add: upload_namespace_def)
  from record_recorded [OF A(1) n this] run have "recorded_in x st A w'" by (metis snd_conv)
  with A(2) show ?thesis by (auto simp: system_inv_def intro!: exI [of _ A] uploads_update)
qed

lemma system_inv_check:
  assumes "in_tx s (repo (partners_exists pid)) w = (known, w')" "system_inv x st (w, us)"
  shows "system_inv x st (w', us)"
  using keeps_partner_known assms by (rule system_inv_beside)

lemma system_step_inv:
  assumes docs: "uuid_documented x" "sha256_documented x" "store_layout st"
    and step: "system_step x h c st ms S S'" and inv: "system_inv x st S"
  shows "system_inv x st S'"
  using step inv
proof cases
  case (arrives rq w s w' us pid body)
  have "st_keeps (recorded_stored x st A) (on_db (session_extract x c rq))" for A
    by (intro keeps_recorded store_on_db rows_ext all_constraints.keeps_session_extract)
  from system_inv_beside [OF this arrives(3)] inv arrives(1) have "system_inv x st (w', us)" by simp
  then show ?thesis unfolding arrives(2) by (auto simp: system_inv_def)
next
  case (checks i us s pid body w known w')
  with system_inv_check inv have "system_inv x st (w', us)" by blast
  then show ?thesis unfolding checks(2) by (rule system_inv_update) simp
next
  case (stores i us s pid body fresh w received w')
  with system_inv_store [OF docs] inv show ?thesis by blast
next
  case (records i us s pid f n w out w')
  with system_inv_record inv show ?thesis by blast
next
  case (drops i us w)
  with inv show ?thesis by (auto intro: system_inv_update)
next
  case (serves rq segments inp w resp w' us)
  from answer_world [OF serves(3)] obtain r where
    "handle x h c st rq inp (route (rq_method rq) segments) w = (r, w')" by blast
  from system_inv_beside [OF handle_recorded [OF docs] this] inv serves show ?thesis by simp
next
  case (maintains w report w' us)
  with system_inv_beside [OF run_once_recorded [OF docs(3)] maintains(3)] inv show ?thesis by simp
next
  case (provisions slug w ident w' us)
  with system_inv_beside [OF recorded_bootstrap provisions(3)] inv show ?thesis by simp
next
  case (waits w w' us)
  with inv recorded_same_data [OF waits(3)] show ?thesis by (auto simp: system_inv_def)
qed

lemma system_start_inv: "system_start x st w \<Longrightarrow> system_inv x st (w, [])"
  by (auto simp: system_start_def system_inv_def recorded_in_def store_world_def data_inv_def
      store_inv_def rows_in_def objects_present_def intro!: exI [of _ "{}"])

lemma system_reachable_inv:
  assumes docs: "uuid_documented x" "sha256_documented x" "store_layout st"
    and "system_start x st w0" "system_reachable x h c st ms w0 S"
  shows "system_inv x st S"
  using assms(5) unfolding system_reachable_def
proof (induction rule: rtranclp_induct)
  case base
  show ?case by (rule system_start_inv [OF assms(4)])
next
  case (step S S')
  from system_step_inv [OF docs step.hyps(2) step.IH] show ?case .
qed

section \<open>Recorded originals can be read back\<close>

lemma recorded_row_reads:
  assumes docs: "uuid_documented x" and w: "recorded_in x st A w"
    and m: "m \<in> set (materials (db_tables (w_db w)))" and quick: "fs_faults (w_fs w) = []"
  shows "\<exists>k b. object_key_parse x (mr_storage_key m) = Ok k \<and> open_object st k (w_fs w) = (Ok b, w_fs w)
    \<and> content_digest x (ob_content b) = mr_sha256 m"
proof -
  from w m have key: "mr_storage_key m = key_text x (row_namespace m) (mr_sha256 m)" "row_path x st m \<in> A"
      and check: "material_check m" and store: "store_inv x st A (w_fs w)"
    by (auto simp: recorded_in_def data_inv_def rows_in_def keyed_in_def list_all_iff store_world_def
        dest: tables_material_checked)
  from check have hex: "is_sha256_hex (mr_sha256 m)"
    by (simp add: material_check_def hex64_def is_sha256_hex_iff list_all_iff)
  from store_inv_open_succeeds [OF docs store hex key(2) [unfolded row_path_def] quick] obtain b where
    b: "open_object st (ObjectKey (mr_storage_key m)) (w_fs w) = (Ok b, w_fs w)" unfolding key(1) by blast
  from store_inv_open_Ok [OF docs store hex b [unfolded key(1)]] have
    "content_digest x (ob_content b) = mr_sha256 m" by blast
  moreover have "object_key_parse x (mr_storage_key m) = Ok (ObjectKey (mr_storage_key m))"
    unfolding key(1) by (rule key_text_parses [OF docs hex])
  ultimately show ?thesis using b by blast
qed

text \<open>
  C1: What is recorded is stored, for good. Start with an empty list of materials; let uploads,
  requests, maintenance passes, provisioning, lost clients, failed calls and lost transactions
  interleave in any order. Whenever the file system answers, the storage key of every recorded
  material of every bureau parses and opens, and what it opens hashes to the recorded digest.
\<close>

theorem recorded_originals_readable:
  assumes "uuid_documented x" "sha256_documented x" "store_layout st"
    and "system_start x st w0" "system_reachable x h c st ms w0 (w, us)"
    and "m \<in> set (materials (db_tables (w_db w)))" "fs_faults (w_fs w) = []"
  shows "\<exists>k b. object_key_parse x (mr_storage_key m) = Ok k \<and> open_object st k (w_fs w) = (Ok b, w_fs w)
    \<and> content_digest x (ob_content b) = mr_sha256 m"
proof -
  from system_reachable_inv [OF assms(1-5)] obtain A where "recorded_in x st A w"
    by (auto simp: system_inv_def)
  from recorded_row_reads [OF assms(1) this assms(6,7)] show ?thesis .
qed

section \<open>One request is a schedule of the system\<close>

fun phase_outcome :: "upload_phase \<Rightarrow> (api_error, response) outcome option" where
  "phase_outcome (Answered r) = Some (Ok r)"
| "phase_outcome (Refused e) = Some (Err e)"
| "phase_outcome Gone = Some Panic"
| "phase_outcome _ = None"


section \<open>A concrete run\<close>

definition sample_session :: session where
  "sample_session = session_of_row sample_session_row"

definition sample_partner :: partner_row where
  "sample_partner = \<lparr>pr_id = 2, pr_bureau_id = 1, pr_name = lit ''BASIS'', pr_note = None,
     pr_created_at = 0, pr_updated_at = 0\<rparr>"

definition sample_start_db :: db where
  "sample_start_db = sample_auth_db\<lparr>db_tables := (db_tables sample_auth_db)\<lparr>partners := [sample_partner]\<rparr>\<rparr>"

definition sample_start_world :: world where
  "sample_start_world = sample_world\<lparr>w_db := sample_start_db\<rparr>"

text \<open>The same after the request has passed the session gate.\<close>

definition sample_extract :: "(api_error, session) outcome \<times> db" where
  "sample_extract = session_extract sample_externs sample_config (sample_request POST) sample_start_db"

definition sample_partner_db :: db where
  "sample_partner_db = snd sample_extract"

definition sample_partner_world :: world where
  "sample_partner_world = sample_world\<lparr>w_db := sample_partner_db\<rparr>"

text \<open>What the intake makes of the sample file, and the steps of its transaction.\<close>

definition sample_content :: bytes where
  "sample_content = [0x25, 0x50, 0x44, 0x46, 0x2D, 0x31]"

definition sample_new_material :: new_material where
  "sample_new_material =
     (let d = content_digest sample_externs sample_content
      in \<lparr>nm_partner_id = 2, nm_filename = lit ''a.pdf'', nm_media_type = lit ''application/pdf'',
          nm_size_bytes = 6, nm_sha256 = d, nm_storage_key = key_text sample_externs sample_ns d\<rparr>)"

definition sample_tx :: scoped_tx where
  "sample_tx = \<lparr>tx_db = sample_partner_db, tx_bureau_id = 1, tx_context = Some 1\<rparr>"

definition sample_inserted :: "(db_error, insert_outcome) outcome \<times> scoped_tx" where
  "sample_inserted = materials_insert sample_new_material sample_tx"

definition sample_outcome :: insert_outcome where
  "sample_outcome = (case fst sample_inserted of Ok out \<Rightarrow> out)"

definition sample_enqueued :: "(db_error, job) outcome \<times> scoped_tx" where
  "sample_enqueued = enqueue_extraction sample_externs 2 (mat_id (outcome_material sample_outcome)) (snd sample_inserted)"

lemma sample_gate: "fst sample_extract = Ok sample_session" "db_faults sample_partner_db = []"
  by code_simp+

lemma sample_recording_checked:
  "case sample_enqueued of (r, t) \<Rightarrow>
     is_ok r \<and> is_ok (fst sample_inserted) \<and> length (materials (tx_tables t)) = 1 \<and> db_faults (tx_db t) = []"
  by code_simp

lemma sample_recording:
  obtains out t1 j t2 where "materials_insert sample_new_material sample_tx = (Ok out, t1)"
    "enqueue_extraction sample_externs 2 (mat_id (outcome_material out)) t1 = (Ok j, t2)"
    "length (materials (tx_tables t2)) = 1" "db_faults (tx_db t2) = []"
proof -
  obtain out where o: "fst sample_inserted = Ok out"
    using sample_recording_checked by (auto simp: is_ok_iff)
  then have "sample_outcome = out" by (simp add: sample_outcome_def)
  moreover obtain j t2 where "sample_enqueued = (Ok j, t2)" "length (materials (tx_tables t2)) = 1"
      "db_faults (tx_db t2) = []"
    using sample_recording_checked by (cases sample_enqueued) (auto simp: is_ok_iff)
  moreover have "materials_insert sample_new_material sample_tx = (Ok out, snd sample_inserted)"
    using o by (simp add: sample_inserted_def prod_eq_iff)
  ultimately show ?thesis using that by (simp add: sample_enqueued_def)
qed

lemma sample_begin: "begin_scoped 1 sample_partner_db = (Ok sample_tx, sample_partner_db)"
  by (simp add: begin_scoped_def next_db_fault_def sample_gate sample_tx_def)

lemma publish_steps:
  assumes "db_faults d = []" "db_faults (tx_db t2) = []"
    and "materials_insert n \<lparr>tx_db = d, tx_bureau_id = b, tx_context = Some b\<rparr> = (Ok out, t1)"
    and "enqueue_extraction x (nm_partner_id n) (mat_id (outcome_material out)) t1 = (Ok job, t2)"
  shows "publish_material x b n d = (Ok out, tx_db t2)"
  using assms
  by (simp add: publish_material_def in_scoped_tx_def begin_scoped_def tx_commit_def next_db_fault_def
      st_then_def st_ok_def)

lemma sample_publish:
  "\<exists>out d. publish_material sample_externs 1 sample_new_material sample_partner_db = (Ok out, d)
     \<and> length (materials (db_tables d)) = 1"
proof -
  obtain out t1 j t2 where t: "materials_insert sample_new_material sample_tx = (Ok out, t1)"
      "enqueue_extraction sample_externs 2 (mat_id (outcome_material out)) t1 = (Ok j, t2)"
      "length (materials (tx_tables t2)) = 1" "db_faults (tx_db t2) = []"
    by (rule sample_recording)
  have "nm_partner_id sample_new_material = 2" by (simp add: sample_new_material_def Let_def)
  with publish_steps [OF sample_gate(2) t(4) t(1) [unfolded sample_tx_def]] t(2,3) show ?thesis
    by (auto simp: tx_tables_def)
qed

lemma read_file_field_elsewhere:
  assumes "read_file_field x c st fresh ns f w = (Ok r, v)" "w_fs w2 = w_fs w"
  shows "read_file_field x c st fresh ns f w2 = (Ok r, w2\<lparr>w_fs := w_fs v\<rparr>)"
  using assms by (fastforce simp: read_file_field_def outcome_simps Let_def split: prod.splits)

lemma sample_intake:
  obtains f w' where "receive_file sample_externs sample_config sample_store 7
      (upload_namespace sample_session 2) [Ok sample_field] sample_partner_world = (Ok f, w')"
    "w' = sample_partner_world\<lparr>w_fs := w_fs w'\<rparr>" "new_material_of 2 f = Ok sample_new_material"
proof -
  have ns: "upload_namespace sample_session 2 = sample_ns"
    by (simp add: upload_namespace_def sample_session_def session_of_row_def sample_session_row_def sample_ns_def)
  obtain f v where v: "read_file_field sample_externs sample_config sample_store 7 sample_ns sample_field
      sample_world = (Ok f, v)" by (rule sample_field_read)
  let ?w' = "sample_partner_world\<lparr>w_fs := w_fs v\<rparr>"
  have late: "fs_late (w_fs sample_world) = []" by simp
  have chunks: "list_all chunk_sized (field_chunks sample_field)"
    using sample_body_sized by (simp add: body_sized_def)
  from read_file_field_Ok [OF sample_uuid_documented sample_sha256_documented sample_layout late
      chunks sample_max_upload v]
  have ok: "received_ok sample_externs sample_config sample_store 7 sample_ns sample_field sample_fs f (w_fs v)"
    by simp
  then obtain bss where bss: "field_chunks sample_field = map Ok bss"
      "media_detect (concat bss) = Some (rf_media_type f)"
      "rf_filename f = display_filename (case field_file_name sample_field of Some n \<Rightarrow> n | None \<Rightarrow> []) (rf_media_type f)"
      "so_sha256 (rf_stored f) = content_digest sample_externs (concat bss)"
      "unat (so_size_bytes (rf_stored f)) = length (concat bss)"
      "put_stream sample_externs sample_store 7 sample_ns (map Ok bss) sample_fs = (Ok (rf_stored f), w_fs v)"
    unfolding received_ok_def by blast
  then have name: "rf_filename f = display_filename (lit ''a.pdf'') (rf_media_type f)"
    by (simp add: sample_field_def)
  have "bss = [[0x25, 0x50, 0x44], [0x46, 0x2D, 0x31]]"
    using bss(1) by (auto simp: sample_field_def Cons_eq_map_conv)
  then have c: "concat bss = sample_content" by (simp add: sample_content_def)
  have "media_detect sample_content = Some Pdf" by code_simp
  with bss(2) c have m: "rf_media_type f = Pdf" by simp
  have "display_filename (lit ''a.pdf'') Pdf = lit ''a.pdf''" by code_simp
  moreover have "so_key (rf_stored f) = ObjectKey (key_text sample_externs sample_ns (so_sha256 (rf_stored f)))"
    using put_stream_success [OF sample_uuid_documented sample_sha256_documented sample_layout sample_idle(1) bss(6)]
    by auto
  ultimately have "new_material_of 2 f = Ok sample_new_material"
    using name bss(4,5) c m
    by (simp add: new_material_of_def i64_try_from_def sample_new_material_def sample_content_def Let_def
        media_type_string_def)
  moreover have "receive_file sample_externs sample_config sample_store 7 (upload_namespace sample_session 2)
      [Ok sample_field] sample_partner_world = (Ok f, ?w')"
    using read_file_field_elsewhere [OF v, of sample_partner_world] sample_file_part unfolding ns
    by (auto simp: receive_file_def is_file_part_def st_lift_def sample_partner_world_def outcome_simps)
  ultimately show ?thesis using that by simp
qed

lemma sample_system_start: "system_start sample_externs sample_store sample_start_world"
proof -
  have "bureau_table_ok (bureaus (db_tables sample_start_db))" by code_simp
  moreover have "session_table_ok (br_id ` set (bureaus (db_tables sample_start_db))) (sessions (db_tables sample_start_db))"
    using sample_sessions_ok by (simp add: sample_start_db_def sample_auth_db_def db_sessions_def)
  moreover have "partner_table_ok (br_id ` set (bureaus (db_tables sample_start_db))) (partners (db_tables sample_start_db))"
    by code_simp
  ultimately have "tables_ok (db_tables sample_start_db)"
    by (simp add: tables_ok_def) (simp add: sample_start_db_def sample_auth_db_def material_table_ok_def job_table_ok_def)
  then show ?thesis
    using sample_content_ok
    by (simp add: system_start_def sample_start_world_def at_rest_def sample_start_db_def sample_auth_db_def)
qed

lemma sample_gate_world:
  "on_db (session_extract sample_externs sample_config (sample_request POST)) sample_start_world
   = (Ok sample_session, sample_partner_world)"
  using sample_gate(1)
  by (simp add: on_db_def sample_start_world_def sample_partner_world_def sample_partner_db_def
      sample_extract_def prod_eq_iff split: prod.splits)

lemma sample_known:
  "in_tx sample_session (repo (partners_exists 2)) sample_partner_world = (Ok True, sample_partner_world)"
proof -
  have "list_ex (\<lambda>r. pr_id r = 2) (visible_partners (sample_tx\<lparr>tx_db := sample_partner_db\<rparr>))" by code_simp
  moreover have "session_bureau_id sample_session = 1" by code_simp
  moreover have "tx_db sample_tx = sample_partner_db" by (simp add: sample_tx_def)
  ultimately show ?thesis
    using sample_begin sample_gate(2)
    by (simp add: in_tx_def on_db_def in_scoped_tx_def partners_exists_def statement_def next_db_fault_def
        tx_commit_def st_map_err_def sample_partner_world_def)
qed

lemma sample_run:
  obtains w us m where
    "system_reachable sample_externs (\<lambda>v. True) sample_config sample_store default_settings sample_start_world (w, us)"
    "materials (db_tables (w_db w)) = [m]" "fs_faults (w_fs w) = []" "db_faults (w_db w) = []"
proof -
  let ?step = "system_step sample_externs (\<lambda>v. True) sample_config sample_store default_settings"
  obtain f w' where f: "receive_file sample_externs sample_config sample_store 7
      (upload_namespace sample_session 2) [Ok sample_field] sample_partner_world = (Ok f, w')"
    "w' = sample_partner_world\<lparr>w_fs := w_fs w'\<rparr>" "new_material_of 2 f = Ok sample_new_material"
    by (rule sample_intake)
  obtain out d where d: "publish_material sample_externs 1 sample_new_material sample_partner_db = (Ok out, d)"
      "length (materials (db_tables d)) = 1"
    using sample_publish by blast
  have bureau: "session_bureau_id sample_session = 1" by code_simp
  note known = sample_known
  have "w_db w' = sample_partner_db" by (subst f(2)) (simp add: sample_partner_world_def)
  then have rec: "record_material sample_externs (session_bureau_id sample_session) f sample_new_material w'
      = (Ok out, w'\<lparr>w_db := d\<rparr>)"
    using d(1) by (simp add: record_material_def on_db_def bureau)
  let ?w = "w'\<lparr>w_db := d\<lparr>db_faults := []\<rparr>, w_fs := (w_fs w')\<lparr>fs_faults := []\<rparr>\<rparr>"
  have s1: "?step (sample_start_world, []) (sample_partner_world, [Arrived sample_session 2 [Ok sample_field]])"
    using arrives [OF sample_gate_world, where us = "[]"] by simp
  have s2: "?step (sample_partner_world, [Arrived sample_session 2 [Ok sample_field]])
      (sample_partner_world, [Accepted sample_session 2 [Ok sample_field]])"
    using checks [OF _ _ known, of 0 "[Arrived sample_session 2 [Ok sample_field]]"] by simp
  have s3: "?step (sample_partner_world, [Accepted sample_session 2 [Ok sample_field]]) (w', [Stored sample_session 2 f])"
    using stores [OF _ _ f(1), of 0 "[Accepted sample_session 2 [Ok sample_field]]"] f(3) by simp
  have s4: "?step (w', [Stored sample_session 2 f]) (w'\<lparr>w_db := d\<rparr>, [Answered (outcome_response out)])"
    using records [OF _ _ f(3) rec, of 0 "[Stored sample_session 2 f]"] by simp
  have s5: "?step (w'\<lparr>w_db := d\<rparr>, [Answered (outcome_response out)]) (?w, [Answered (outcome_response out)])"
    by (rule waits) (simp add: same_data_def)
  from s1 s2 s3 s4 s5 have "system_reachable sample_externs (\<lambda>v. True) sample_config sample_store default_settings
      sample_start_world (?w, [Answered (outcome_response out)])"
    unfolding system_reachable_def
    by (blast intro: converse_rtranclp_into_rtranclp)
  moreover from d(2) obtain m where "materials (db_tables (w_db ?w)) = [m]" by (auto simp: length_Suc_conv)
  ultimately show ?thesis by (rule that) simp_all
qed

theorem recorded_originals_readable_witness:
  "\<exists>w us m k b.
     system_reachable sample_externs (\<lambda>v. True) sample_config sample_store default_settings sample_start_world (w, us)
     \<and> materials (db_tables (w_db w)) = [m] \<and> object_key_parse sample_externs (mr_storage_key m) = Ok k
     \<and> open_object sample_store k (w_fs w) = (Ok b, w_fs w)
     \<and> content_digest sample_externs (ob_content b) = mr_sha256 m"
proof -
  obtain w us m where run:
    "system_reachable sample_externs (\<lambda>v. True) sample_config sample_store default_settings sample_start_world (w, us)"
    "materials (db_tables (w_db w)) = [m]" "fs_faults (w_fs w) = []"
    by (rule sample_run)
  then have "m \<in> set (materials (db_tables (w_db w)))" by simp
  from recorded_originals_readable [OF sample_uuid_documented sample_sha256_documented sample_layout
      sample_system_start run(1) this run(3)] run show ?thesis by blast
qed


end
