(* ===== verification/Publishing.thy ===== *)
theory Publishing
  imports System
begin

text \<open>
  What \<^verbatim>\<open>upload_material\<close> and \<^verbatim>\<open>retry_material\<close> make of the tables: the transaction that records an
  original with its queue entry, its repetition after an answer that was lost, and the requeueing
  of a material that may be tried again.
\<close>

section \<open>Recording an original\<close>

definition queued_in :: "externs \<Rightarrow> uuid \<Rightarrow> uuid \<Rightarrow> tables \<Rightarrow> bool" where
  "queued_in x b mid t \<longleftrightarrow> (b, queue_key_of x mid) \<in> queue_key ` set (jobs t)"

text \<open>
  The row of the content \<open>n\<close> is one that was there, or it is new and appended; and there is an
  entry in the queue for it, appended if there was none. Nothing else is different.
\<close>

definition published ::
    "externs \<Rightarrow> uuid \<Rightarrow> new_material \<Rightarrow> tables \<Rightarrow> material_row \<Rightarrow> tables \<Rightarrow> bool" where
  "published x b n t m t' \<longleftrightarrow>
     mr_bureau_id m = b \<and> content_key m = (nm_partner_id n, nm_sha256 n)
     \<and> (if m \<in> set (materials t) then materials t' = materials t
        else content_key m \<notin> content_key ` set (materials t) \<and> (\<exists>u d. m = new_material_row d u b n)
          \<and> materials t' = materials t @ [m])
     \<and> (if queued_in x b (mr_id m) t then jobs t' = jobs t
        else \<exists>u d. jobs t' = jobs t @ [new_job_row d u b (nm_partner_id n) (mr_id m) ExtractDocument
               (queue_key_of x (mr_id m))])
     \<and> bureaus t' = bureaus t \<and> partners t' = partners t \<and> sessions t' = sessions t"

definition outcome_for :: "tables \<Rightarrow> material_row \<Rightarrow> insert_outcome" where
  "outcome_for t m = (if m \<in> set (materials t) then Duplicate (material_of m) else Created (material_of m))"

lemma mat_id_outcome [simp]: "mat_id (outcome_material (outcome_for t m)) = mr_id m"
  by (simp add: outcome_for_def material_of_def)

lemma enqueued_tables:
  assumes "enqueue_extraction x pid mid t = (Ok out, t')"
  shows "tx_tables t' = (tx_tables t)\<lparr>jobs := jobs (tx_tables t')\<rparr>
    \<and> (if queued_in x (tx_bureau_id t) mid (tx_tables t) then jobs (tx_tables t') = jobs (tx_tables t)
       else \<exists>u d. jobs (tx_tables t') = jobs (tx_tables t) @
         [new_job_row d u (tx_bureau_id t) pid mid ExtractDocument (queue_key_of x mid)])"
  using assms
proof (cases rule: enqueue_extraction_Ok)
  case (added j)
  then obtain u d where j: "j = new_job_row d u (tx_bureau_id t) pid mid ExtractDocument (queue_key_of x mid)"
      "tx_tables t' = (tx_tables t)\<lparr>jobs := jobs (tx_tables t) @ [j]\<rparr>"
      "queue_key j \<notin> queue_key ` set (jobs (tx_tables t))"
    by (auto simp: job_added_row_def job_fits_def)
  then have "\<not> queued_in x (tx_bureau_id t) mid (tx_tables t)"
    by (simp add: queued_in_def queue_key_def new_job_row_def)
  with j show ?thesis by auto
next
  case (known j)
  then have "queued_in x (tx_bureau_id t) mid (tx_tables t)"
    by (auto simp: queued_in_def queue_key_def own_job_def own_row_def image_iff intro!: bexI [of _ j])
  with known(2) show ?thesis by (simp add: tx_same_def)
qed

lemma publish_body:
  assumes ins: "materials_insert n t = (Ok out, t1)"
    and enq: "enqueue_extraction x (nm_partner_id n) (mat_id (outcome_material out)) t1 = (Ok job, t2)"
  shows "\<exists>m. published x (tx_bureau_id t) n (tx_tables t) m (tx_tables t2) \<and> out = outcome_for (tx_tables t) m"
  using ins
proof (cases rule: materials_insert_Ok)
  case (created m)
  then obtain u d where m: "m = new_material_row d u (tx_bureau_id t) n"
      "tx_tables t1 = (tx_tables t)\<lparr>materials := materials (tx_tables t) @ [m]\<rparr>"
      "content_key m \<notin> content_key ` set (materials (tx_tables t))"
    by (auto simp: material_added_def material_fits_def)
  then have new: "m \<notin> set (materials (tx_tables t))" by blast
  with created(1) have out: "out = outcome_for (tx_tables t) m" by (simp add: outcome_for_def)
  have q: "queued_in x b mid (tx_tables t1) = queued_in x b mid (tx_tables t)" for b mid
    by (simp add: queued_in_def m(2))
  have "published x (tx_bureau_id t) n (tx_tables t) m (tx_tables t2)"
    using enqueued_tables [OF enq [unfolded out mat_id_outcome]] new m(3) unfolding created(3) q
    by (auto simp: published_def m(2) m(1) content_key_def new_material_row_def)
  with out show ?thesis by blast
next
  case (duplicate m)
  then have m: "m \<in> set (materials (tx_tables t))" "mr_bureau_id m = tx_bureau_id t"
      "content_key m = (nm_partner_id n, nm_sha256 n)" "tx_tables t1 = tx_tables t" "tx_bureau_id t1 = tx_bureau_id t"
    by (auto simp: own_material_def own_row_def content_key_def tx_same_def)
  with duplicate(1) have out: "out = outcome_for (tx_tables t) m" by (simp add: outcome_for_def)
  have "published x (tx_bureau_id t) n (tx_tables t) m (tx_tables t2)"
    using enqueued_tables [OF enq [unfolded out mat_id_outcome]] m
    by (auto simp: published_def)
  with out show ?thesis by blast
qed

lemma publish_cases:
  assumes "publish_material x b n d = (r, d')"
  shows "(\<exists>m. published x b n (db_tables d) m (db_tables d') \<and> (is_ok r \<longrightarrow> r = Ok (outcome_for (db_tables d) m)))
    \<or> \<not> is_ok r \<and> db_tables d' = db_tables d"
proof -
  let ?body = "st_then (materials_insert n) (\<lambda>outcome.
      st_then (enqueue_extraction x (nm_partner_id n) (mat_id (outcome_material outcome))) (\<lambda>job. st_ok outcome))"
  have body: "\<exists>m. published x b n (db_tables d) m (tx_tables t') \<and> out = outcome_for (db_tables d) m"
    if b: "?body t = (Ok out, t')" and t: "tx_started b d t" for t out t'
  proof -
    from b obtain t1 job where
      "materials_insert n t = (Ok out, t1)"
      "enqueue_extraction x (nm_partner_id n) (mat_id (outcome_material out)) t1 = (Ok job, t')"
      by (auto simp: outcome_simps)
    from publish_body [OF this] t show ?thesis by (simp add: tx_started_def)
  qed
  from assms [unfolded publish_material_def] show ?thesis
    by (cases rule: in_scoped_tx_cases) (auto dest!: body)
qed

text \<open>
  C4: An original is recorded together with its queue entry, or not at all. The transaction of an
  upload either leaves the tables as they were, and then it reported no success; or it finds or
  adds the one row of this content of this partner, and finds or adds the one entry of the queue
  for it, and nothing else; and the answer says which row, and truly whether it was new.
\<close>

theorem publish_all_or_nothing:
  assumes "publish_material x b n d = (r, d')"
  shows "(\<exists>m. published x b n (db_tables d) m (db_tables d') \<and> (is_ok r \<longrightarrow> r = Ok (outcome_for (db_tables d) m)))
    \<or> \<not> is_ok r \<and> db_tables d' = db_tables d"
  using assms by (rule publish_cases)

text \<open>The row of a content is unique.\<close>

lemma same_content:
  "tables_ok t \<Longrightarrow> m \<in> set (materials t) \<Longrightarrow> m' \<in> set (materials t) \<Longrightarrow> content_key m = content_key m' \<Longrightarrow> m = m'"
  by (auto simp: tables_ok_def material_table_ok_def distinct_map dest: inj_onD)

lemma published_again:
  assumes ok: "tables_ok t1" and once: "published x b n t m t1" and again: "published x b n t1 m' t2"
  shows "m' = m \<and> t2 = t1 \<and> m \<in> set (materials t1)"
proof -
  have m: "m \<in> set (materials t1)" and q: "queued_in x b (mr_id m) t1"
    using once by (auto simp: published_def queued_in_def queue_key_def new_job_row_def split: if_splits)
  have key: "content_key m' = content_key m" using once again by (simp add: published_def)
  have "m' \<in> set (materials t1)"
  proof (rule ccontr)
    assume "m' \<notin> set (materials t1)"
    with again have "content_key m' \<notin> content_key ` set (materials t1)" unfolding published_def by argo
    with key m show False by simp
  qed
  with same_content [OF ok _ m key] have "m' = m" by blast
  with again m q show ?thesis by (simp add: published_def)
qed

text \<open>
  C22: A repeated upload converges. When the transaction of an upload took effect, whether or not
  the client was told, uploading the same content to the same partner again finds that row:
  the answer is \<open>Duplicate\<close> with it, and the tables stay as they are.
\<close>

theorem publish_repeated:
  assumes "tables_ok (db_tables d)" "publish_material x b n d = (r, d1)"
    and "is_ok r \<or> db_tables d1 \<noteq> db_tables d"
    and "db_tables d2 = db_tables d1" "publish_material x b n d2 = (Ok out, d3)"
  shows "\<exists>m. out = Duplicate m \<and> db_tables d3 = db_tables d1 \<and> (\<forall>out1. r = Ok out1 \<longrightarrow> outcome_material out1 = m)"
proof -
  from publish_cases [OF assms(2)] assms(3) obtain m where
    m: "published x b n (db_tables d) m (db_tables d1)" "is_ok r \<longrightarrow> r = Ok (outcome_for (db_tables d) m)" by blast
  have ok: "tables_ok (db_tables d1)"
    by (rule st_keepsD [OF all_constraints.keeps_publish_material assms(1,2)]) simp
  from publish_cases [OF assms(5)] obtain m' where
    m': "published x b n (db_tables d1) m' (db_tables d3)" "out = outcome_for (db_tables d1) m'"
    by (auto simp: assms(4))
  from published_again [OF ok m(1) m'(1)] have "m' = m" "db_tables d3 = db_tables d1" "m \<in> set (materials (db_tables d1))"
    by auto
  with m(2) m'(2) show ?thesis by (auto simp: outcome_for_def is_ok_iff split: if_splits)
qed

section \<open>The same upload twice\<close>

definition sample_small :: new_material where
  "sample_small = \<lparr>nm_partner_id = 2, nm_filename = lit ''a.pdf'', nm_media_type = lit ''application/pdf'',
     nm_size_bytes = 6, nm_sha256 = replicate 64 48, nm_storage_key = lit ''k''\<rparr>"

definition sample_inserted_once :: "(db_error, insert_outcome) outcome \<times> scoped_tx" where
  "sample_inserted_once = materials_insert sample_small sample_tx"

definition sample_once :: "(db_error, job) outcome \<times> scoped_tx" where
  "sample_once = enqueue_extraction sample_externs 2 100 (snd sample_inserted_once)"

definition sample_inserted_twice :: "(db_error, insert_outcome) outcome \<times> scoped_tx" where
  "sample_inserted_twice = materials_insert sample_small
     \<lparr>tx_db = tx_db (snd sample_once), tx_bureau_id = 1, tx_context = Some 1\<rparr>"

definition sample_twice :: "(db_error, job) outcome \<times> scoped_tx" where
  "sample_twice = enqueue_extraction sample_externs 2 100 (snd sample_inserted_twice)"

definition outcome_id :: "(db_error, insert_outcome) outcome \<Rightarrow> uuid option" where
  "outcome_id r = (case r of Ok out \<Rightarrow> Some (mat_id (outcome_material out)) | _ \<Rightarrow> None)"

lemma sample_twice_checked:
  "case sample_inserted_once of (r1, t1) \<Rightarrow> case sample_once of (r2, t2) \<Rightarrow>
   case sample_inserted_twice of (r3, t3) \<Rightarrow> case sample_twice of (r4, t4) \<Rightarrow>
     outcome_id r1 = Some 100 \<and> is_ok r2 \<and> db_faults (tx_db t2) = [] \<and> outcome_id r3 = Some 100
     \<and> is_ok r4 \<and> db_faults (tx_db t4) = []"
  by code_simp

lemma sample_published_twice:
  obtains out1 d1 out2 d2 where
    "publish_material sample_externs 1 sample_small sample_partner_db = (Ok out1, d1)"
    "publish_material sample_externs 1 sample_small d1 = (Ok out2, d2)"
proof -
  obtain r1 t1 where 1: "sample_inserted_once = (r1, t1)" by fastforce
  obtain r2 t2 where 2: "sample_once = (r2, t2)" by fastforce
  obtain r3 t3 where 3: "sample_inserted_twice = (r3, t3)" by fastforce
  obtain r4 t4 where 4: "sample_twice = (r4, t4)" by fastforce
  note run = sample_twice_checked [unfolded 1 2 3 4 prod.case]
  from run obtain out1 j1 out2 j2 where r: "r1 = Ok out1" "mat_id (outcome_material out1) = 100" "r2 = Ok j1"
      "r3 = Ok out2" "mat_id (outcome_material out2) = 100" "r4 = Ok j2"
    by (auto simp: outcome_id_def is_ok_iff split: outcome.splits)
  have pid: "nm_partner_id sample_small = 2" by (simp add: sample_small_def)
  have "publish_material sample_externs 1 sample_small sample_partner_db = (Ok out1, tx_db t2)"
    using 1 2 run r pid sample_gate(2)
    by (intro publish_steps [of _ t2 _ _ _ t1 _ j1])
       (simp_all add: sample_inserted_once_def sample_once_def sample_tx_def)
  moreover have "publish_material sample_externs 1 sample_small (tx_db t2) = (Ok out2, tx_db t4)"
    using 3 [unfolded sample_inserted_twice_def 2 snd_conv] 4 [unfolded sample_twice_def 3 snd_conv] run r pid
    by (intro publish_steps [of _ t4 _ _ _ t3 _ j2]) simp_all
  ultimately show ?thesis by (rule that)
qed

lemma sample_partner_tables_ok: "tables_ok (db_tables sample_partner_db)"
proof -
  have "data_inv tables_ok sample_start_world"
    using sample_system_start by (simp add: system_start_def data_inv_def)
  from st_keepsD [OF all_constraints.keeps_session_extract this sample_gate_world] show ?thesis
    by (simp add: data_inv_def sample_partner_world_def)
qed

lemma publish_all_or_nothing_witness:
  "\<exists>out d m. publish_material sample_externs 1 sample_small sample_partner_db = (Ok out, d)
    \<and> published sample_externs 1 sample_small (db_tables sample_partner_db) m (db_tables d)
    \<and> out = outcome_for (db_tables sample_partner_db) m"
proof -
  obtain out1 d1 out2 d2 where "publish_material sample_externs 1 sample_small sample_partner_db = (Ok out1, d1)"
    by (rule sample_published_twice)
  with publish_all_or_nothing [OF this] show ?thesis by auto
qed

lemma publish_repeated_witness:
  "\<exists>out1 d1 m d2. publish_material sample_externs 1 sample_small sample_partner_db = (Ok out1, d1)
    \<and> publish_material sample_externs 1 sample_small d1 = (Ok (Duplicate m), d2)
    \<and> db_tables d2 = db_tables d1 \<and> outcome_material out1 = m"
proof -
  obtain out1 d1 out2 d2 where p: "publish_material sample_externs 1 sample_small sample_partner_db = (Ok out1, d1)"
      "publish_material sample_externs 1 sample_small d1 = (Ok out2, d2)"
    by (rule sample_published_twice)
  with publish_repeated [OF sample_partner_tables_ok p(1) _ refl p(2)] show ?thesis by auto
qed

end
