(* ===== verification/Retrying.thy ===== *)
theory Retrying
  imports Publishing
begin

text \<open>
  \<^verbatim>\<open>retry_material\<close>: the transaction that puts a failed or partial material and its queue entry
  back to the start, or changes nothing.
\<close>

section \<open>The statements\<close>

lemma get_in_partner_Ok:
  assumes "materials_get_in_partner pid mid t = (Ok r, t')"
  obtains (none) "r = None" "tx_same t t'" "\<And>m. own_material t pid m \<Longrightarrow> mr_id m \<noteq> mid"
  | (some) m where "r = Some \<lparr>sm_material = material_of m, sm_storage_key = mr_storage_key m\<rparr>"
      "tx_same t t'" "own_material t pid m" "mr_id m = mid"
proof -
  from assms obtain row t1 where st: "statement (\<lambda>t. (Ok (find (\<lambda>r. mr_id r = mid) (visible_materials t pid)), t)) t = (Ok row, t1)"
    and rest: "(case row of None \<Rightarrow> st_ok None | Some r \<Rightarrow> st_then (st_lift (material_from_row r)) (\<lambda>m.
        st_ok (Some \<lparr>sm_material = m, sm_storage_key = mr_storage_key r\<rparr>))) t1 = (Ok r, t')"
    unfolding materials_get_in_partner_def by (blast dest: st_then_Ok [THEN iffD1])
  from st have same: "tx_same t t1" and row: "row = find (\<lambda>r. mr_id r = mid) (visible_materials t1 pid)"
    by (auto elim: read_Ok)
  show ?thesis
  proof (cases row)
    case None
    have none_there: "mr_id m \<noteq> mid" if "own_material t pid m" for m
      using find_NoneD [OF row [symmetric, unfolded None], of m] that
      by (simp add: set_visible_materials own_material_same [OF same])
    from None rest have "r = None" "t' = t1" by (auto simp: outcome_simps)
    with same none_there show ?thesis by (intro none) auto
  next
    case (Some m)
    have m: "own_material t pid m" "mr_id m = mid"
      using find_SomeD [OF row [symmetric, unfolded Some]]
      by (simp_all add: set_visible_materials own_material_same [OF same])
    from Some rest have "r = Some \<lparr>sm_material = material_of m, sm_storage_key = mr_storage_key m\<rparr>" "t' = t1"
      by (auto simp: outcome_simps dest!: material_from_row_Ok)
    with same m show ?thesis by (intro some) auto
  qed
qed

lemma transpose_material: "transpose_ok (map_option material_from_row row) = Ok r \<Longrightarrow> r = map_option material_of row"
  by (cases row) (auto simp: outcome_simps dest: material_from_row_Ok)

lemma materials_requeue_Ok:
  assumes "materials_requeue pid mid t = (Ok r, t')"
  defines "hit \<equiv> \<lambda>m. own_row t (mr_bureau_id m) \<and> mr_partner_id m = pid \<and> mr_id m = mid"
  shows "r = map_option material_of (first_updated hit (requeued_material (db_now (tx_db t))) (materials (tx_tables t)))
    \<and> tx_tables t' = (tx_tables t)\<lparr>materials :=
        update_rows hit (requeued_material (db_now (tx_db t))) (materials (tx_tables t))\<rparr>
    \<and> tx_bureau_id t' = tx_bureau_id t \<and> tx_context t' = tx_context t \<and> db_now (tx_db t') = db_now (tx_db t)"
proof -
  let ?q = "\<lambda>t. let hit = (\<lambda>r. own_row t (mr_bureau_id r) \<and> mr_partner_id r = pid \<and> mr_id r = mid);
           f = requeued_material (db_now (tx_db t)); rows = materials (tx_tables t)
       in (Ok (first_updated hit f rows), set_tables ((tx_tables t)\<lparr>materials := update_rows hit f rows\<rparr>) t)"
  from assms(1) obtain row where q: "statement ?q t = (Ok row, t')"
    and row: "transpose_ok (map_option material_from_row row) = Ok r"
    by (auto simp: materials_requeue_def outcome_simps)
  let ?hit = "\<lambda>t0 m. own_row t0 (mr_bureau_id m) \<and> mr_partner_id m = pid \<and> mr_id m = mid"
  from q obtain t0 where same: "tx_same t t0"
    and row0: "row = first_updated (?hit t0) (requeued_material (db_now (tx_db t0))) (materials (tx_tables t0))"
    and t': "t' = set_tables ((tx_tables t0)\<lparr>materials := update_rows (?hit t0)
        (requeued_material (db_now (tx_db t0))) (materials (tx_tables t0))\<rparr>) t0"
    by (auto simp: Let_def elim!: statement_Ok)
  have "own_row t0 = own_row t" using same by (auto simp: tx_same_own fun_eq_iff)
  with same have hit: "?hit t0 = hit" "db_now (tx_db t0) = db_now (tx_db t)" "tx_tables t0 = tx_tables t"
    by (simp_all add: hit_def tx_same_def)
  note row0 [unfolded hit] t' [unfolded hit]
  with transpose_material [OF row] same show ?thesis
    by (simp add: set_tables_def tx_tables_def tx_same_def)
qed

section \<open>The queue entry\<close>

text \<open>Every entry of the queue carries the key of its material; the code writes no other.\<close>

definition queue_keyed :: "externs \<Rightarrow> tables \<Rightarrow> bool" where
  "queue_keyed x t \<longleftrightarrow> (\<forall>j\<in>set (jobs t). jr_idempotency_key j = queue_key_of x (jr_material_id j))"

definition startable :: "job_row \<Rightarrow> bool" where
  "startable j \<longleftrightarrow> jr_status j = lit ''queued'' \<and> jr_lease_owner j = None \<and> jr_attempts j < jr_max_attempts j"

text \<open>The entry of one material is startable, and all others are as they were.\<close>

definition queue_reset :: "uuid \<times> uuid \<times> uuid \<Rightarrow> job_row list \<Rightarrow> job_row list \<Rightarrow> bool" where
  "queue_reset k js js' \<longleftrightarrow> (\<exists>j\<in>set js'. job_material_key j = k) \<and> (\<forall>j\<in>set js'. job_material_key j = k \<longrightarrow> startable j)
     \<and> filter (\<lambda>j. job_material_key j \<noteq> k) js' = filter (\<lambda>j. job_material_key j \<noteq> k) js"

lemma requeued_job_fields [simp]:
  "job_material_key (requeued_job now j) = job_material_key j" "startable (requeued_job now j)"
  "jr_idempotency_key (requeued_job now j) = jr_idempotency_key j"
  "jr_material_id (requeued_job now j) = jr_material_id j"
  by (simp_all add: requeued_job_def job_material_key_def startable_def)

lemma new_job_startable [simp]: "startable (new_job_row d u b pid mid kind key)"
  by (simp add: new_job_row_def startable_def)

lemma update_rows_none: "find hit rows = None \<Longrightarrow> update_rows hit f rows = rows"
  by (auto simp: update_rows_def find_None_iff intro: map_idI)

lemma update_rows_set: "r \<in> set (update_rows hit f rows) \<longleftrightarrow> (\<exists>q\<in>set rows. r = (if hit q then f q else q))"
  by (auto simp: update_rows_def)

lemma queue_key_inj:
  "uuid_documented x \<Longrightarrow> queue_key_of x a = queue_key_of x c \<longleftrightarrow> a = c"
  by (rule idempotency_key_inj [OF uuid_display_inj])

text \<open>An entry with the key of a material is the entry of that material.\<close>

lemma keyed_entry:
  assumes "tables_ok t" "uuid_documented x" "queue_keyed x t" "queued_in x b mid t"
    and "(b, pid, mid) \<in> material_key ` set (materials t)"
  shows "\<exists>j\<in>set (jobs t). job_material_key j = (b, pid, mid)"
proof -
  from assms(4) obtain j where j: "j \<in> set (jobs t)" "jr_bureau_id j = b" "jr_idempotency_key j = queue_key_of x mid"
    by (auto simp: queued_in_def queue_key_def)
  with assms(2,3) have mid: "jr_material_id j = mid" by (auto simp: queue_keyed_def queue_key_inj)
  from j(1) assms(1) have "job_material_key j \<in> material_key ` set (materials t)"
    by (auto simp: tables_ok_def job_table_ok_def list_all_iff)
  with mid assms(5) obtain m m' where m: "m \<in> set (materials t)" "m' \<in> set (materials t)" "mr_id m = mr_id m'"
      "material_key m = job_material_key j" "material_key m' = (b, pid, mid)"
    by (auto simp: material_key_def job_material_key_def)
  moreover have "distinct (map mr_id (materials t))"
    using assms(1) by (simp add: tables_ok_def material_table_ok_def)
  ultimately have "m = m'" by (auto simp: distinct_map dest: inj_onD)
  with m j(1) show ?thesis by auto
qed

lemma requeue_extraction_Ok:
  assumes run: "requeue_extraction x pid mid t = (Ok job, t')"
    and ok: "tables_ok (tx_tables t)" "tx_context t = Some (tx_bureau_id t)"
    and keyed: "uuid_documented x" "queue_keyed x (tx_tables t)"
    and there: "(tx_bureau_id t, pid, mid) \<in> material_key ` set (materials (tx_tables t))"
  defines "k \<equiv> (tx_bureau_id t, pid, mid)"
  shows "tx_tables t' = (tx_tables t)\<lparr>jobs := jobs (tx_tables t')\<rparr>
    \<and> queue_reset k (jobs (tx_tables t)) (jobs (tx_tables t'))"
proof -
  let ?hit = "\<lambda>t0 j. own_row t0 (jr_bureau_id j) \<and> jr_partner_id j = pid \<and> jr_material_id j = mid
      \<and> jr_idempotency_key j = queue_key_of x mid"
  let ?f = "\<lambda>t0. requeued_job (db_now (tx_db t0))"
  let ?q = "\<lambda>t0. if \<not> list_all (\<lambda>j. ?hit t0 j \<longrightarrow> jr_attempts j + 1 \<le> i32_max) (jobs (tx_tables t0)) then (Err out_of_range, t0)
      else (Ok (first_updated (?hit t0) (?f t0) (jobs (tx_tables t0))),
        set_tables ((tx_tables t0)\<lparr>jobs := update_rows (?hit t0) (?f t0) (jobs (tx_tables t0))\<rparr>) t0)"
  from run obtain row t1 where q: "statement ?q t = (Ok row, t1)"
    and rest: "(case row of Some r \<Rightarrow> st_lift (job_from_row r) | None \<Rightarrow> enqueue_extraction x pid mid) t1 = (Ok job, t')"
    unfolding requeue_extraction_def Let_def by (blast dest: st_then_Ok [THEN iffD1])
  from q obtain t0 where same: "tx_same t t0"
    and row: "row = first_updated (?hit t0) (?f t0) (jobs (tx_tables t0))"
    and t1: "t1 = set_tables ((tx_tables t0)\<lparr>jobs := update_rows (?hit t0) (?f t0) (jobs (tx_tables t0))\<rparr>) t0"
    by (auto elim!: statement_Ok split: if_splits)
  have own: "own_row t0 c \<longleftrightarrow> c = tx_bureau_id t" for c
    using same ok(2) by (auto simp: tx_same_def own_row_def rls_visible_def)
  have hit: "?hit t0 j \<longleftrightarrow> job_material_key j = k" if "j \<in> set (jobs (tx_tables t))" for j
    using that keyed by (auto simp: k_def job_material_key_def queue_keyed_def own)
  have tabs: "tx_tables t0 = tx_tables t" using same by (simp add: tx_same_def)
  have upd: "update_rows (?hit t0) (?f t0) (jobs (tx_tables t))
      = update_rows (\<lambda>j. job_material_key j = k) (?f t0) (jobs (tx_tables t))"
    using hit by (auto simp: update_rows_def)
  have t1_tables: "tx_tables t1 = (tx_tables t)\<lparr>jobs :=
      update_rows (\<lambda>j. job_material_key j = k) (?f t0) (jobs (tx_tables t))\<rparr>"
    using t1 [unfolded tabs upd] by (simp add: set_tables_def tx_tables_def)
  show ?thesis
  proof (cases row)
    case (Some r)
    with rest have "t' = t1" by (auto simp: outcome_simps)
    then have jobs': "tx_tables t' = (tx_tables t)\<lparr>jobs := update_rows (\<lambda>j. job_material_key j = k) (?f t0) (jobs (tx_tables t))\<rparr>"
      using t1_tables by simp
    obtain q where "q \<in> set (jobs (tx_tables t))" "job_material_key q = k"
      using row Some hit by (auto simp: tabs dest!: sym [of "Some r"] first_updated_Some)
    then have "requeued_job (db_now (tx_db t0)) q \<in> set (update_rows (\<lambda>j. job_material_key j = k) (?f t0) (jobs (tx_tables t)))"
        "job_material_key (requeued_job (db_now (tx_db t0)) q) = k"
      by (auto simp: update_rows_set)
    then have "\<exists>j\<in>set (jobs (tx_tables t')). job_material_key j = k"
      unfolding jobs' by (intro bexI [of _ "requeued_job (db_now (tx_db t0)) q"]) simp_all
    then show ?thesis
      by (auto simp: jobs' queue_reset_def update_rows_set filter_update_rows)
  next
    case None
    then have none: "\<forall>j\<in>set (jobs (tx_tables t)). job_material_key j \<noteq> k"
      using row hit by (auto simp: tabs dest!: sym [of None] first_updated_None [THEN iffD1])
    then have "tx_tables t1 = tx_tables t"
      using t1_tables by (simp add: update_rows_none find_None_iff)
    moreover have "tx_bureau_id t1 = tx_bureau_id t" using same t1 by (simp add: set_tables_def tx_same_def)
    moreover from rest None have "enqueue_extraction x pid mid t1 = (Ok job, t')" by simp
    ultimately have enq: "tx_tables t' = (tx_tables t)\<lparr>jobs := jobs (tx_tables t')\<rparr>"
      "if queued_in x (tx_bureau_id t) mid (tx_tables t) then jobs (tx_tables t') = jobs (tx_tables t)
       else \<exists>u d. jobs (tx_tables t') = jobs (tx_tables t) @
         [new_job_row d u (tx_bureau_id t) pid mid ExtractDocument (queue_key_of x mid)]"
      using enqueued_tables [of x pid mid t1 job t'] by auto
    have "\<not> queued_in x (tx_bureau_id t) mid (tx_tables t)"
      using keyed_entry [OF ok(1) keyed _ there] none by (auto simp: k_def)
    with enq obtain u d where "jobs (tx_tables t') = jobs (tx_tables t) @
         [new_job_row d u (tx_bureau_id t) pid mid ExtractDocument (queue_key_of x mid)]" by auto
    moreover have "job_material_key (new_job_row d u (tx_bureau_id t) pid mid ExtractDocument (queue_key_of x mid)) = k"
      by (simp add: k_def job_material_key_def new_job_row_def)
    ultimately show ?thesis using enq(1) none by (auto simp: queue_reset_def)
  qed
qed

section \<open>The retry\<close>

text \<open>What a retry of the material with the key \<open>k\<close> makes of the tables.\<close>

definition retried :: "uuid \<times> uuid \<times> uuid \<Rightarrow> tables \<Rightarrow> material_row \<Rightarrow> timestamp \<Rightarrow> tables \<Rightarrow> bool" where
  "retried k t m now t' \<longleftrightarrow>
     m \<in> set (materials t) \<and> material_key m = k \<and> can_retry (mat_status (material_of m))
     \<and> materials t' = update_rows (\<lambda>r. material_key r = k) (requeued_material now) (materials t)
     \<and> queue_reset k (jobs t) (jobs t')
     \<and> bureaus t' = bureaus t \<and> partners t' = partners t \<and> sessions t' = sessions t"

definition retry_body :: "externs \<Rightarrow> uuid \<Rightarrow> uuid \<Rightarrow> (scoped_tx, api_error, material) stateful" where
  "retry_body x pid mid =
     st_then (repo (materials_get_in_partner pid mid)) (\<lambda>stored.
     st_then (st_lift (ok_or material_not_found stored)) (\<lambda>stored.
     if \<not> can_retry (mat_status (sm_material stored)) then
       st_err (api_error_new (retry_refusal (mat_status (sm_material stored))))
     else
       st_then (repo (materials_requeue pid mid)) (\<lambda>material.
       st_then (st_lift (ok_or material_not_found material)) (\<lambda>material.
       st_then (repo (requeue_extraction x pid mid)) (\<lambda>job.
       st_ok material)))))"

lemma retry_material_body:
  "retry_material x s (pid, mid) = st_then (in_tx s (retry_body x pid mid)) (\<lambda>material.
     st_ok (json_response 200 (MaterialBody material)))"
  by (simp add: retry_material_def retry_body_def)

lemma first_updated_same_key:
  assumes "tables_ok t" "m \<in> set (materials t)"
  shows "first_updated (\<lambda>r. material_key r = material_key m) f (materials t) = Some (f m)"
proof -
  have d: "distinct (map mr_id (materials t))" using assms(1) by (simp add: tables_ok_def material_table_ok_def)
  then have "r = m" if "r \<in> set (materials t)" "material_key r = material_key m" for r
    using that assms(2) by (auto simp: material_key_def distinct_map dest: inj_onD)
  moreover obtain r where "find (\<lambda>r. material_key r = material_key m) (materials t) = Some r"
    using assms(2) by (cases "find (\<lambda>r. material_key r = material_key m) (materials t)") (auto simp: find_None_iff)
  ultimately show ?thesis by (auto simp: first_updated_def dest!: find_SomeD)
qed

lemma only_jobs:
  "(t' :: tables) = t\<lparr>jobs := js\<rparr> \<Longrightarrow> materials t' = materials t \<and> bureaus t' = bureaus t \<and> partners t' = partners t
    \<and> sessions t' = sessions t"
  by simp

lemma retry_body_Ok:
  assumes run: "retry_body x pid mid t = (Ok material, t')"
    and ok: "tables_ok (tx_tables t)" "tx_context t = Some (tx_bureau_id t)"
    and keyed: "uuid_documented x" "queue_keyed x (tx_tables t)"
  shows "\<exists>m now. retried (tx_bureau_id t, pid, mid) (tx_tables t) m now (tx_tables t')
    \<and> material = material_of (requeued_material now m)"
proof -
  let ?k = "(tx_bureau_id t, pid, mid)"
  from run obtain stored t1 mat t2 job where
    get: "materials_get_in_partner pid mid t = (Ok (Some stored), t1)"
    and can: "can_retry (mat_status (sm_material stored))"
    and req: "materials_requeue pid mid t1 = (Ok (Some mat), t2)"
    and enq: "requeue_extraction x pid mid t2 = (Ok job, t')" and mat: "mat = material"
    by (auto simp: retry_body_def outcome_simps split: if_splits)
  from get obtain m where m: "stored = \<lparr>sm_material = material_of m, sm_storage_key = mr_storage_key m\<rparr>"
      "tx_same t t1" "own_material t pid m" "mr_id m = mid"
    by (cases rule: get_in_partner_Ok) auto
  then have key: "m \<in> set (materials (tx_tables t))" "material_key m = ?k"
    by (auto simp: own_material_def own_row_def material_key_def)
  let ?now = "db_now (tx_db t1)"
  have tabs: "tx_tables t1 = tx_tables t" "tx_bureau_id t1 = tx_bureau_id t" "tx_context t1 = tx_context t"
    using m(2) by (simp_all add: tx_same_def)
  have hit: "(\<lambda>r. own_row t1 (mr_bureau_id r) \<and> mr_partner_id r = pid \<and> mr_id r = mid) = (\<lambda>r. material_key r = ?k)"
    using ok(2) by (auto simp: fun_eq_iff own_row_def rls_visible_def material_key_def tabs)
  from materials_requeue_Ok [OF req, unfolded hit tabs(1)] have
    row: "mat = material_of (requeued_material ?now m)"
    and t2: "tx_tables t2 = (tx_tables t)\<lparr>materials := update_rows (\<lambda>r. material_key r = ?k) (requeued_material ?now) (materials (tx_tables t))\<rparr>"
      "tx_bureau_id t2 = tx_bureau_id t" "tx_context t2 = tx_context t"
    using first_updated_same_key [OF ok(1) key(1)] by (simp_all add: key(2) tabs)
  have "tables_ok (tx_tables t2)"
    using constraints.materials_requeued [OF ok(1), of "\<lambda>r. material_key r = ?k" "tx_bureau_id t"]
    by (simp add: t2(1) material_key_def)
  moreover have "?k \<in> material_key ` set (materials (tx_tables t2))"
    using imageI [OF key(1), of material_key] by (simp add: t2(1) material_keys_requeued key(2))
  moreover have "queue_keyed x (tx_tables t2)" using keyed(2) by (simp add: t2(1) queue_keyed_def)
  ultimately have jobs': "tx_tables t' = (tx_tables t2)\<lparr>jobs := jobs (tx_tables t')\<rparr>"
    and reset: "queue_reset ?k (jobs (tx_tables t2)) (jobs (tx_tables t'))"
    using requeue_extraction_Ok [OF enq] ok(2) keyed(1) by (auto simp: t2(2,3))
  have "retried ?k (tx_tables t) m ?now (tx_tables t')"
    using key can m(1) only_jobs [OF jobs'] reset by (simp add: retried_def t2(1))
  with row mat show ?thesis by blast
qed

lemma retry_cases:
  assumes run: "retry_material x s (pid, mid) w = (r, w')"
    and ok: "tables_ok (db_tables (w_db w))" "uuid_documented x" "queue_keyed x (db_tables (w_db w))"
  shows "(\<exists>m now. retried (session_bureau_id s, pid, mid) (db_tables (w_db w)) m now (db_tables (w_db w'))
        \<and> (is_ok r \<longrightarrow> r = Ok (json_response 200 (MaterialBody (material_of (requeued_material now m))))))
    \<or> \<not> is_ok r \<and> db_tables (w_db w') = db_tables (w_db w)"
proof -
  let ?b = "session_bureau_id s" and ?T = "db_tables (w_db w)"
  obtain r1 d1 where tx: "in_scoped_tx api_of_db ?b (retry_body x pid mid) (w_db w) = (r1, d1)" by fastforce
  with run have r: "w_db w' = d1"
      "r = (case r1 of Ok m \<Rightarrow> Ok (json_response 200 (MaterialBody m)) | Err e \<Rightarrow> Err e | Panic \<Rightarrow> Panic)"
    by (auto simp: retry_material_body in_tx_def on_db_def st_then_def st_ok_def split: outcome.splits)
  have body: "\<exists>m now. retried (?b, pid, mid) ?T m now (tx_tables t') \<and> a = material_of (requeued_material now m)"
    if "retry_body x pid mid t = (Ok a, t')" "tx_started ?b (w_db w) t" for t a t'
    using retry_body_Ok [OF that(1)] that(2) ok by (simp add: tx_started_def)
  from tx show ?thesis
    by (cases rule: in_scoped_tx_cases) (auto simp: r dest!: body)
qed


section \<open>A concrete retry\<close>

lemma retry_steps:
  assumes "db_faults (w_db w) = []" "db_faults (tx_db t3) = []"
    and "materials_get_in_partner pid mid
      \<lparr>tx_db = w_db w, tx_bureau_id = session_bureau_id s, tx_context = Some (session_bureau_id s)\<rparr> = (Ok (Some stored), t1)"
    and "can_retry (mat_status (sm_material stored))"
    and "materials_requeue pid mid t1 = (Ok (Some m), t2)" "requeue_extraction x pid mid t2 = (Ok job, t3)"
  shows "retry_material x s (pid, mid) w = (Ok (json_response 200 (MaterialBody m)), w\<lparr>w_db := tx_db t3\<rparr>)"
  using assms
  by (simp add: retry_material_body retry_body_def in_tx_def on_db_def in_scoped_tx_def begin_scoped_def
      tx_commit_def next_db_fault_def st_then_def st_ok_def st_lift_def st_map_err_def)

definition sample_failed_db :: db where
  "sample_failed_db = sample_start_db\<lparr>db_tables := (db_tables sample_start_db)
     \<lparr>materials := [(new_material_row sample_start_db 100 1 sample_small)\<lparr>mr_status := lit ''failed''\<rparr>],
      jobs := [(new_job_row sample_start_db 101 1 2 100 ExtractDocument (queue_key_of sample_externs 100))
        \<lparr>jr_status := lit ''failed'', jr_attempts := 5\<rparr>]\<rparr>\<rparr>"

definition sample_got :: "(db_error, stored_material option) outcome \<times> scoped_tx" where
  "sample_got = materials_get_in_partner 2 100 \<lparr>tx_db = sample_failed_db, tx_bureau_id = 1, tx_context = Some 1\<rparr>"

definition sample_requeued :: "(db_error, material option) outcome \<times> scoped_tx" where
  "sample_requeued = materials_requeue 2 100 (snd sample_got)"

definition sample_reset :: "(db_error, job) outcome \<times> scoped_tx" where
  "sample_reset = requeue_extraction sample_externs 2 100 (snd sample_requeued)"

lemma sample_retry_checked:
  "case sample_got of (r1, t1) \<Rightarrow> case sample_requeued of (r2, t2) \<Rightarrow> case sample_reset of (r3, t3) \<Rightarrow>
     (case r1 of Ok (Some stored) \<Rightarrow> can_retry (mat_status (sm_material stored)) | _ \<Rightarrow> False)
     \<and> (case r2 of Ok (Some m) \<Rightarrow> True | _ \<Rightarrow> False) \<and> is_ok r3 \<and> db_faults (tx_db t3) = []"
  by code_simp

lemma sample_failed_ok: "tables_ok (db_tables sample_failed_db)" "queue_keyed sample_externs (db_tables sample_failed_db)"
proof -
  have "material_table_ok (partner_key ` set (partners (db_tables sample_failed_db))) (materials (db_tables sample_failed_db))"
    by code_simp
  moreover have "job_table_ok (material_key ` set (materials (db_tables sample_failed_db))) (jobs (db_tables sample_failed_db))"
    by code_simp
  moreover have "tables_ok (db_tables sample_start_db)"
    using sample_system_start by (simp add: system_start_def sample_start_world_def)
  ultimately show "tables_ok (db_tables sample_failed_db)"
    by (simp add: tables_ok_def sample_failed_db_def)
  show "queue_keyed sample_externs (db_tables sample_failed_db)"
    by (simp add: queue_keyed_def sample_failed_db_def new_job_row_def)
qed


end
