(* ===== verification/Downloads.thy ===== *)
theory Downloads
  imports Retrying
begin

text \<open>
  \<^verbatim>\<open>download_original\<close> on the running system: what it serves is the recorded original of this
  partner, and while database and file system answer it serves every one of them.
\<close>

section \<open>A quiet database\<close>

lemma statement_quiet: "db_faults (tx_db t) = [] \<Longrightarrow> statement q t = st_map_err DbSqlx q t"
  by (simp add: statement_def next_db_fault_def)

definition tx_of :: "uuid \<Rightarrow> db \<Rightarrow> scoped_tx" where
  "tx_of b d = \<lparr>tx_db = d, tx_bureau_id = b, tx_context = Some b\<rparr>"

lemma tx_of_simps [simp]:
  "tx_db (tx_of b d) = d" "tx_tables (tx_of b d) = db_tables d" "own_row (tx_of b d) c \<longleftrightarrow> c = b"
  by (auto simp: tx_of_def tx_tables_def own_row_def rls_visible_def)

text \<open>A transaction that only reads, while the database answers.\<close>

lemma in_tx_read:
  assumes "db_faults (w_db w) = []"
    and "body (tx_of (session_bureau_id s) (w_db w)) = (r, tx_of (session_bureau_id s) (w_db w))"
  shows "in_tx s body w = (r, w)"
  using assms
  by (cases r)
     (simp_all add: in_tx_def on_db_def in_scoped_tx_def begin_scoped_def next_db_fault_def tx_commit_def
       tx_rollback_def tx_of_def)

lemma get_in_partner_quiet:
  assumes "db_faults d = []" "tables_ok (db_tables d)"
    and "m \<in> set (materials (db_tables d))" "material_key m = (b, pid, mid)"
  shows "materials_get_in_partner pid mid (tx_of b d)
    = (Ok (Some \<lparr>sm_material = material_of m, sm_storage_key = mr_storage_key m\<rparr>), tx_of b d)"
proof -
  let ?rows = "visible_materials (tx_of b d) pid"
  from assms(3,4) have "m \<in> set ?rows" "mr_id m = mid"
    by (auto simp: visible_materials_def material_key_def)
  then obtain r where f: "find (\<lambda>r. mr_id r = mid) ?rows = Some r"
    by (cases "find (\<lambda>r. mr_id r = mid) ?rows") (auto simp: find_None_iff)
  from find_SomeD [OF f] have r: "r \<in> set (materials (db_tables d))" "mr_id r = mid"
    by (auto simp: visible_materials_def)
  have "distinct (map mr_id (materials (db_tables d)))"
    using assms(2) by (simp add: tables_ok_def material_table_ok_def)
  then have "r = m" using r assms(3) \<open>mr_id m = mid\<close> by (auto simp: distinct_map dest: inj_onD)
  moreover have "material_check m" using assms(2,3) by (rule tables_material_checked)
  ultimately show ?thesis
    using f assms(1)
    by (simp add: materials_get_in_partner_def statement_quiet st_then_def st_map_err_def st_ok_def st_lift_def
        material_from_row_checked)
qed

section \<open>What is served\<close>

text \<open>
  The answer carries the bytes of the original of the row, and tells the browser to save it and
  not to guess its type or keep it.
\<close>

definition serves :: "externs \<Rightarrow> (ustr \<Rightarrow> bool) \<Rightarrow> world \<Rightarrow> uuid \<times> uuid \<times> uuid \<Rightarrow> response \<Rightarrow> bool" where
  "serves x h w k resp \<longleftrightarrow>
     (\<exists>m body. m \<in> set (materials (db_tables (w_db w))) \<and> material_key m = k
        \<and> resp = download_response h (material_of m) body
        \<and> content_digest x (ob_content body) = mr_sha256 m
        \<and> ob_size_bytes body = of_nat (length (ob_content body)))"

definition guarded_download :: "response \<Rightarrow> bool" where
  "guarded_download r \<longleftrightarrow> rs_status r = 200
     \<and> (lit ''x-content-type-options'', lit ''nosniff'') \<in> set (rs_headers r)
     \<and> (lit ''cache-control'', lit ''private, no-store'') \<in> set (rs_headers r)
     \<and> (\<forall>v. (lit ''content-disposition'', v) \<in> set (rs_headers r) \<longrightarrow> prefix (lit ''attachment; filename='') v)"

lemma download_response_guarded: "guarded_download (download_response h m body)"
  by (auto simp: guarded_download_def download_response_def with_header_def insert_header_def Let_def lit_inj
      content_disposition_def Option.bind_eq_Some_conv split: option.splits if_splits)

lemma recorded_row:
  assumes "uuid_documented x" "recorded_in x st A w" "m \<in> set (materials (db_tables (w_db w)))"
  shows "mr_storage_key m = key_text x (row_namespace m) (mr_sha256 m)" "is_sha256_hex (mr_sha256 m)"
    "store_inv x st A (w_fs w)" "material_check m"
  using assms
  by (auto simp: recorded_in_def data_inv_def rows_in_def keyed_in_def list_all_iff store_world_def
      material_check_def hex64_def is_sha256_hex_iff dest: tables_material_checked)

lemma download_Ok:
  assumes docs: "uuid_documented x" and w: "recorded_in x st A w"
    and run: "download_original x h st s (pid, mid) w = (Ok resp, w')"
  shows "serves x h w (session_bureau_id s, pid, mid) resp"
proof -
  let ?b = "session_bureau_id s"
  from run obtain stored w1 key body where
    get: "in_tx s (repo (materials_get_in_partner pid mid)) w = (Ok (Some stored), w1)"
    and key: "object_key_parse x (sm_storage_key stored) = Ok key"
    and opened: "on_fs (open_object st key) w1 = (Ok body, w')"
    and resp: "resp = download_response h (sm_material stored) body"
    by (auto simp: download_original_def outcome_simps)
  from get have "in_scoped_tx api_of_db ?b (repo (materials_get_in_partner pid mid)) (w_db w) = (Ok (Some stored), w_db w1)"
      and fs: "w_fs w1 = w_fs w"
    by (auto simp: in_tx_def on_db_def split: prod.splits)
  then obtain t t' where t: "tx_started ?b (w_db w) t" "materials_get_in_partner pid mid t = (Ok (Some stored), t')"
    by (cases rule: in_scoped_tx_cases) (auto simp: outcome_simps)
  from t(2) obtain m where m: "stored = \<lparr>sm_material = material_of m, sm_storage_key = mr_storage_key m\<rparr>"
      "own_material t pid m" "mr_id m = mid"
    by (cases rule: get_in_partner_Ok) auto
  with t(1) have row: "m \<in> set (materials (db_tables (w_db w)))" "material_key m = (?b, pid, mid)"
    by (auto simp: own_material_def tx_started_own material_key_def tx_started_def own_row_def)
  note r = recorded_row [OF docs w row(1)]
  have "key = ObjectKey (key_text x (row_namespace m) (mr_sha256 m))"
    using key m(1) r(1) key_text_parses [OF docs r(2)] by simp
  moreover from opened obtain v where "open_object st key (w_fs w) = (Ok body, v)"
    by (auto simp: on_fs_def fs split: prod.splits)
  ultimately have "content_digest x (ob_content body) = mr_sha256 m \<and> ob_size_bytes body = of_nat (length (ob_content body))"
    using store_inv_open_Ok [OF docs r(3,2)] by blast
  moreover have "resp = download_response h (material_of m) body" using resp m(1) by simp
  ultimately show ?thesis using row unfolding serves_def by blast
qed

lemma download_quiet:
  assumes docs: "uuid_documented x" and w: "recorded_in x st A w"
    and m: "m \<in> set (materials (db_tables (w_db w)))" "material_key m = (session_bureau_id s, pid, mid)"
    and quiet: "db_faults (w_db w) = []" "fs_faults (w_fs w) = []"
  shows "\<exists>resp. download_original x h st s (pid, mid) w = (Ok resp, w)"
proof -
  from w have ok: "tables_ok (db_tables (w_db w))" by (simp add: recorded_in_def data_inv_def)
  have get: "in_tx s (repo (materials_get_in_partner pid mid)) w
      = (Ok (Some \<lparr>sm_material = material_of m, sm_storage_key = mr_storage_key m\<rparr>), w)"
    by (rule in_tx_read [OF quiet(1)]) (simp add: get_in_partner_quiet [OF quiet(1) ok m] st_map_err_def)
  from recorded_row_reads [OF docs w m(1) quiet(2)] obtain k b where
    k: "object_key_parse x (mr_storage_key m) = Ok k" "open_object st k (w_fs w) = (Ok b, w_fs w)" by blast
  then show ?thesis
    by (simp add: download_original_def st_then_def get st_lift_def st_map_err_def on_fs_def st_ok_def)
qed

text \<open>
  C15: A download is the recorded original. In every reachable state, whatever is served for a
  partner and a material is the stored content of a material of exactly this bureau and partner
  with this identifier: its bytes hash to the recorded digest, the declared length is theirs, and the
  headers keep a browser from rendering or caching it. And while database and file system
  answer, every recorded material of the session's bureau is served.
\<close>

theorem download_serves_original:
  assumes "uuid_documented x" "sha256_documented x" "store_layout st"
    and "system_start x st w0" "system_reachable x h c st ms w0 (w, us)"
  shows "(\<forall>resp w'. download_original x h st s (pid, mid) w = (Ok resp, w') \<longrightarrow>
        serves x h w (session_bureau_id s, pid, mid) resp \<and> guarded_download resp)
    \<and> (\<forall>m\<in>set (materials (db_tables (w_db w))). material_key m = (session_bureau_id s, pid, mid)
        \<and> db_faults (w_db w) = [] \<and> fs_faults (w_fs w) = []
        \<longrightarrow> (\<exists>resp. download_original x h st s (pid, mid) w = (Ok resp, w)))"
proof -
  from system_reachable_inv [OF assms] obtain A where A: "recorded_in x st A w"
    by (auto simp: system_inv_def)
  show ?thesis
  proof (intro conjI allI ballI impI; (elim conjE)?)
    fix resp w' assume "download_original x h st s (pid, mid) w = (Ok resp, w')"
    from download_Ok [OF assms(1) A this] show "serves x h w (session_bureau_id s, pid, mid) resp" .
    then show "guarded_download resp" by (auto simp: serves_def download_response_guarded)
  next
    fix m assume "m \<in> set (materials (db_tables (w_db w)))" "material_key m = (session_bureau_id s, pid, mid)"
      "db_faults (w_db w) = []" "fs_faults (w_fs w) = []"
    from download_quiet [OF assms(1) A this]
    show "\<exists>resp. download_original x h st s (pid, mid) w = (Ok resp, w)" .
  qed
qed

lemma download_serves_original_witness:
  "\<exists>w s pid mid resp. download_original sample_externs (\<lambda>v. True) sample_store s (pid, mid) w = (Ok resp, w)
    \<and> serves sample_externs (\<lambda>v. True) w (session_bureau_id s, pid, mid) resp \<and> guarded_download resp"
proof -
  obtain w us m where run:
    "system_reachable sample_externs (\<lambda>v. True) sample_config sample_store default_settings sample_start_world (w, us)"
    "materials (db_tables (w_db w)) = [m]" "fs_faults (w_fs w) = []" "db_faults (w_db w) = []"
    by (rule sample_run)
  let ?s = "sample_session\<lparr>session_bureau_id := mr_bureau_id m\<rparr>"
  have m: "m \<in> set (materials (db_tables (w_db w)))"
      "material_key m = (session_bureau_id ?s, mr_partner_id m, mr_id m)"
    by (simp_all add: run material_key_def)
  note serve = download_serves_original [OF sample_uuid_documented sample_sha256_documented sample_layout
      sample_system_start run(1), of ?s "mr_partner_id m" "mr_id m"]
  from serve m run(3,4) obtain resp where
    d: "download_original sample_externs (\<lambda>v. True) sample_store ?s (mr_partner_id m, mr_id m) w = (Ok resp, w)"
    by blast
  with serve have "serves sample_externs (\<lambda>v. True) w (session_bureau_id ?s, mr_partner_id m, mr_id m) resp"
      "guarded_download resp"
    by blast+
  with d show ?thesis by blast
qed

end
