(* ===== verification/WorkerFacts.thy ===== *)
theory WorkerFacts
  imports Downloads
begin

text \<open>
  The maintenance pass: what it may change, and that the orphans it reports are exactly the listed
  objects that no row refers to.
\<close>

section \<open>What a pass changes\<close>

text \<open>Code that takes \<open>P\<close> to \<open>Q\<close> on every exit.\<close>

definition st_leads :: "('s \<Rightarrow> bool) \<Rightarrow> ('s \<Rightarrow> bool) \<Rightarrow> ('s, 'e, 'a) stateful \<Rightarrow> bool" where
  "st_leads P Q m \<longleftrightarrow> (\<forall>s. P s \<longrightarrow> Q (snd (m s)))"

lemma st_leads_before:
  assumes "st_keeps P m" "\<And>a. st_leads P Q (f a)" "\<And>s. P s \<Longrightarrow> Q s"
  shows "st_leads P Q (st_then m f)"
  unfolding st_leads_def
proof (intro allI impI)
  fix s assume "P s"
  obtain r s1 where m: "m s = (r, s1)" by fastforce
  with assms(1) \<open>P s\<close> have "P s1" by (rule st_keepsD)
  with m assms(2,3) show "Q (snd (st_then m f s))"
    by (cases r) (auto simp: st_then_def st_leads_def)
qed

lemma st_leads_after:
  assumes "st_leads P Q m" "\<And>a. st_keeps Q (f a)"
  shows "st_leads P Q (st_then m f)"
  unfolding st_leads_def
proof (intro allI impI)
  fix s assume "P s"
  obtain r s1 where m: "m s = (r, s1)" by fastforce
  with assms(1) \<open>P s\<close> have "Q s1" by (metis snd_conv st_leads_def)
  with m assms(2) show "Q (snd (st_then m f s))"
    by (cases r) (auto simp: st_then_def st_keeps_def)
qed

text \<open>The tables with at most the sessions different.\<close>

definition same_rows :: "tables \<Rightarrow> tables \<Rightarrow> bool" where
  "same_rows t t' \<longleftrightarrow> tenant_data t' = tenant_data t"

text \<open>The tables with at most sessions and expired leases different.\<close>

definition maintained :: "tables \<Rightarrow> tables \<Rightarrow> bool" where
  "maintained t t' \<longleftrightarrow> bureaus t' = bureaus t \<and> partners t' = partners t \<and> materials t' = materials t
     \<and> (jobs t' = jobs t
        \<or> (\<exists>b now. jobs t' = update_rows (\<lambda>j. jr_bureau_id j = b \<and> lease_expired now j) (reclaimed_job now) (jobs t)))"

lemma maintained_sessions: "maintained t (t'\<lparr>sessions := ss\<rparr>) = maintained t t'"
  by (simp add: maintained_def)

interpretation same: session_invariant "same_rows t" for t
  by unfold_locales (simp_all add: same_rows_def tenant_data_def)

lemma reclaim_tables:
  assumes "reclaim_expired_leases t = (r, t')" "tx_context t = Some (tx_bureau_id t)" "same_rows t0 (tx_tables t)"
  shows "maintained t0 (tx_tables t')"
proof -
  let ?q = "\<lambda>t. let now = db_now (tx_db t); hit = (\<lambda>r. own_row t (jr_bureau_id r) \<and> lease_expired now r);
         rows = jobs (tx_tables t)
     in (Ok (length (filter hit rows)), set_tables ((tx_tables t)\<lparr>jobs := update_rows hit (reclaimed_job now) rows\<rparr>) t)"
  have rows: "bureaus (tx_tables t) = bureaus t0" "partners (tx_tables t) = partners t0"
      "materials (tx_tables t) = materials t0" "jobs (tx_tables t) = jobs t0"
    using assms(3) by (simp_all add: same_rows_def tenant_data_def)
  obtain f d where f: "next_db_fault (tx_db t) = (f, d)" by fastforce
  then have d: "db_tables d = tx_tables t" by (auto simp: next_db_fault_def tx_tables_def split: list.splits)
  have own: "own_row (t\<lparr>tx_db := d\<rparr>) c \<longleftrightarrow> c = tx_bureau_id t" for c
    using assms(2) by (auto simp: own_row_def rls_visible_def)
  show ?thesis
  proof (cases f)
    case DbFine
    with assms(1) f have "t' = set_tables ((tx_tables t)\<lparr>jobs :=
        update_rows (\<lambda>j. jr_bureau_id j = tx_bureau_id t \<and> lease_expired (db_now d) j) (reclaimed_job (db_now d)) (jobs (tx_tables t))\<rparr>)
        (t\<lparr>tx_db := d\<rparr>)"
      by (auto simp: reclaim_expired_leases_def statement_def st_map_err_def Let_def own)
         (simp_all add: tx_tables_def d [unfolded tx_tables_def])
    then show ?thesis using rows by (auto simp: maintained_def set_tables_def tx_tables_def)
  qed (use assms(1) f d rows in \<open>auto simp: reclaim_expired_leases_def statement_def maintained_def tx_tables_def\<close>)
qed

lemma maintained_refl: "same_rows t t' \<Longrightarrow> maintained t t'"
  by (simp add: same_rows_def tenant_data_def maintained_def)

interpretation maintained: session_invariant "maintained t" for t
  by unfold_locales (simp_all add: maintained_sessions)

lemma maintained_reclaim:
  "st_leads (data_inv (same_rows t)) (data_inv (maintained t))
    (on_db (in_scoped_tx MaintenanceDb b (st_map_err MaintenanceDb reclaim_expired_leases)))"
  unfolding st_leads_def
proof (intro allI impI)
  fix w assume "data_inv (same_rows t) w"
  then have w: "same_rows t (db_tables (w_db w))" by (simp add: data_inv_def)
  obtain r d where tx: "in_scoped_tx MaintenanceDb b (st_map_err MaintenanceDb reclaim_expired_leases) (w_db w) = (r, d)"
    by fastforce
  have body: "maintained t (tx_tables t')"
    if "st_map_err MaintenanceDb reclaim_expired_leases u = (a, t')" "tx_started b (w_db w) u" for u a t'
    using that w reclaim_tables [of u "fst (reclaim_expired_leases u)" t' t]
    by (auto simp: st_map_err_def tx_started_def split: prod.splits)
  from tx have "maintained t (db_tables d)"
    by (cases rule: in_scoped_tx_cases) (use body maintained_refl [OF w] in \<open>auto dest: body\<close>)
  with tx show "data_inv (maintained t) (snd (on_db (in_scoped_tx MaintenanceDb b
      (st_map_err MaintenanceDb reclaim_expired_leases)) w))"
    by (simp add: data_inv_def on_db_def)
qed

lemma keeps_orphan_tx: "st_keeps (data_inv I) (on_db (in_scoped_tx MaintenanceDb b (orphan_keys x b keys)))"
  by (intro data_on_db tx_property.keeps_in_scoped_tx keeps_orphan_keys)

lemma run_once_tables: "st_leads (data_inv (same_rows t)) (data_inv (maintained t)) (run_once x c st ms)"
proof -
  have purge: "st_keeps (data_inv (same_rows t)) (st_map_err MaintenanceDb (on_db (sessions_purge_expired n)))" for n
    by (intro keeps_rules data_on_db same.keeps_sessions_purge)
  have find: "st_keeps (data_inv (same_rows t)) (st_map_err MaintenanceDb (on_db (bureau_id_by_slug s)))" for s
    by (intro keeps_rules data_on_db same.keeps_bureau_id)
  have rest: "st_keeps (data_inv (maintained t)) (report_orphans x st limit b)" for limit b
    unfolding report_orphans_def by (intro keeps_rules data_on_fs keeps_orphan_tx)
  have le: "data_inv (same_rows t) w \<Longrightarrow> data_inv (maintained t) w" for w
    by (simp add: data_inv_def maintained_refl)
  show ?thesis
    unfolding run_once_def case_prod_unfold
    by (intro st_leads_before st_leads_after purge find st_keeps_lift maintained_reclaim keeps_rules data_on_fs rest le)
qed

text \<open>The files: a sweep, and a look at the objects.\<close>

definition files_swept :: "fs_store \<Rightarrow> nat \<Rightarrow> fs \<Rightarrow> world \<Rightarrow> bool" where
  "files_swept st age s0 w \<longleftrightarrow> at_rest (w_fs w)
     \<and> swept (staging_root st) (sweep_cutoff (fs_now s0) age) (node_at s0) (node_at (w_fs w))"

lemma fs_on_db: "st_keeps (\<lambda>w. F (w_fs w)) (on_db m)"
  by (auto simp: st_keeps_def on_db_def split: prod.splits)

lemma list_objects_still:
  assumes "list_objects x st limit s = (r, s')" "at_rest s"
  shows "at_rest s' \<and> node_at s' = node_at s"
  using still_keepsD [OF still.keeps_list_objects _ assms(1)] assms(2) by (simp add: at_rest_def)

lemma run_once_files:
  assumes "at_rest s0"
  shows "st_leads (\<lambda>w. w_fs w = s0) (files_swept st (ms_staging_max_age ms) s0) (run_once x c st ms)"
proof -
  let ?P = "\<lambda>w. w_fs w = s0" and ?Q = "files_swept st (ms_staging_max_age ms) s0"
  have db: "st_keeps ?P (st_map_err MaintenanceDb (on_db m))" "st_keeps ?P (on_db m')" for m m'
    by (intro keeps_rules fs_on_db [where F = "\<lambda>s. s = s0"])+
  have sweep: "st_leads ?P ?Q (st_map_err MaintenanceStorage (on_fs (sweep_staging st (ms_staging_max_age ms))))"
    using assms st_keeps_snd [OF at_rest_sweep_staging [of st "ms_staging_max_age ms"] assms] sweep_swept [of s0 st "ms_staging_max_age ms"]
    by (auto simp: st_leads_def st_map_err_def on_fs_def files_swept_def at_rest_def split: prod.splits)
  have look: "st_keeps ?Q (on_fs (list_objects x st limit))" for limit
  proof (rule st_keepsI)
    fix w assume "?Q w"
    with list_objects_still [of x st limit "w_fs w"] show "?Q (snd (on_fs (list_objects x st limit) w))"
      by (auto simp: on_fs_def files_swept_def split: prod.splits)
  qed
  have tx: "st_keeps ?Q (on_db m)" for m
    unfolding files_swept_def by (rule fs_on_db)
  have rest: "st_keeps ?Q (report_orphans x st limit b)" for limit b
    unfolding report_orphans_def by (intro keeps_rules look tx)
  have le: "?P w \<Longrightarrow> ?Q w" for w
    using assms by (simp add: files_swept_def swept_def)
  show ?thesis
    unfolding run_once_def case_prod_unfold
    by (intro st_leads_before [OF db(1)] st_leads_before [OF st_keeps_lift] st_leads_before [OF db(2)]
          st_leads_after [OF sweep] keeps_rules rest le)
qed

text \<open>
  C21: A maintenance pass never harms what tenants own. However it ends, no bureau, partner or material
  is different; every job is as it was, or was running on a lease that had expired and has been
  put back or given up; and every file is as it was, unless it lay directly in the staging directory and
  was older than the cutoff. So no original is ever removed.
\<close>

theorem maintenance_harmless:
  assumes "run_once x c st ms w = (r, w')" "at_rest (w_fs w)"
  shows "maintained (db_tables (w_db w)) (db_tables (w_db w'))
    \<and> swept (staging_root st) (sweep_cutoff (fs_now (w_fs w)) (ms_staging_max_age ms))
        (node_at (w_fs w)) (node_at (w_fs w'))"
proof -
  have "data_inv (same_rows (db_tables (w_db w))) w" by (simp add: data_inv_def same_rows_def)
  with run_once_tables have "data_inv (maintained (db_tables (w_db w))) (snd (run_once x c st ms w))"
    unfolding st_leads_def by blast
  moreover have "files_swept st (ms_staging_max_age ms) (w_fs w) (snd (run_once x c st ms w))"
    using run_once_files [OF assms(2)] unfolding st_leads_def by blast
  ultimately show ?thesis using assms(1) by (simp add: data_inv_def files_swept_def)
qed

section \<open>Orphans\<close>

text \<open>An object of this bureau that no material of its namespace refers to.\<close>

definition unreferenced :: "externs \<Rightarrow> uuid \<Rightarrow> tables \<Rightarrow> object_key \<Rightarrow> bool" where
  "unreferenced x b t k \<longleftrightarrow>
     (case key_namespace x k of
        Ok ns \<Rightarrow> ns_bureau_id ns = b \<and> \<not> list_ex (\<lambda>m. mr_bureau_id m = b \<and> mr_partner_id m = ns_partner_id ns
            \<and> mr_sha256 m = key_digest k) (materials t)
      | _ \<Rightarrow> False)"

lemma orphan_keys_Ok:
  assumes "orphan_keys x b keys t = (Ok os, t')" "tx_bureau_id t = b" "tx_context t = Some b"
  shows "tx_same t t' \<and> os = filter (unreferenced x b (tx_tables t)) keys"
  using assms
proof (induction keys arbitrary: os t)
  case Nil
  then show ?case by (auto simp: outcome_simps)
next
  case (Cons k keys)
  then obtain ns where ns: "key_namespace x k = Ok ns" by (auto simp: outcome_simps)
  show ?case
  proof (cases "ns_bureau_id ns = b")
    case False
    with ns Cons.prems(1) have "orphan_keys x b keys t = (Ok os, t')" by (auto simp: outcome_simps)
    from Cons.IH [OF this Cons.prems(2,3)] False ns show ?thesis by (simp add: unreferenced_def)
  next
    case True
    with ns Cons.prems(1) obtain found t1 os1 where
      f: "materials_find_by_digest (ns_partner_id ns) (key_digest k) t = (Ok found, t1)"
      and r: "orphan_keys x b keys t1 = (Ok os1, t')" and os: "os = (if found = None then k # os1 else os1)"
      by (auto simp: outcome_simps)
    have own: "own_row t c \<longleftrightarrow> c = b" for c using Cons.prems(2,3) by (auto simp: own_row_def rls_visible_def)
    from f have same: "tx_same t t1" by (auto elim: find_by_digest_Ok)
    have miss: "found = None \<longleftrightarrow> unreferenced x b (tx_tables t) k"
      using f
    proof (cases rule: find_by_digest_Ok)
      case none
      then show ?thesis using ns True own by (auto simp: unreferenced_def own_material_def list_ex_iff)
    next
      case (some m)
      then show ?thesis using ns True own by (auto simp: unreferenced_def own_material_def list_ex_iff)
    qed
    from same Cons.prems(2,3) have "tx_bureau_id t1 = b" "tx_context t1 = Some b" "tx_tables t1 = tx_tables t"
      by (auto simp: tx_same_def)
    with Cons.IH [OF r] same miss os show ?thesis by (auto intro: tx_same_trans)
  qed
qed

lemma report_orphans_Ok:
  assumes "report_orphans x st limit b w = (Ok (orphans, scanned, truncated), w')"
  shows "\<exists>l s1. list_objects x st limit (w_fs w) = (Ok l, s1)
    \<and> orphans = filter (unreferenced x b (db_tables (w_db w))) (listing_keys l)
    \<and> scanned = length (listing_keys l) \<and> truncated = listing_truncated l
    \<and> db_tables (w_db w') = db_tables (w_db w)"
proof -
  from assms obtain l w1 os where
    l: "on_fs (list_objects x st limit) w = (Ok l, w1)"
    and tx: "on_db (in_scoped_tx MaintenanceDb b (orphan_keys x b (listing_keys l))) w1 = (Ok orphans, w')"
    and res: "scanned = length (listing_keys l)" "truncated = listing_truncated l"
    by (auto simp: report_orphans_def outcome_simps)
  from l have db: "w_db w1 = w_db w" by (auto simp: on_fs_def split: prod.splits)
  from tx have "in_scoped_tx MaintenanceDb b (orphan_keys x b (listing_keys l)) (w_db w) = (Ok orphans, w_db w')"
    by (auto simp: on_db_def db split: prod.splits)
  then obtain t t' where "tx_started b (w_db w) t" "orphan_keys x b (listing_keys l) t = (Ok orphans, t')"
      "db_tables (w_db w') = tx_tables t'"
    by (cases rule: in_scoped_tx_cases) auto
  with orphan_keys_Ok [OF this(2)] have
    "orphans = filter (unreferenced x b (db_tables (w_db w))) (listing_keys l)" "db_tables (w_db w') = db_tables (w_db w)"
    by (auto simp: tx_started_def tx_same_def)
  with l res show ?thesis by (auto simp: on_fs_def split: prod.splits)
qed

lemma referenced_row:
  assumes docs: "uuid_documented x" and w: "recorded_in x st A w"
    and m: "m \<in> set (materials (db_tables (w_db w)))"
  shows "\<not> unreferenced x b (db_tables (w_db w)) (ObjectKey (mr_storage_key m))"
proof -
  note r = recorded_row [OF docs w m]
  have "key_namespace x (ObjectKey (mr_storage_key m)) = Ok (row_namespace m)"
    "key_digest (ObjectKey (mr_storage_key m)) = mr_sha256 m"
    unfolding r(1) using key_text_roundtrip [OF docs r(2)] by simp_all
  with m show ?thesis by (auto simp: unreferenced_def row_namespace_def list_ex_iff)
qed

text \<open>
  C16: The orphans a pass reports are orphans. In every reachable state, whatever key the report names is
  one of the objects the listing found, of the worker's own bureau, and no material of its partner
  has its digest; every listed object of that kind is named; the counts are those of the listing; the
  object of a recorded material is never named; and the report changes no table.
\<close>

theorem orphans_reported_exactly:
  assumes "uuid_documented x" "sha256_documented x" "store_layout st"
    and "system_start x st w0" "system_reachable x h c st ms w0 (w, us)"
    and "report_orphans x st limit b w = (Ok (orphans, scanned, truncated), w')"
  shows "(\<exists>l s1. list_objects x st limit (w_fs w) = (Ok l, s1)
      \<and> orphans = filter (unreferenced x b (db_tables (w_db w))) (listing_keys l)
      \<and> scanned = length (listing_keys l) \<and> truncated = listing_truncated l)
    \<and> (\<forall>m\<in>set (materials (db_tables (w_db w))). ObjectKey (mr_storage_key m) \<notin> set orphans)
    \<and> db_tables (w_db w') = db_tables (w_db w)"
proof -
  from system_reachable_inv [OF assms(1-5)] obtain A where A: "recorded_in x st A w"
    by (auto simp: system_inv_def)
  from report_orphans_Ok [OF assms(6)] referenced_row [OF assms(1) A] show ?thesis by auto
qed

section \<open>A concrete pass\<close>

lemma sample_pass: "is_ok (fst (run_once sample_externs sample_config sample_store default_settings sample_start_world))"
  by code_simp

lemma maintenance_harmless_witness:
  "\<exists>rep w'. run_once sample_externs sample_config sample_store default_settings sample_start_world = (Ok rep, w')
    \<and> maintained (db_tables (w_db sample_start_world)) (db_tables (w_db w'))"
proof -
  from sample_pass obtain rep w' where
    run: "run_once sample_externs sample_config sample_store default_settings sample_start_world = (Ok rep, w')"
    by (metis is_ok_iff prod.collapse)
  have "at_rest (w_fs sample_start_world)" by code_simp
  from maintenance_harmless [OF run this] run show ?thesis by blast
qed

text \<open>A store with one object that no row refers to.\<close>

definition sample_orphan_world :: world where
  "sample_orphan_world = sample_start_world\<lparr>w_fs := sample_objects_fs\<rparr>"

definition content_checked :: "externs \<Rightarrow> path \<Rightarrow> path \<times> node \<Rightarrow> bool" where
  "content_checked x objs pn \<longleftrightarrow> (case pn of (p, n) \<Rightarrow> is_object_path objs p \<longrightarrow>
     (case node_content (Some n) of None \<Rightarrow> True | Some c \<Rightarrow> last p = content_digest x c))"

lemma content_ok_checked:
  assumes "list_all (content_checked x objs) (fs_tree s)"
  shows "content_ok x objs (node_at s)"
  unfolding content_ok_def
proof (intro allI impI)
  fix p c assume p: "is_object_path objs p" "node_content (node_at s p) = Some c"
  then obtain n where n: "map_of (fs_tree s) p = Some n" by (cases "node_at s p") (auto simp: node_at_def)
  then have "content_checked x objs (p, n)" using assms by (auto simp: list_all_iff dest: map_of_SomeD)
  with p n show "last p = hex_lower (sha256_digest x c)"
    by (simp add: content_checked_def node_at_def content_digest_def)
qed

lemma sample_orphan_start: "system_start sample_externs sample_store sample_orphan_world"
proof -
  have "content_ok sample_externs (objects_root sample_store) (node_at sample_objects_fs)"
    by (rule content_ok_checked) code_simp
  moreover have "at_rest sample_objects_fs" by code_simp
  ultimately show ?thesis
    using sample_system_start by (simp add: system_start_def sample_orphan_world_def)
qed

lemma sample_report:
  "\<exists>w'. report_orphans sample_externs sample_store 2 1 sample_orphan_world = (Ok ([sample_object_key], 1, False), w')"
proof -
  have "fst (report_orphans sample_externs sample_store 2 1 sample_orphan_world) = Ok ([sample_object_key], 1, False)"
    by code_simp
  then show ?thesis by (metis prod.collapse)
qed

lemma orphans_reported_exactly_witness:
  "unreferenced sample_externs 1 (db_tables (w_db sample_orphan_world)) sample_object_key"
proof -
  obtain w' where rep: "report_orphans sample_externs sample_store 2 1 sample_orphan_world
      = (Ok ([sample_object_key], 1, False), w')" using sample_report by blast
  have "system_reachable sample_externs (\<lambda>v. True) sample_config sample_store default_settings
      sample_orphan_world (sample_orphan_world, [])" by (simp add: system_reachable_def)
  from orphans_reported_exactly [OF sample_uuid_documented sample_sha256_documented sample_layout
      sample_orphan_start this rep]
  obtain l :: object_listing where "[sample_object_key] = filter (unreferenced sample_externs 1 (db_tables (w_db sample_orphan_world)))
      (listing_keys l)" by blast
  then have "sample_object_key \<in> set (filter (unreferenced sample_externs 1 (db_tables (w_db sample_orphan_world)))
      (listing_keys l))" by (metis list.set_intros(1))
  then show ?thesis by simp
qed

end
