(* ===== verification/Startup.thy ===== *)
theory Startup
  imports Router Worker UploadFacts
begin

text \<open>
  \<^verbatim>\<open>build_state\<close> of \<^verbatim>\<open>crates/otdel-api/src/lib.rs\<close> with \<^verbatim>\<open>AppState::new\<close> of \<^verbatim>\<open>state.rs\<close>: what
  must hold before a request is served. \<open>connected\<close> is what connecting the pool ends with,
  \<open>canon\<close> what the operating system makes of the storage root; the texts of the errors inside
  the messages are those of the crates, the argument \<open>show\<close>.
\<close>

record app_state =
  state_config :: config
  state_store :: fs_store

definition app_state_new :: "config \<Rightarrow> fs_store \<Rightarrow> (world, app_error, app_state) stateful" where
  "app_state_new c st w =
     (Ok \<lparr>state_config = c, state_store = st\<rparr>, w\<lparr>w_throttle := throttle_new\<rparr>)"

definition role_refused :: "ustr \<Rightarrow> app_error" where
  "role_refused shown = ae_internal (lit ''refusing to start with this database role: '' @ shown
     @ lit ''. Use the restricted runtime role (OTDEL_DATABASE_URL), not the migration/admin role'')"

definition build_state ::
    "(db_error \<Rightarrow> ustr) \<Rightarrow> (storage_error \<Rightarrow> ustr) \<Rightarrow> (db_error, unit) outcome \<Rightarrow> runtime_role
      \<Rightarrow> (path \<Rightarrow> path) \<Rightarrow> path \<Rightarrow> config \<Rightarrow> (world, app_error, app_state) stateful" where
  "build_state show_db show_storage connected role canon root c =
     st_then (st_lift (map_err (\<lambda>e. ae_internal (lit ''could not connect to the database: '' @ show_db e))
       connected)) (\<lambda>_.
     st_then (st_map_err (\<lambda>e. role_refused (show_db e)) (on_db (verify_runtime_role role))) (\<lambda>_.
     st_then (st_map_err (\<lambda>e. ae_internal (lit ''could not open the object store: '' @ show_storage e))
       (on_fs (open_at canon root))) (\<lambda>st.
     app_state_new c st)))"

lemma auto_read_Ok: "auto_statement (\<lambda>d. (Ok a, d)) d = (Ok b, d') \<Longrightarrow> b = a"
  by (auto dest: auto_statement_Ok)

lemma verify_role_Ok: "verify_runtime_role role d = (Ok (), d') \<Longrightarrow> restricted_role role"
  by (auto simp: verify_runtime_role_def outcome_simps role_problems_iff [symmetric]
      dest!: auto_read_Ok split: if_splits)

lemma open_at_layout: "open_at canon root s = (Ok st, s') \<Longrightarrow> store_layout st \<and> root_dir st = canon root"
  by (auto simp: open_at_def outcome_simps Let_def io_call_def store_layout_def dest!: sys_look_result)

text \<open>
  The server only starts with a role the policies bind. If the state is built, the runtime role
  is no superuser, cannot bypass row-level security, create roles or databases, owns no table
  of the schema and cannot read the sessions, and the policies are active on all three tenant
  tables; the store then has the layout every storage property relies on.
\<close>

theorem build_state_safe:
  assumes "build_state show_db show_storage connected role canon root c w = (Ok app, w')"
  shows "restricted_role role \<and> state_config app = c \<and> store_layout (state_store app)
    \<and> root_dir (state_store app) = canon root \<and> w_throttle w' = throttle_new"
  using assms
  by (auto simp: build_state_def outcome_simps on_db_def on_fs_def app_state_new_def
      split: prod.splits dest!: verify_role_Ok open_at_layout)

definition sample_role :: runtime_role where
  "sample_role = \<lparr>role_name = lit ''otdel_app'', is_superuser = False, bypasses_rls = False,
     can_create_role = False, can_create_db = False, owns_tables = False, reads_sessions = False,
     rls_partners = True, rls_materials = True, rls_jobs = True\<rparr>"

lemma sample_build_ok:
  "is_ok (fst (build_state (\<lambda>e. []) (\<lambda>e. []) (Ok ()) sample_role id [lit ''r''] sample_config sample_world))"
  by (simp add: build_state_def st_then_def st_lift_def st_map_err_def on_db_def on_fs_def
      verify_runtime_role_def auto_statement_def next_db_fault_def sample_world_def sample_auth_db_def
      st_ok_def sample_role_def role_problems_def app_state_new_def) code_simp

theorem build_state_safe_witness:
  "\<exists>app :: app_state. restricted_role sample_role \<and> state_config app = sample_config \<and> store_layout (state_store app)
    \<and> root_dir (state_store app) = [lit ''r'']"
proof -
  obtain app w' where "build_state (\<lambda>e. []) (\<lambda>e. []) (Ok ()) sample_role id [lit ''r''] sample_config
      sample_world = (Ok app, w')"
    using sample_build_ok by (cases "build_state (\<lambda>e. []) (\<lambda>e. []) (Ok ()) sample_role id [lit ''r'']
      sample_config sample_world") (auto simp: is_ok_iff)
  from build_state_safe [OF this] show ?thesis by (intro exI [of _ app]) simp
qed

end
