(* ===== verification/Binaries.thy ===== *)
theory Binaries
  imports Startup
begin

text \<open>
  \<^verbatim>\<open>apps/api/src/main.rs\<close> and \<^verbatim>\<open>apps/worker/src/main.rs\<close>, with \<^verbatim>\<open>serve\<close> of
  \<^verbatim>\<open>crates/otdel-api/src/lib.rs\<close>, the pools of \<^verbatim>\<open>crates/otdel-db/src/lib.rs\<close> and the CORS settings of
  \<^verbatim>\<open>routes/mod.rs\<close>: the two processes, from the command line to the exit code.

  A \<open>launch\<close> is what a process finds: its arguments and environment, what the calls of sqlx, tokio
  and axum end with, the requests it is sent (here one after the other; how their calls interleave
  is the subject of the theory \<open>System\<close>). A \<open>process\<close> is what it leaves behind: the world, what it
  printed, what it answered. An error is the text \<^verbatim>\<open>{error:#}\<close> prints, the contexts before the cause.
\<close>

section \<open>The environment and the pools\<close>

datatype os_value = Unicode ustr | NotUnicode

definition env_source :: "(ustr \<Rightarrow> os_value option) \<Rightarrow> config_source" where
  "env_source vars key = (case vars key of Some (Unicode v) \<Rightarrow> Some v | _ \<Rightarrow> None)"

definition from_env ::
    "externs \<Rightarrow> (ustr \<Rightarrow> ustr option) \<Rightarrow> (ustr \<Rightarrow> os_value option) \<Rightarrow> (app_error, config) outcome" where
  "from_env x parse_addr vars = config_load x parse_addr (env_source vars)"

text \<open>What sqlx is asked for; a field that is \<open>None\<close> keeps sqlx's default. Times are seconds.\<close>

record pool_options =
  po_url :: ustr
  po_search_path :: ustr
  po_log_statements :: bool
  po_slow_statement :: "nat option"
  po_max_connections :: nat
  po_acquire_timeout :: nat

definition MIGRATION_SEARCH_PATH :: ustr where
  "MIGRATION_SEARCH_PATH = lit ''public''"

definition runtime_pool :: "ustr \<Rightarrow> nat \<Rightarrow> pool_options" where
  "runtime_pool url max_connections =
     \<lparr>po_url = url, po_search_path = MIGRATION_SEARCH_PATH, po_log_statements = False,
      po_slow_statement = Some 2, po_max_connections = max_connections, po_acquire_timeout = 5\<rparr>"

definition admin_pool :: "ustr \<Rightarrow> pool_options" where
  "admin_pool url =
     \<lparr>po_url = url, po_search_path = MIGRATION_SEARCH_PATH, po_log_statements = False,
      po_slow_statement = None, po_max_connections = 1, po_acquire_timeout = 10\<rparr>"

section \<open>CORS\<close>

record cors_settings =
  cors_origins :: "ustr list"
  cors_credentials :: bool
  cors_methods :: "http_method list"
  cors_headers :: "ustr list"
  cors_max_age :: nat

definition cors_layer :: "(ustr \<Rightarrow> bool) \<Rightarrow> config \<Rightarrow> cors_settings" where
  "cors_layer header_ok c =
     \<lparr>cors_origins = filter header_ok (cors_allowed_origins c), cors_credentials = True,
      cors_methods = [GET, POST, PATCH, DELETE, OPTIONS],
      cors_headers = [lit ''content-type'', lit ''x-csrf-token''], cors_max_age = 600\<rparr>"

section \<open>Processes\<close>

record launch =
  la_args :: "ustr list"
  la_env :: "ustr \<Rightarrow> os_value option"
  la_parse_addr :: "ustr \<Rightarrow> ustr option"
  la_log_env :: "ustr option"
  la_log_valid :: "ustr \<Rightarrow> bool"
  la_connect :: "pool_options \<Rightarrow> (db_error, unit) outcome"
  la_role :: "ustr \<Rightarrow> runtime_role"
  la_path :: "ustr \<Rightarrow> path"
  la_canon :: "path \<Rightarrow> path"
  la_show_db :: "db_error \<Rightarrow> ustr"
  la_show_storage :: "storage_error \<Rightarrow> ustr"
  la_show_pass :: "maintenance_error \<Rightarrow> ustr"
  la_show_config :: "(ustr \<times> debug_value) list \<Rightarrow> ustr"
  la_migrator :: "stray_table \<Rightarrow> (db_error, unit) outcome \<times> stray_table"
  la_count_fails :: bool
  la_drop_fault :: db_fault
  la_terminal :: bool
  la_stdin :: "(ustr, ustr) outcome"
  la_argon2_hash :: "bytes \<Rightarrow> ustr option"
  la_bind :: "ustr \<Rightarrow> (ustr, unit) outcome"
  la_requests :: "(request \<times> ustr list \<times> call_input) list"
  la_stopped :: "(ustr, unit) outcome"
  la_ticks :: "(world \<Rightarrow> world) list"

record process =
  pr_world :: world
  pr_stray :: stray_table
  pr_out :: "ustr list"
  pr_err :: "ustr list"
  pr_answers :: "response option list"
  pr_log_filter :: "ustr option"

definition on_world :: "(world, 'e, 'a) stateful \<Rightarrow> (process, 'e, 'a) stateful" where
  "on_world m p = (case m (pr_world p) of (r, w) \<Rightarrow> (r, p\<lparr>pr_world := w\<rparr>))"

definition on_stray :: "(stray_table, 'e, 'a) stateful \<Rightarrow> (process, 'e, 'a) stateful" where
  "on_stray m p = (case m (pr_stray p) of (r, s) \<Rightarrow> (r, p\<lparr>pr_stray := s\<rparr>))"

definition println :: "ustr \<Rightarrow> (process, ustr, unit) stateful" where
  "println line p = (Ok (), p\<lparr>pr_out := pr_out p @ [line]\<rparr>)"

definition eprintln :: "ustr list \<Rightarrow> (process, ustr, unit) stateful" where
  "eprintln text_lines p = (Ok (), p\<lparr>pr_err := pr_err p @ text_lines\<rparr>)"

definition in_context :: "string \<Rightarrow> ('e \<Rightarrow> ustr) \<Rightarrow> ('s, 'e, 'a) stateful \<Rightarrow> ('s, ustr, 'a) stateful" where
  "in_context ctx shown m = st_map_err (\<lambda>e. lit ctx @ lit '': '' @ shown e) m"

text \<open>The filter of the log: the variable of the logging library, or the configured one, or \<^verbatim>\<open>info\<close>.\<close>

definition init_tracing :: "launch \<Rightarrow> ustr \<Rightarrow> (process, ustr, unit) stateful" where
  "init_tracing la configured p =
     (let chosen = (case la_log_env la of
            Some f \<Rightarrow> f
          | None \<Rightarrow> if la_log_valid la configured then configured else lit ''info'')
      in (Ok (), p\<lparr>pr_log_filter := Some chosen\<rparr>))"

definition load_config :: "externs \<Rightarrow> launch \<Rightarrow> (process, ustr, config) stateful" where
  "load_config x la = st_lift (map_err ae_message (from_env x (la_parse_addr la) (la_env la)))"

text \<open>The end of a command: 0, 1 after the error was printed, and what a panic of the main task gives.\<close>

definition exit_code :: "string \<Rightarrow> (ustr, unit) outcome \<times> process \<Rightarrow> nat \<times> process" where
  "exit_code name done =
     (case done of
        (Ok u, p) \<Rightarrow> (0, p)
      | (Err e, p) \<Rightarrow> (1, p\<lparr>pr_err := pr_err p @ [lit name @ lit '': '' @ e]\<rparr>)
      | (Panic, p) \<Rightarrow> (101, p))"

section \<open>The server\<close>

fun serve_requests ::
    "externs \<Rightarrow> (ustr \<Rightarrow> bool) \<Rightarrow> config \<Rightarrow> fs_store \<Rightarrow> (request \<times> ustr list \<times> call_input) list
      \<Rightarrow> world \<Rightarrow> response option list \<times> world" where
  "serve_requests x h c st [] w = ([], w)"
| "serve_requests x h c st ((rq, segments, i) # rest) w =
     (case answer x h c st rq segments i w of (resp, w) \<Rightarrow>
      case serve_requests x h c st rest w of (resps, w) \<Rightarrow> (resp # resps, w))"

definition listen_and_serve ::
    "externs \<Rightarrow> (ustr \<Rightarrow> bool) \<Rightarrow> launch \<Rightarrow> app_state \<Rightarrow> (process, app_error, unit) stateful" where
  "listen_and_serve x h la app =
     (let addr = bind_addr (state_config app)
      in st_then (st_lift (map_err (\<lambda>e. ae_internal (lit ''could not bind '' @ addr @ lit '': '' @ e))
           (la_bind la addr))) (\<lambda>_ p.
         case serve_requests x h (state_config app) (state_store app) (la_requests la) (pr_world p) of
           (answers, w) \<Rightarrow>
             (map_err (\<lambda>e. ae_internal (lit ''server stopped with an error: '' @ e)) (la_stopped la),
              p\<lparr>pr_world := w, pr_answers := pr_answers p @ answers\<rparr>)))"

definition serve_command :: "externs \<Rightarrow> (ustr \<Rightarrow> bool) \<Rightarrow> launch \<Rightarrow> (process, ustr, unit) stateful" where
  "serve_command x h la =
     st_then (load_config x la) (\<lambda>c.
     st_then (init_tracing la (log_filter c)) (\<lambda>_.
     st_then (st_map_err ae_message (on_world (build_state (la_show_db la) (la_show_storage la)
       (la_connect la (runtime_pool (database_url c) (database_max_connections c)))
       (la_role la (database_url c)) (la_canon la) (la_path la (storage_root c)) c))) (\<lambda>app.
     st_map_err ae_message (listen_and_serve x h la app))))"

text \<open>The commands of the migration role.\<close>

definition migrate_command :: "externs \<Rightarrow> launch \<Rightarrow> (process, ustr, unit) stateful" where
  "migrate_command x la =
     st_then (load_config x la) (\<lambda>c.
     st_then (init_tracing la (log_filter c)) (\<lambda>_.
     st_then (st_lift (map_err ae_message (require_admin_database_url c))) (\<lambda>admin_url.
     in_context ''applying migrations'' (la_show_db la)
       (st_then (st_lift (la_connect la (admin_pool admin_url))) (\<lambda>_.
        on_stray (run_migrations (la_migrator la) (la_count_fails la) (la_drop_fault la)))))))"

definition bootstrap_command :: "externs \<Rightarrow> launch \<Rightarrow> (process, ustr, unit) stateful" where
  "bootstrap_command x la =
     st_then (load_config x la) (\<lambda>c.
     st_then (init_tracing la (log_filter c)) (\<lambda>_.
     st_then (st_lift (map_err ae_message (require_admin_database_url c))) (\<lambda>admin_url.
     st_then (in_context ''provisioning the bureau'' (la_show_db la)
       (st_then (st_lift (la_connect la (admin_pool admin_url))) (\<lambda>_.
        on_world (on_db (bootstrap_bureau (bureau_slug c)))))) (\<lambda>bureau_id.
     st_ok ()))))"

definition trim_end_newlines :: "ustr \<Rightarrow> ustr" where
  "trim_end_newlines s = rev (dropWhile (\<lambda>c. c = 10 \<or> c = 13) (rev s))"

definition hash_password_command :: "launch \<Rightarrow> (process, ustr, unit) stateful" where
  "hash_password_command la =
     (if la_terminal la then
        st_err (lit ''pipe the password into stdin, e.g. `printf '' @ [39] @ lit ''%s'' @ [39]
          @ lit '' \"$PASSWORD\" | otdel-api hash-password`'')
      else
        st_then (in_context ''reading the password from stdin'' (\<lambda>e. e) (st_lift (la_stdin la))) (\<lambda>input.
        st_then (st_lift (map_err ae_message
          (hash_password (la_argon2_hash la) (trim_end_newlines input)))) (\<lambda>hash. println hash)))"

definition check_config_command :: "externs \<Rightarrow> launch \<Rightarrow> (process, ustr, unit) stateful" where
  "check_config_command x la =
     st_then (load_config x la) (\<lambda>c. println (la_show_config la (config_debug c)))"

definition api_usage :: "ustr list" where
  "api_usage =
     [lit ''usage: otdel-api [serve|migrate|bootstrap|hash-password|check-config]'', [],
      lit ''Configuration comes from the environment (see .env.example and docs/backend-1a.md).'',
      lit ''`migrate` and `bootstrap` require OTDEL_DATABASE_ADMIN_URL (migration role);'',
      lit ''`serve` uses OTDEL_DATABASE_URL (restricted runtime role).'']"

text \<open>\<^verbatim>\<open>std::env::args().nth(1)\<close> with its default.\<close>

definition command_name :: "launch \<Rightarrow> string \<Rightarrow> ustr" where
  "command_name la dflt = (case la_args la of prog # name # rest \<Rightarrow> name | _ \<Rightarrow> lit dflt)"

definition help_names :: "ustr list" where
  "help_names = [lit ''-h'', lit ''--help'', lit ''help'']"

definition api_main :: "externs \<Rightarrow> (ustr \<Rightarrow> bool) \<Rightarrow> launch \<Rightarrow> process \<Rightarrow> nat \<times> process" where
  "api_main x h la p =
     (let command = command_name la ''serve''; ends = exit_code ''otdel-api''
      in if command = lit ''serve'' then ends (serve_command x h la p)
         else if command = lit ''migrate'' then ends (migrate_command x la p)
         else if command = lit ''bootstrap'' then ends (bootstrap_command x la p)
         else if command = lit ''hash-password'' then ends (hash_password_command la p)
         else if command = lit ''check-config'' then ends (check_config_command x la p)
         else if command \<in> set help_names then ends (eprintln api_usage p)
         else (2, snd (eprintln ((lit ''unknown command `'' @ command @ lit ''`'') # api_usage) p)))"

section \<open>The worker\<close>

definition show_int :: "int \<Rightarrow> ustr" where
  "show_int n = (if n < 0 then 45 # dec (nat (- n)) else dec (nat n))"

definition show_bool :: "bool \<Rightarrow> ustr" where
  "show_bool b = (if b then lit ''true'' else lit ''false'')"

definition report_line :: "maintenance_report \<Rightarrow> ustr" where
  "report_line r =
     lit ''sessions_purged='' @ show_int (sessions_purged r)
     @ lit '' leases_reclaimed='' @ dec (leases_reclaimed r)
     @ lit '' staging_files_removed='' @ dec (unat (staging_files_removed r))
     @ lit '' objects_scanned='' @ dec (objects_scanned r)
     @ lit '' orphan_objects='' @ dec (orphan_objects r)
     @ lit '' scan_truncated='' @ show_bool (scan_truncated r)"

definition run_passes :: "externs \<Rightarrow> config \<Rightarrow> fs_store \<Rightarrow> launch \<Rightarrow> (process, ustr, unit) stateful" where
  "run_passes x c st la p =
     (Ok (), p\<lparr>pr_world := snd (run_until x c st default_settings (la_ticks la) (pr_world p))\<rparr>)"

definition worker_command :: "externs \<Rightarrow> launch \<Rightarrow> bool \<Rightarrow> (process, ustr, unit) stateful" where
  "worker_command x la single_pass =
     st_then (load_config x la) (\<lambda>c.
     st_then (init_tracing la (log_filter c)) (\<lambda>_.
     st_then (in_context ''connecting to the database'' (la_show_db la)
       (st_lift (la_connect la (runtime_pool (database_url c) 2)))) (\<lambda>_.
     st_then (in_context ''verifying the runtime database role'' (la_show_db la)
       (on_world (on_db (verify_runtime_role (la_role la (database_url c)))))) (\<lambda>_.
     st_then (in_context ''opening the object store'' (la_show_storage la)
       (on_world (on_fs (open_at (la_canon la) (la_path la (storage_root c)))))) (\<lambda>st.
     if single_pass then
       st_then (in_context ''maintenance pass'' (la_show_pass la)
         (on_world (run_once x c st default_settings))) (\<lambda>report. println (report_line report))
     else run_passes x c st la)))))"

definition worker_usage :: "ustr list" where
  "worker_usage =
     [lit ''usage: otdel-worker [run|once]'', [],
      lit ''run  '' @ [0x2014] @ lit '' maintenance passes until SIGINT/SIGTERM (default)'',
      lit ''once '' @ [0x2014] @ lit '' a single pass, then exit'', [],
      lit ''Phase 1A maintenance only: expired sessions, job lease recovery, staging'',
      lit ''sweep and orphan reporting. Document extraction is phase 1B.'']"

definition worker_main :: "externs \<Rightarrow> launch \<Rightarrow> process \<Rightarrow> nat \<times> process" where
  "worker_main x la p =
     (let command = command_name la ''run''; ends = exit_code ''otdel-worker''
      in if command = lit ''run'' then ends (worker_command x la False p)
         else if command = lit ''once'' then ends (worker_command x la True p)
         else if command \<in> set help_names then ends (eprintln worker_usage p)
         else (2, snd (eprintln [lit ''unknown command `'' @ command
           @ lit ''` (expected `run` or `once`)''] p)))"

end
