(* ===== verification/BinaryFacts.thy ===== *)
theory BinaryFacts
  imports Binaries StoredOriginals
begin

text \<open>
  What the two processes do as a whole: neither works with a privileged database role, provisioning
  a bureau is done once and for all, and a hashed password is the one that signs in.
\<close>

section \<open>The runtime role\<close>

definition world_same :: "world \<Rightarrow> world \<Rightarrow> bool" where
  "world_same w w' \<longleftrightarrow> db_tables (w_db w') = db_tables (w_db w) \<and> w_fs w' = w_fs w"

lemma world_same_refl [simp]: "world_same w w"
  by (simp add: world_same_def)

text \<open>The process may work: its configuration loads, and the role it connects as is restricted.\<close>

definition may_run :: "externs \<Rightarrow> launch \<Rightarrow> bool" where
  "may_run x la \<longleftrightarrow>
     (\<exists>c. from_env x (la_parse_addr la) (la_env la) = Ok c \<and> restricted_role (la_role la (database_url c)))"

lemma verify_role_refuses:
  assumes "\<not> restricted_role role" "verify_runtime_role role d = (r, d')"
  shows "(\<forall>u. r \<noteq> Ok u) \<and> db_tables d' = db_tables d"
proof -
  obtain r1 d1 where s: "auto_statement (\<lambda>d. (Ok role, d)) d = (r1, d1)" by fastforce
  then have "db_tables d1 = db_tables d"
    by (auto simp: auto_statement_def dest: next_db_fault_fields split: prod.splits db_fault.splits)
  moreover have "a = role" if "r1 = Ok a" for a using s that by (auto dest: auto_read_Ok)
  ultimately show ?thesis
    using assms s by (cases r1) (auto simp: verify_runtime_role_def st_then_def st_err_def role_problems_iff)
qed

lemma build_state_refuses:
  assumes "\<not> restricted_role role" "build_state show_db show_storage connected role canon root c w = (r, w')"
  shows "(\<forall>app. r \<noteq> Ok app) \<and> world_same w w'"
proof (cases connected)
  case (Ok u)
  obtain r1 d1 where v: "verify_runtime_role role (w_db w) = (r1, d1)" by fastforce
  from verify_role_refuses [OF assms(1) v] assms(2) v Ok show ?thesis
    by (cases r1) (auto simp: build_state_def st_then_def st_lift_def st_map_err_def on_db_def world_same_def)
qed (use assms(2) in \<open>auto simp: build_state_def st_then_def st_lift_def\<close>)

definition refused :: "process \<Rightarrow> ('e, 'a) outcome \<times> process \<Rightarrow> bool" where
  "refused p done \<longleftrightarrow> \<not> is_ok (fst done) \<and> pr_answers (snd done) = pr_answers p
     \<and> world_same (pr_world p) (pr_world (snd done))"

lemma serve_refuses: "\<not> may_run x la \<Longrightarrow> refused p (serve_command x h la p)"
proof (cases "from_env x (la_parse_addr la) (la_env la)")
  case (Ok c)
  let ?build = "build_state (la_show_db la) (la_show_storage la)
       (la_connect la (runtime_pool (database_url c) (database_max_connections c)))
       (la_role la (database_url c)) (la_canon la) (la_path la (storage_root c)) c"
  assume "\<not> may_run x la"
  with Ok have bad: "\<not> restricted_role (la_role la (database_url c))" by (simp add: may_run_def)
  obtain r w' where b: "?build (pr_world p) = (r, w')" by fastforce
  from build_state_refuses [OF bad b] Ok b show ?thesis
    by (cases r) (simp_all add: refused_def serve_command_def load_config_def st_then_def st_lift_def
        init_tracing_def st_map_err_def on_world_def Let_def)
qed (simp_all add: refused_def serve_command_def load_config_def st_then_def st_lift_def)

lemma worker_refuses: "\<not> may_run x la \<Longrightarrow> refused p (worker_command x la single p)"
proof (cases "from_env x (la_parse_addr la) (la_env la)")
  case (Ok c)
  assume "\<not> may_run x la"
  with Ok have bad: "\<not> restricted_role (la_role la (database_url c))" by (simp add: may_run_def)
  obtain r d' where v: "verify_runtime_role (la_role la (database_url c)) (w_db (pr_world p)) = (r, d')" by fastforce
  from verify_role_refuses [OF bad v] Ok v show ?thesis
    by (cases "la_connect la (runtime_pool (database_url c) 2)"; cases r)
      (simp_all add: refused_def worker_command_def load_config_def st_then_def st_lift_def in_context_def
        init_tracing_def st_map_err_def on_world_def on_db_def Let_def world_same_def)
qed (simp_all add: refused_def worker_command_def load_config_def st_then_def st_lift_def)

lemma exit_refused:
  "refused p done \<Longrightarrow> exit_code name done = (code, p') \<Longrightarrow>
     code \<noteq> 0 \<and> pr_answers p' = pr_answers p \<and> world_same (pr_world p) (pr_world p')"
  by (auto simp: refused_def exit_code_def split: prod.splits outcome.splits)

text \<open>
  C23: Neither process works with a privileged role. When the role behind the runtime URL is a
  superuser, bypasses or is not bound by row-level security, owns tables of the schema or can read
  the sessions (or when the configuration does not load), the server answers no request and the
  worker makes no pass: both leave tables and files as they were, and exit with a failure.
\<close>

theorem privileged_role_refused:
  assumes "\<not> may_run x la"
  shows "(command_name la ''serve'' = lit ''serve'' \<and> api_main x h la p = (code, p') \<longrightarrow>
      code \<noteq> 0 \<and> pr_answers p' = pr_answers p \<and> world_same (pr_world p) (pr_world p'))
    \<and> (command_name la ''run'' \<in> {lit ''run'', lit ''once''} \<and> worker_main x la p = (code, p') \<longrightarrow>
      code \<noteq> 0 \<and> pr_answers p' = pr_answers p \<and> world_same (pr_world p) (pr_world p'))"
  using exit_refused [OF serve_refuses [OF assms]] exit_refused [OF worker_refuses [OF assms]]
  by (auto simp: api_main_def worker_main_def Let_def)

definition sample_vars :: "ustr \<Rightarrow> os_value option" where
  "sample_vars k = map_option Unicode (sample_source k)"

definition sample_launch :: "runtime_role \<Rightarrow> launch" where
  "sample_launch role =
     \<lparr>la_args = [lit ''otdel''], la_env = sample_vars, la_parse_addr = Some, la_log_env = None,
      la_log_valid = (\<lambda>_. True), la_connect = (\<lambda>_. Ok ()), la_role = (\<lambda>_. role),
      la_path = (\<lambda>s. [s]), la_canon = id, la_show_db = (\<lambda>_. []), la_show_storage = (\<lambda>_. []),
      la_show_pass = (\<lambda>_. []), la_show_config = (\<lambda>_. []), la_migrator = (\<lambda>s. (Ok (), s)),
      la_count_fails = False, la_drop_fault = DbFine, la_terminal = False, la_stdin = Ok [],
      la_argon2_hash = (\<lambda>_. None), la_bind = (\<lambda>_. Ok ()), la_requests = [], la_stopped = Ok (),
      la_ticks = []\<rparr>"

definition sample_process :: process where
  "sample_process = \<lparr>pr_world = sample_world, pr_stray = None, pr_out = [], pr_err = [],
     pr_answers = [], pr_log_filter = None\<rparr>"

lemma sample_env: "env_source sample_vars = sample_source"
  by (rule ext) (auto simp: env_source_def sample_vars_def split: option.splits)

lemma sample_may_run: "may_run sample_externs (sample_launch role) \<longleftrightarrow> restricted_role role"
  using sample_config_loads by (simp add: may_run_def sample_launch_def from_env_def sample_env)

theorem privileged_role_refused_witness:
  "\<exists>code p'. api_main sample_externs (\<lambda>_. True) (sample_launch (sample_role\<lparr>bypasses_rls := True\<rparr>)) sample_process = (code, p')
    \<and> code \<noteq> 0 \<and> pr_answers p' = []"
proof -
  let ?la = "sample_launch (sample_role\<lparr>bypasses_rls := True\<rparr>)"
  obtain code p' where run: "api_main sample_externs (\<lambda>_. True) ?la sample_process = (code, p')" by fastforce
  have "\<not> may_run sample_externs ?la" by (simp add: sample_may_run restricted_role_def)
  from privileged_role_refused [OF this, of "\<lambda>_. True" sample_process code p'] run
  show ?thesis by (simp add: command_name_def sample_launch_def sample_process_def)
qed

section \<open>What a process keeps of the tables\<close>

definition process_inv :: "(tables \<Rightarrow> bool) \<Rightarrow> process \<Rightarrow> bool" where
  "process_inv I p \<longleftrightarrow> data_inv I (pr_world p)"

lemma keeps_on_world: "st_keeps (data_inv I) m \<Longrightarrow> st_keeps (process_inv I) (on_world m)"
  by (fastforce simp: st_keeps_def process_inv_def on_world_def split: prod.splits)

lemma keeps_in_context: "st_keeps J m \<Longrightarrow> st_keeps J (in_context ctx shown m)"
  unfolding in_context_def by (rule st_keeps_map_err)

lemma keeps_process_steps:
  "st_keeps (process_inv I) (println line)" "st_keeps (process_inv I) (eprintln ls)"
  "st_keeps (process_inv I) (on_stray m')" "st_keeps (process_inv I) (init_tracing la f)"
  "st_keeps (process_inv I) (load_config x la)"
  by (auto simp: st_keeps_def process_inv_def println_def eprintln_def on_stray_def init_tracing_def load_config_def
      st_lift_def Let_def split: prod.splits)

lemmas process_rules = keeps_rules keeps_process_steps keeps_in_context keeps_on_world data_on_fs

text \<open>A property of the tables that every request, every pass and every provisioning keeps.\<close>

definition kept_by_all :: "(tables \<Rightarrow> bool) \<Rightarrow> bool" where
  "kept_by_all I \<longleftrightarrow> (\<forall>b. handler_invariant b I (\<lambda>m. True))
     \<and> (\<forall>slug. st_keeps (\<lambda>d. I (db_tables (d :: db))) (bootstrap_bureau slug))"

lemma keeps_requests:
  assumes "kept_by_all I" "serve_requests x h c st rqs w = (resps, w')" "data_inv I w"
  shows "data_inv I w'"
  using assms(2,3)
proof (induction rqs arbitrary: w resps)
  case (Cons q rqs)
  obtain rq segments i where q: "q = (rq, segments, i)" by (cases q) auto
  obtain resp w1 where a: "answer x h c st rq segments i w = (resp, w1)" by fastforce
  then obtain r where "handle x h c st rq i (route (rq_method rq) segments) w = (r, w1)"
    using answer_world by blast
  then have "data_inv I w1"
    using handle_keeps Cons.prems(2) assms(1) unfolding kept_by_all_def by (blast dest: st_keepsD)
  with Cons a show ?case by (auto simp: q split: prod.splits)
qed simp

lemma keeps_passes:
  assumes "kept_by_all I" "\<forall>f\<in>set ticks. \<forall>w. data_inv I w \<longrightarrow> data_inv I (f w)"
    and "run_until x c st ms ticks w = (rs, w')" "data_inv I w"
  shows "data_inv I w'"
  using assms(2-)
proof (induction ticks arbitrary: w rs)
  case (Cons f ticks)
  obtain r w1 where r: "run_once x c st ms (f w) = (r, w1)" by fastforce
  have "data_inv I (f w)" using Cons.prems by simp
  with r have "data_inv I w1"
    using run_once_data assms(1) unfolding kept_by_all_def by (blast dest: st_keepsD)
  with Cons r show ?case by (auto split: prod.splits)
qed simp

lemma keeps_build: "kept_by_all I \<Longrightarrow> st_keeps (data_inv I) (build_state sd ss connected role canon root c)"
proof -
  assume "kept_by_all I"
  then have session: "session_invariant I"
    unfolding kept_by_all_def by (blast intro: handler_invariant.axioms(1) reader_invariant.axioms(1))
  have "st_keeps (data_inv I) (app_state_new c st)" for st
    by (simp add: st_keeps_def data_inv_def app_state_new_def)
  then show ?thesis
    unfolding build_state_def
    by (intro keeps_rules data_on_fs data_on_db session_invariant.keeps_verify_role [OF session])
qed

lemma keeps_api:
  assumes "kept_by_all I" "api_main x h la p = (code, p')" "process_inv I p"
  shows "process_inv I p'"
proof -
  have listen: "st_keeps (process_inv I) (listen_and_serve x h la app)" for app
    using keeps_requests [OF assms(1)]
    by (auto simp: st_keeps_def process_inv_def listen_and_serve_def st_then_def st_lift_def Let_def
        split: prod.splits outcome.splits)
  have boot: "st_keeps (process_inv I) (on_world (on_db (bootstrap_bureau slug)))" for slug
    using assms(1) unfolding kept_by_all_def by (blast intro: keeps_on_world data_on_db)
  have commands: "st_keeps (process_inv I) (serve_command x h la)" "st_keeps (process_inv I) (migrate_command x la)"
    "st_keeps (process_inv I) (bootstrap_command x la)" "st_keeps (process_inv I) (hash_password_command la)"
    "st_keeps (process_inv I) (check_config_command x la)"
    unfolding serve_command_def migrate_command_def bootstrap_command_def hash_password_command_def check_config_command_def
    by (intro process_rules listen boot keeps_build assms)+
  have ends: "process_inv I p'" if "st_keeps (process_inv I) m" "exit_code name (m p) = (code, p')" for m name
    using st_keepsD [OF that(1) assms(3)] that(2)
    by (auto simp: exit_code_def process_inv_def split: prod.splits outcome.splits)
  from assms(2) show ?thesis
    using ends [OF commands(1)] ends [OF commands(2)] ends [OF commands(3)] ends [OF commands(4)] ends [OF commands(5)]
      ends [OF keeps_process_steps(2)] keeps_process_steps(2) assms(3)
    by (auto simp: api_main_def Let_def st_keeps_def split: if_splits)
qed

lemma keeps_worker:
  assumes "kept_by_all I" "\<forall>f\<in>set (la_ticks la). \<forall>w. data_inv I w \<longrightarrow> data_inv I (f w)"
    and "worker_main x la p = (code, p')" "process_inv I p"
  shows "process_inv I p'"
proof -
  have session: "session_invariant I"
    using assms(1) unfolding kept_by_all_def by (blast intro: handler_invariant.axioms(1) reader_invariant.axioms(1))
  have passes: "st_keeps (process_inv I) (run_passes x c st la)" for c st
    using keeps_passes [OF assms(1,2) prod.collapse [symmetric]]
    by (simp add: st_keeps_def process_inv_def run_passes_def)
  have pass: "st_keeps (data_inv I) (run_once x c st ms)" for c st ms
    using assms(1) run_once_data unfolding kept_by_all_def by blast
  have commands: "st_keeps (process_inv I) (worker_command x la single)" for single
    unfolding worker_command_def
    by (intro process_rules passes pass data_on_db session_invariant.keeps_verify_role [OF session])
  have ends: "process_inv I p'" if "st_keeps (process_inv I) m" "exit_code name (m p) = (code, p')" for m name
    using st_keepsD [OF that(1) assms(4)] that(2)
    by (auto simp: exit_code_def process_inv_def split: prod.splits outcome.splits)
  from assms(3) show ?thesis
    using ends [OF commands] ends [OF keeps_process_steps(2)] keeps_process_steps(2) assms(4)
    by (auto simp: worker_main_def Let_def st_keeps_def split: if_splits)
qed

text \<open>The two properties of the tables the theorem is about.\<close>

lemma constraints_kept_by_all: "kept_by_all tables_ok"
  unfolding kept_by_all_def
  using all_constraints.handler_invariant_axioms bootstrap_keeps_constraints by blast

lemma originals_kept_by_all: "kept_by_all (originals_kept t)"
  unfolding kept_by_all_def originals_kept_def
  using all_originals.handler_invariant_axioms [of _ t] bootstrap_keeps_materials
  by (auto simp: originals_kept_def [abs_def])

text \<open>
  C12: No process breaks the schema or loses an original. Whatever the command, the requests and the
  passes, faults and dropped requests included: tables that satisfied every CHECK, UNIQUE and FOREIGN
  KEY constraint satisfy them when the process ends, and the originals recorded before are recorded
  unchanged and in their place, provided what the other processes do between two passes of the
  worker keeps both.
\<close>

theorem processes_keep_schema:
  assumes "tables_ok (db_tables (w_db (pr_world p)))"
    and "\<forall>f\<in>set (la_ticks la). \<forall>w. (tables_ok (db_tables (w_db w)) \<longrightarrow> tables_ok (db_tables (w_db (f w))))
      \<and> originals_kept (db_tables (w_db w)) (db_tables (w_db (f w)))"
    and "api_main x h la p = (code, p') \<or> worker_main x la p = (code, p')"
  shows "tables_ok (db_tables (w_db (pr_world p')))
    \<and> originals_kept (db_tables (w_db (pr_world p))) (db_tables (w_db (pr_world p')))"
proof -
  let ?t = "db_tables (w_db (pr_world p))"
  have start: "process_inv tables_ok p" "process_inv (originals_kept ?t) p"
    using assms(1) by (simp_all add: process_inv_def data_inv_def originals_kept_def)
  have ticks: "\<forall>f\<in>set (la_ticks la). \<forall>w. data_inv I w \<longrightarrow> data_inv I (f w)"
    if "I = tables_ok \<or> I = originals_kept ?t" for I
    using that assms(2) by (fastforce simp: data_inv_def originals_kept_def intro: prefix_order.trans)
  have "process_inv I p'" if "kept_by_all I" "I = tables_ok \<or> I = originals_kept ?t" "process_inv I p" for I
    using assms(3) keeps_api [OF that(1) _ that(3)] keeps_worker [OF that(1) ticks [OF that(2)] _ that(3)] by blast
  from this [OF constraints_kept_by_all _ start(1)] this [OF originals_kept_by_all _ start(2)]
  show ?thesis by (simp add: process_inv_def data_inv_def)
qed

definition sample_busy_launch :: launch where
  "sample_busy_launch = (sample_launch sample_role)\<lparr>
     la_requests := [(sample_request POST, [lit ''api'', lit ''partners''], sample_input),
       (sample_request DELETE, [lit ''api'', lit ''session''], sample_input)],
     la_ticks := [id, \<lambda>w. w\<lparr>w_db := (w_db w)\<lparr>db_now := db_now (w_db w) + 1\<rparr>\<rparr>]\<rparr>"

theorem processes_keep_schema_witness:
  "\<exists>code p' code2 p2. api_main sample_externs (\<lambda>_. True) sample_busy_launch sample_process = (code, p')
    \<and> tables_ok (db_tables (w_db (pr_world p')))
    \<and> worker_main sample_externs sample_busy_launch sample_process = (code2, p2)
    \<and> tables_ok (db_tables (w_db (pr_world p2)))"
proof -
  obtain code p' where run: "api_main sample_externs (\<lambda>_. True) sample_busy_launch sample_process = (code, p')"
    by fastforce
  obtain code2 p2 where pass: "worker_main sample_externs sample_busy_launch sample_process = (code2, p2)"
    by fastforce
  have start: "tables_ok (db_tables (w_db (pr_world sample_process)))"
    using sample_auth_tables_ok by (simp add: sample_process_def)
  have ticks: "\<forall>f\<in>set (la_ticks sample_busy_launch). \<forall>w. (tables_ok (db_tables (w_db w)) \<longrightarrow> tables_ok (db_tables (w_db (f w))))
      \<and> originals_kept (db_tables (w_db w)) (db_tables (w_db (f w)))"
    by (simp add: sample_busy_launch_def originals_kept_def)
  from processes_keep_schema [OF start ticks disjI1, OF run] processes_keep_schema [OF start ticks disjI2, OF pass] run pass
  show ?thesis by blast
qed

section \<open>Provisioning\<close>

lemma find_append:
  "find P (xs @ ys) = (case find P xs of Some a \<Rightarrow> Some a | None \<Rightarrow> find P ys)"
  by (induction xs) auto

lemma bureau_check_id: "bureau_check \<lparr>br_id = u, br_slug = s, br_name = n\<rparr> \<Longrightarrow> bureau_check \<lparr>br_id = v, br_slug = s, br_name = n\<rparr>"
  by (simp add: bureau_check_def)

definition provisionable :: "ustr \<Rightarrow> bool" where
  "provisionable slug \<longleftrightarrow> pg_text slug \<and> pg_text (bureau_name_of slug)
     \<and> (\<forall>u. bureau_check \<lparr>br_id = u, br_slug = slug, br_name = bureau_name_of slug\<rparr>)"

definition bureau_of :: "ustr \<Rightarrow> tables \<Rightarrow> uuid option" where
  "bureau_of slug t = map_option br_id (find (\<lambda>b. br_slug b = slug) (bureaus t))"

lemma bureau_of_stays:
  "bureau_of slug t = Some u \<Longrightarrow> bureaus t' = bureaus t @ rows \<Longrightarrow> bureau_of slug t' = Some u"
  by (auto simp: bureau_of_def find_append)

lemma sql_bootstrap_row:
  assumes "sql_bootstrap slug (bureau_name_of slug) d = (Ok u, d')"
  shows "provisionable slug \<and> bureau_of slug (db_tables d') = Some u
    \<and> (\<exists>rows. db_tables d' = (db_tables d)\<lparr>bureaus := bureaus (db_tables d) @ rows\<rparr>)"
  using assms
  by (auto simp: sql_bootstrap_def gen_random_uuid_def Let_def find_append provisionable_def bureau_of_def
      dest: bureau_check_id split: if_splits option.splits intro: exI [of _ "[]"])

lemma sql_bootstrap_again:
  assumes "provisionable slug" "bureau_of slug (db_tables d) = Some u"
  obtains d' where "sql_bootstrap slug (bureau_name_of slug) d = (Ok u, d')" "db_tables d' = db_tables d"
  using assms
  by (auto simp: sql_bootstrap_def gen_random_uuid_def Let_def provisionable_def bureau_of_def)

lemma bootstrap_once:
  assumes "bootstrap_bureau slug d = (Ok u, d')"
  shows "provisionable slug \<and> bureau_of slug (db_tables d') = Some u
    \<and> (\<exists>rows. db_tables d' = (db_tables d)\<lparr>bureaus := bureaus (db_tables d) @ rows\<rparr>)"
proof -
  from assms obtain d1 where "sql_bootstrap slug (bureau_name_of slug) d1 = (Ok u, d')" "db_tables d1 = db_tables d"
    unfolding bootstrap_bureau_def by (blast dest: auto_statement_Ok)
  with sql_bootstrap_row [OF this(1)] show ?thesis by simp
qed

lemma bootstrap_again:
  assumes "provisionable slug" "bureau_of slug (db_tables d) = Some u" "db_faults d = []"
  shows "fst (bureau_id_by_slug slug d) = Ok (Some u)
    \<and> (\<exists>d'. bootstrap_bureau slug d = (Ok u, d') \<and> db_tables d' = db_tables d)"
proof -
  from sql_bootstrap_again [OF assms(1,2)] obtain d' where
    "sql_bootstrap slug (bureau_name_of slug) d = (Ok u, d')" "db_tables d' = db_tables d" .
  with assms show ?thesis
    by (simp add: bootstrap_bureau_def bureau_id_by_slug_def sql_bureau_id_by_slug_def auto_statement_def
        next_db_fault_def provisionable_def bureau_of_def)
qed

text \<open>
  C38: A bureau is provisioned once and for all. A provisioning that succeeds has only added rows to
  the bureaus; from then on, whatever bureaus are added later, the slug of the configuration names
  the id it returned, and provisioning the bureau again returns this id and changes no table. A slug
  of more than 64 characters, which the configuration accepts, is never provisioned.
\<close>

theorem bootstrap_provisions:
  assumes "bootstrap_bureau slug d = (Ok u, d')"
  shows "1 \<le> length slug \<and> length slug \<le> 64
    \<and> (\<exists>rows. db_tables d' = (db_tables d)\<lparr>bureaus := bureaus (db_tables d) @ rows\<rparr>)
    \<and> (\<forall>d2 rows. bureaus (db_tables d2) = bureaus (db_tables d') @ rows \<and> db_faults d2 = [] \<longrightarrow>
        fst (bureau_id_by_slug slug d2) = Ok (Some u)
        \<and> (\<exists>d3. bootstrap_bureau slug d2 = (Ok u, d3) \<and> db_tables d3 = db_tables d2))"
  using bootstrap_once [OF assms]
  by (auto simp: provisionable_def bureau_check_def intro!: bootstrap_again [THEN conjunct1] bootstrap_again [THEN conjunct2]
      dest: bureau_of_stays)

definition empty_db :: db where
  "empty_db = \<lparr>db_tables = \<lparr>bureaus = [], partners = [], materials = [], jobs = [], sessions = []\<rparr>,
     db_faults = [], db_now = 0, db_gen = (\<lambda>n. of_nat (n + 10)), db_gen_next = 0\<rparr>"

theorem bootstrap_provisions_witness:
  "\<exists>d'. bootstrap_bureau (lit ''local'') empty_db = (Ok 10, d')
    \<and> fst (bureau_id_by_slug (lit ''local'') d') = Ok (Some 10)"
proof -
  obtain d' where run: "bootstrap_bureau (lit ''local'') empty_db = (Ok 10, d')" and f: "db_faults d' = []"
    by (simp add: bootstrap_bureau_def auto_statement_def next_db_fault_def sql_bootstrap_def empty_db_def
        pg_text_def lit_def bureau_name_of_def gen_random_uuid_def bureau_check_def is_ascii_lowercase_def Let_def)
  have "bureaus (db_tables d') = bureaus (db_tables d') @ []" by simp
  with bootstrap_provisions [OF run] f have "fst (bureau_id_by_slug (lit ''local'') d') = Ok (Some 10)" by blast
  with run show ?thesis by blast
qed

section \<open>The password of the owner\<close>

text \<open>What argon2 prints is a hash it can read, of its own algorithm, and verifies the password it was made from.\<close>

definition argon2_documented :: "externs \<Rightarrow> (bytes \<Rightarrow> ustr option) \<Rightarrow> bool" where
  "argon2_documented x argon2_hash \<longleftrightarrow>
     (\<forall>bs h. argon2_hash bs = Some h \<longrightarrow>
        phc_algorithm x h = Some (lit ''argon2id'') \<and> argon2_verify x h bs \<and> trim h \<noteq> [])"

lemma trim_end_newlines_eol:
  "set eol \<subseteq> {10, 13} \<Longrightarrow> password \<noteq> [] \<Longrightarrow> last password \<notin> {10, 13} \<Longrightarrow>
     trim_end_newlines (password @ eol) = password"
proof -
  assume a: "set eol \<subseteq> {10, 13}" "password \<noteq> []" "last password \<notin> {10, 13}"
  then have "dropWhile (\<lambda>c. c = 10 \<or> c = 13) (rev eol @ rev password) = dropWhile (\<lambda>c. c = 10 \<or> c = 13) (rev password)"
    by (intro dropWhile_append2) auto
  also have "\<dots> = rev password"
    using a(2,3) by (cases password rule: rev_cases) auto
  finally show ?thesis by (simp add: trim_end_newlines_def)
qed

lemma hash_accepted:
  assumes "argon2_documented x argon2_hash" "argon2_hash bs = Some h" "source (lit ''OTDEL_OWNER_PASSWORD_HASH'') = Some h"
  shows "load_password_hash x source = Ok h
    \<longleftrightarrow> (\<forall>m\<in>set placeholder_markers. \<not> sublist m (to_ascii_lowercase (trim h)))"
  using assms
  by (auto simp: load_password_hash_def required_secret_def looks_like_placeholder_def argon2_documented_def
      is_supported_password_hash_def outcome_simps Let_def list_ex_iff to_ascii_lowercase_def lit_def prefix_def
      split: if_splits)

text \<open>
  C37: The password that was hashed is the one that signs in. Piped into \<^verbatim>\<open>hash-password\<close>, with or
  without a final newline, a password of at least twelve characters has its hash printed and nothing
  else; the server verifies the password against that hash; and the configuration takes the hash if
  and only if it contains none of the markers of a placeholder by accident.
\<close>

theorem hash_password_usable:
  assumes "argon2_documented x (la_argon2_hash la)" "la_argon2_hash la (utf8 password) = Some h"
    and "command_name la ''serve'' = lit ''hash-password''" "\<not> la_terminal la" "la_stdin la = Ok (password @ eol)"
    and "12 \<le> length password" "last password \<notin> {10, 13}" "set eol \<subseteq> {10, 13}"
  shows "api_main x header_ok la p = (0, p\<lparr>pr_out := pr_out p @ [h]\<rparr>) \<and> verify_password x h password
    \<and> (\<forall>source. source (lit ''OTDEL_OWNER_PASSWORD_HASH'') = Some h \<longrightarrow>
        (load_password_hash x source = Ok h
         \<longleftrightarrow> (\<forall>m\<in>set placeholder_markers. \<not> sublist m (to_ascii_lowercase (trim h)))))"
proof -
  have "password \<noteq> []" using assms(6) by auto
  then have "trim_end_newlines (password @ eol) = password"
    using assms(7,8) by (rule trim_end_newlines_eol [rotated 1])
  then have "hash_password_command la p = (Ok (), p\<lparr>pr_out := pr_out p @ [h]\<rparr>)"
    using assms by (simp add: hash_password_command_def in_context_def st_map_err_def st_then_def st_lift_def
        hash_password_def PASSWORD_MIN_CHARS_def println_def)
  then have "api_main x header_ok la p = (0, p\<lparr>pr_out := pr_out p @ [h]\<rparr>)"
    using assms(3) by (simp add: api_main_def Let_def exit_code_def lit_def)
  moreover have "verify_password x h password"
    using assms(1,2) by (auto simp: verify_password_def argon2_documented_def)
  ultimately show ?thesis using hash_accepted [OF assms(1,2)] by blast
qed

definition sample_hash :: "bytes \<Rightarrow> ustr option" where
  "sample_hash bs = Some (lit ''$argon2id$'' @ map unat bs)"

definition sample_hash_launch :: launch where
  "sample_hash_launch = (sample_launch sample_role)\<lparr>la_args := [lit ''otdel-api'', lit ''hash-password''],
     la_stdin := Ok (lit ''correct horse'' @ [10]), la_argon2_hash := sample_hash\<rparr>"

lemma trim_by_head: "\<not> p c \<Longrightarrow> trim_by p (c # s) \<noteq> []"
  by (simp add: trim_by_def)

lemma sample_argon2_documented: "argon2_documented sample_externs sample_hash"
  using trim_by_head [of is_whitespace 36]
  by (auto simp: argon2_documented_def sample_hash_def sample_externs_def lit_def trim_def is_whitespace_def)

theorem hash_password_usable_witness:
  "\<exists>h. api_main sample_externs (\<lambda>_. True) sample_hash_launch sample_process = (0, sample_process\<lparr>pr_out := [h]\<rparr>)
    \<and> verify_password sample_externs h (lit ''correct horse'')
    \<and> load_password_hash sample_externs (\<lambda>_. Some h) = Ok h"
proof -
  obtain h where h: "sample_hash (utf8 (lit ''correct horse'')) = Some h" by (simp add: sample_hash_def)
  have doc: "argon2_documented sample_externs (la_argon2_hash sample_hash_launch)"
    "la_argon2_hash sample_hash_launch (utf8 (lit ''correct horse'')) = Some h"
    using sample_argon2_documented h by (simp_all add: sample_hash_launch_def)
  have launch: "command_name sample_hash_launch ''serve'' = lit ''hash-password''" "\<not> la_terminal sample_hash_launch"
    "la_stdin sample_hash_launch = Ok (lit ''correct horse'' @ [10])"
    by (simp_all add: sample_hash_launch_def sample_launch_def command_name_def)
  have "12 \<le> length (lit ''correct horse'')" "last (lit ''correct horse'') \<notin> {10, 13}" "set [10] \<subseteq> {10, 13 :: uchar}"
    by (simp_all add: lit_def)
  from hash_password_usable [OF doc launch this, of "\<lambda>_. True" sample_process]
  have "api_main sample_externs (\<lambda>_. True) sample_hash_launch sample_process = (0, sample_process\<lparr>pr_out := [h]\<rparr>)"
    "verify_password sample_externs h (lit ''correct horse'')"
    "load_password_hash sample_externs (\<lambda>_. Some h) = Ok h
      \<longleftrightarrow> (\<forall>m\<in>set placeholder_markers. \<not> sublist m (to_ascii_lowercase (trim h)))"
    by (simp_all add: sample_process_def)
  moreover have "\<forall>m\<in>set placeholder_markers. \<not> sublist m (to_ascii_lowercase (trim (the (sample_hash (utf8 (lit ''correct horse''))))))"
    by code_simp
  ultimately show ?thesis using h by auto
qed

end
