(* ===== verification/Concurrent.thy ===== *)
theory Concurrent
  imports StoreKeeps
begin

text \<open>
  The object store of \<^verbatim>\<open>crates/otdel-storage/src/fs.rs\<close> under concurrent use. Every operation is
  a machine whose steps are its file system calls, in the order of the code; any number of
  them run over one tree, one call at a time in any order (\<open>pool_run\<close>), as tokio interleaves
  the futures of the server and the worker at their awaits. The calls are those of \<open>FileSystem\<close>:
  each can fail, and at each the future can be dropped.

  \<open>task\<close> is what the operations share: a running phase, then the guard (\<open>Unwind\<close>), then the calls
  that were in flight when the future was dropped (\<open>Settle\<close>), which take effect at any later time,
  then the result.
\<close>

datatype ('p, 'a) task =
    Run 'p
  | Unwind "(storage_error, 'a) outcome" "fs_op list"
  | Settle "(storage_error, 'a) outcome" "fs_op list"
  | Ended "(storage_error, 'a) outcome"

text \<open>An awaited call: \<open>next\<close> when it succeeds, else \<open>stop\<close> with the error or the call in flight.\<close>

definition task_call ::
    "((storage_error, 'a) outcome \<Rightarrow> fs_op list \<Rightarrow> ('p, 'a) task) \<Rightarrow> string \<Rightarrow> fs_op
      \<Rightarrow> ('p, 'a) task \<Rightarrow> fs \<Rightarrow> ('p, 'a) task \<times> fs" where
  "task_call stop context op next s =
     (case io_call context (sys_call op) s of
        (Ok u, s) \<Rightarrow> (next, s)
      | (Err e, s) \<Rightarrow> (stop (Err e) [], s)
      | (Panic, s) \<Rightarrow> (stop Panic (fs_late s), s\<lparr>fs_late := []\<rparr>))"

text \<open>An awaited call that only looks.\<close>

definition task_look ::
    "((storage_error, 'a) outcome \<Rightarrow> fs_op list \<Rightarrow> ('p, 'a) task) \<Rightarrow> (fs, storage_error, 'b) stateful
      \<Rightarrow> ('b \<Rightarrow> ('p, 'a) task) \<Rightarrow> fs \<Rightarrow> ('p, 'a) task \<times> fs" where
  "task_look stop m next s =
     (case m s of
        (Ok b, s) \<Rightarrow> (next b, s)
      | (Err e, s) \<Rightarrow> (stop (Err e) [], s)
      | (Panic, s) \<Rightarrow> (stop Panic [], s))"

definition task_step ::
    "path \<Rightarrow> ('p \<Rightarrow> fs \<Rightarrow> ('p, 'a) task \<times> fs) \<Rightarrow> ('p, 'a) task \<Rightarrow> fs \<Rightarrow> ('p, 'a) task \<times> fs" where
  "task_step guard run t s =
     (case t of
        Run p \<Rightarrow> run p s
      | Unwind r ops \<Rightarrow> (Settle r ops, guard_drop guard s)
      | Settle r [] \<Rightarrow> (Ended r, s)
      | Settle r (op # ops) \<Rightarrow> (Settle r ops, snd (perform op s))
      | Ended r \<Rightarrow> (Ended r, s))"

section \<open>The operations, call by call\<close>

text \<open>
  \<^verbatim>\<open>put_stream\<close>. \<open>PutHash\<close> is the code between the last call on the staging file and the first on
  the object, which makes no call.
\<close>

datatype put_phase =
    PutCreate "chunk list"
  | PutWrite "chunk list" bytes u64
  | PutFlush bytes u64
  | PutFsync bytes u64
  | PutHash bytes u64
  | PutDir stored_object path
  | PutMode stored_object path
  | PutStat stored_object path
  | PutRename stored_object path
  | PutSyncOpen stored_object path
  | PutSync stored_object

definition put_hash ::
    "externs \<Rightarrow> fs_store \<Rightarrow> object_namespace \<Rightarrow> bytes \<Rightarrow> u64 \<Rightarrow> (put_phase, stored_object) task" where
  "put_hash x st ns hasher size_bytes =
     (let sha256 = hex_lower (sha256_digest x hasher)
      in case and_then (key_for_digest x ns sha256) (\<lambda>key.
                and_then (resolve_within (objects_root st) key) (\<lambda>final. Ok (key, final))) of
           Ok (key, final) \<Rightarrow>
             Run (PutDir \<lparr>so_key = key, so_sha256 = sha256, so_size_bytes = size_bytes,
                          so_already_present = False\<rparr> final)
         | Err e \<Rightarrow> Unwind (Err e) []
         | Panic \<Rightarrow> Unwind Panic [])"

fun put_step ::
    "externs \<Rightarrow> fs_store \<Rightarrow> object_namespace \<Rightarrow> path \<Rightarrow> put_phase \<Rightarrow> fs
      \<Rightarrow> (put_phase, stored_object) task \<times> fs" where
  "put_step x st ns staging (PutCreate body) s =
     task_call Unwind ''create staging file'' (OpCreate staging) (Run (PutWrite body [] 0)) s"
| "put_step x st ns staging (PutWrite [] hasher n) s = (Run (PutFlush hasher n), s)"
| "put_step x st ns staging (PutWrite (c # cs) hasher n) s =
     (case c of
        Ok chunk \<Rightarrow>
          task_call Unwind ''write staging file'' (OpWrite staging chunk)
            (Run (PutWrite cs (hasher @ chunk) (n + of_nat (length chunk)))) s
      | Err e \<Rightarrow> (Unwind (Err (StorageStream e)) [], s)
      | Panic \<Rightarrow> (Unwind Panic [], s))"
| "put_step x st ns staging (PutFlush hasher n) s =
     task_call Unwind ''flush staging file'' OpFlush (Run (PutFsync hasher n)) s"
| "put_step x st ns staging (PutFsync hasher n) s =
     task_call Unwind ''fsync staging file'' OpFlush (Run (PutHash hasher n)) s"
| "put_step x st ns staging (PutHash hasher n) s = (put_hash x st ns hasher n, s)"
| "put_step x st ns staging (PutDir so final) s =
     task_call Unwind ''create storage directory'' (OpMkdirAll (butlast final)) (Run (PutMode so final)) s"
| "put_step x st ns staging (PutMode so final) s =
     task_call Unwind ''restrict storage directory'' (OpChmod (butlast final) 0x1C0) (Run (PutStat so final)) s"
| "put_step x st ns staging (PutStat so final) s =
     task_look Unwind (stat_existing final (so_size_bytes so)) (\<lambda>already_present.
       if already_present then Unwind (Ok (so\<lparr>so_already_present := True\<rparr>)) []
       else Run (PutRename so final)) s"
| "put_step x st ns staging (PutRename so final) s =
     task_call Unwind ''publish staging file'' (OpRename staging final)
       (Run (PutSyncOpen so (butlast final))) s"
| "put_step x st ns staging (PutSyncOpen so dir) s =
     (case sys_look (look_node dir) s of
        (Ok n, s) \<Rightarrow> (Run (PutSync so), s)
      | (Err k, s) \<Rightarrow> (Settle (Ok so) [], s)
      | (Panic, s) \<Rightarrow> (Settle Panic [], s))"
| "put_step x st ns staging (PutSync so) s =
     (case sys_call OpFlush s of
        (Panic, s) \<Rightarrow> (Settle Panic (fs_late s), s\<lparr>fs_late := []\<rparr>)
      | (_, s) \<Rightarrow> (Settle (Ok so) [], s))"

text \<open>\<^verbatim>\<open>sweep_staging\<close>: between looking at an entry and removing it other calls happen.\<close>

datatype sweep_phase =
    SweepRead nat
  | SweepNow nat "ustr list"
  | SweepNext int "ustr list" staging_sweep
  | SweepStat int ustr "ustr list" staging_sweep
  | SweepRemove int ustr node "ustr list" staging_sweep

fun sweep_step ::
    "fs_store \<Rightarrow> sweep_phase \<Rightarrow> fs \<Rightarrow> (sweep_phase, staging_sweep) task \<times> fs" where
  "sweep_step st (SweepRead older_than) s =
     task_look Settle (io_call ''read staging directory'' (read_dir (staging_root st))) (\<lambda>names.
       Run (SweepNow older_than names)) s"
| "sweep_step st (SweepNow older_than names) s =
     (Run (SweepNext (sweep_cutoff (fs_now s) older_than) names
        \<lparr>removed_files = 0, removed_bytes = 0\<rparr>), s)"
| "sweep_step st (SweepNext cutoff names sweep) s =
     task_look Settle (io_call ''iterate staging directory'' next_entry) (\<lambda>u.
       case names of
         [] \<Rightarrow> Settle (Ok sweep) []
       | name # names \<Rightarrow> Run (SweepStat cutoff name names sweep)) s"
| "sweep_step st (SweepStat cutoff name names sweep) s =
     (case symlink_metadata (staging_root st @ [name]) s of
        (Err IoNotFound, s) \<Rightarrow> (Run (SweepNext cutoff names sweep), s)
      | (Err k, s) \<Rightarrow> (Settle (Err (StorageIo (lit ''stat staging entry'') k)) [], s)
      | (Panic, s) \<Rightarrow> (Settle Panic [], s)
      | (Ok metadata, s) \<Rightarrow>
          if \<not> node_is_file metadata \<or> node_modified metadata > cutoff
          then (Run (SweepNext cutoff names sweep), s)
          else (Run (SweepRemove cutoff name metadata names sweep), s))"
| "sweep_step st (SweepRemove cutoff name metadata names sweep) s =
     (case sys_call (OpRemove (staging_root st @ [name])) s of
        (Ok u, s) \<Rightarrow>
          (Run (SweepNext cutoff names
             \<lparr>removed_files = removed_files sweep + 1,
              removed_bytes = removed_bytes sweep + of_nat (node_len metadata)\<rparr>), s)
      | (Err IoNotFound, s) \<Rightarrow> (Run (SweepNext cutoff names sweep), s)
      | (Err k, s) \<Rightarrow> (Settle (Err (StorageIo (lit ''remove staging entry'') k)) [], s)
      | (Panic, s) \<Rightarrow> (Settle Panic (fs_late s), s\<lparr>fs_late := []\<rparr>))"

text \<open>\<^verbatim>\<open>health\<close>\<close>

datatype health_phase = HealthCheck "path list" | HealthCreate | HealthWrite | HealthFlush

fun health_step :: "path \<Rightarrow> health_phase \<Rightarrow> fs \<Rightarrow> (health_phase, unit) task \<times> fs" where
  "health_step probe (HealthCheck []) s = (Run HealthCreate, s)"
| "health_step probe (HealthCheck (d # ds)) s =
     task_look Settle (io_call ''stat storage directory'' (metadata_is_dir d)) (\<lambda>is_dir.
       if \<not> is_dir then Settle (Err (StorageUnavailable (lit ''storage path is not a directory''))) []
       else Run (HealthCheck ds)) s"
| "health_step probe HealthCreate s =
     task_call Unwind ''create staging file'' (OpCreate probe) (Run HealthWrite) s"
| "health_step probe HealthWrite s =
     task_call Unwind ''write health probe'' (OpWrite probe (utf8 (lit ''ok''))) (Run HealthFlush) s"
| "health_step probe HealthFlush s =
     task_call Unwind ''flush health probe'' OpFlush (Unwind (Ok ()) []) s"

text \<open>\<^verbatim>\<open>open\<close>, and the read of the file it returns; other calls happen between the two looks.\<close>

datatype read_phase = ReadStat | ReadOpen path node

fun read_step ::
    "fs_store \<Rightarrow> object_key \<Rightarrow> read_phase \<Rightarrow> fs \<Rightarrow> (read_phase, object_body) task \<times> fs" where
  "read_step st key ReadStat s =
     (case resolve_within (objects_root st) key of
        Ok path \<Rightarrow>
          task_look Settle (stat_object key path) (\<lambda>metadata.
            if \<not> node_is_file metadata
            then Settle (Err (InvalidKey (lit ''stored path is not a regular file''))) []
            else Run (ReadOpen path metadata)) s
      | Err e \<Rightarrow> (Settle (Err e) [], s)
      | Panic \<Rightarrow> (Settle Panic [], s))"
| "read_step st key (ReadOpen path metadata) s =
     task_look Settle (io_call ''open object'' (sys_look (look_node path))) (\<lambda>opened.
       Settle (Ok \<lparr>ob_size_bytes = of_nat (node_len metadata),
                   ob_content = (case opened of File m c t \<Rightarrow> c | _ \<Rightarrow> [])\<rparr>) []) s"

section \<open>The pool\<close>

datatype process =
    Uploading uuid object_namespace "(put_phase, stored_object) task"
  | Sweeping "(sweep_phase, staging_sweep) task"
  | Probing uuid "(health_phase, unit) task"
  | Reading object_key "(read_phase, object_body) task"

type_synonym pool = "process list \<times> fs"

fun process_step :: "externs \<Rightarrow> fs_store \<Rightarrow> process \<Rightarrow> fs \<Rightarrow> process \<times> fs" where
  "process_step x st (Uploading fresh ns t) s =
     (let staging = staging_path x st fresh
      in apfst (Uploading fresh ns) (task_step staging (put_step x st ns staging) t s))"
| "process_step x st (Sweeping t) s = apfst Sweeping (task_step [] (sweep_step st) t s)"
| "process_step x st (Probing fresh t) s =
     (let probe = probe_path x st fresh
      in apfst (Probing fresh) (task_step probe (health_step probe) t s))"
| "process_step x st (Reading key t) s = apfst (Reading key) (task_step [] (read_step st key) t s)"

text \<open>The random name a process has taken (\<^verbatim>\<open>Uuid::new_v4\<close>).\<close>

fun process_uuid :: "process \<Rightarrow> uuid option" where
  "process_uuid (Uploading fresh ns t) = Some fresh"
| "process_uuid (Sweeping t) = None"
| "process_uuid (Probing fresh t) = Some fresh"
| "process_uuid (Reading key t) = None"

text \<open>A call of an operation: its first phase. Keys exist only as what \<^verbatim>\<open>ObjectKey::parse\<close> accepted.\<close>

datatype request_op =
    PutStream uuid object_namespace "chunk list"
  | SweepStaging nat
  | Health uuid
  | OpenObject object_key

fun process_of :: "fs_store \<Rightarrow> request_op \<Rightarrow> process" where
  "process_of st (PutStream fresh ns body) = Uploading fresh ns (Run (PutCreate body))"
| "process_of st (SweepStaging older_than) = Sweeping (Run (SweepRead older_than))"
| "process_of st (Health fresh) = Probing fresh (Run (HealthCheck [objects_root st, staging_root st]))"
| "process_of st (OpenObject key) = Reading key (Run ReadStat)"

fun op_possible :: "externs \<Rightarrow> process list \<Rightarrow> request_op \<Rightarrow> bool" where
  "op_possible x ps (PutStream fresh ns body) = (Some fresh \<notin> set (map process_uuid ps))"
| "op_possible x ps (SweepStaging older_than) = True"
| "op_possible x ps (Health fresh) = (Some fresh \<notin> set (map process_uuid ps))"
| "op_possible x ps (OpenObject key) = (object_key_parse x (key_str key) = Ok key)"

datatype event = Arrive request_op | Step nat | Clock int

fun pool_event :: "externs \<Rightarrow> fs_store \<Rightarrow> event \<Rightarrow> pool \<Rightarrow> pool option" where
  "pool_event x st (Arrive q) (ps, s) =
     (if op_possible x ps q then Some (ps @ [process_of st q], s) else None)"
| "pool_event x st (Step i) (ps, s) =
     (if i < length ps
      then (case process_step x st (ps ! i) s of (p, s) \<Rightarrow> Some (ps[i := p], s))
      else None)"
| "pool_event x st (Clock now) (ps, s) = Some (ps, s\<lparr>fs_now := now\<rparr>)"

fun pool_run :: "externs \<Rightarrow> fs_store \<Rightarrow> event list \<Rightarrow> pool \<Rightarrow> pool option" where
  "pool_run x st [] c = Some c"
| "pool_run x st (e # es) c =
     (case pool_event x st e c of None \<Rightarrow> None | Some c \<Rightarrow> pool_run x st es c)"

end
