(* ===== verification/ConcurrentFacts.thy ===== *)
theory ConcurrentFacts
  imports Concurrent
begin

text \<open>
  What holds of the store in every state of every pool: objects hash to their names and stay, and
  every finished operation has kept its promise. The argument is one of rely and guarantee: a
  step touches only the staging file of its own process and places of objects (\<open>kept\<close>), and what a
  process knows of its own staging file and of its object is not disturbed by such steps.
\<close>

section \<open>The guarantee of a call\<close>

definition kept :: "path \<Rightarrow> path set \<Rightarrow> nodes \<Rightarrow> nodes \<Rightarrow> bool" where
  "kept objs own f f' \<longleftrightarrow>
     (\<forall>q. q \<notin> own \<longrightarrow> \<not> is_object_path objs q \<longrightarrow> node_content (f' q) \<in> {None, node_content (f q)})
     \<and> (\<forall>q. is_object_path objs q \<longrightarrow> node_content (f q) \<noteq> None \<longrightarrow> node_content (f' q) \<noteq> None)"

lemma kept_refl [simp]: "kept objs own f f"
  by (simp add: kept_def)

lemma kept_trans: "kept objs own f g \<Longrightarrow> kept objs own g h \<Longrightarrow> kept objs own f h"
  unfolding kept_def by (metis insert_iff singletonD)

lemma kept_mono: "kept objs own f g \<Longrightarrow> own \<subseteq> own' \<Longrightarrow> kept objs own' f g"
  unfolding kept_def by blast

text \<open>The calls of a process that owns the place \<open>p\<close>; \<open>[]\<close> stands for owning none.\<close>

fun op_ok :: "externs \<Rightarrow> fs_store \<Rightarrow> path \<Rightarrow> nodes \<Rightarrow> fs_op \<Rightarrow> bool" where
  "op_ok x st p f (OpCreate q) = (q = p \<and> q \<noteq> [])"
| "op_ok x st p f (OpWrite q bs) = (q = p \<and> q \<noteq> [])"
| "op_ok x st p f OpFlush = True"
| "op_ok x st p f (OpRename a b) =
     (a = p \<and> a \<noteq> [] \<and> (\<exists>h ns. node_content (f p) \<in> {None, Some h} \<and> b = object_path x st ns (content_digest x h)))"
| "op_ok x st p f (OpMkdirAll q) = True"
| "op_ok x st p f (OpChmod q m) = True"
| "op_ok x st p f (OpRemove q) = (\<not> is_object_path (objects_root st) q)"

lemma op_ok_partial: "op_ok x st p f op \<Longrightarrow> op_ok x st p f (partial_op op n)"
  by (cases op) auto

lemma op_ok_stable:
  "op_ok x st p f op \<Longrightarrow> node_content (f' p) \<in> {None, node_content (f p)} \<Longrightarrow> op_ok x st p f' op"
  by (cases op) auto

lemma perform_keeps_content:
  assumes "op_ok x st p (node_at s) op" "\<not> is_object_path (objects_root st) p"
    and "content_ok x (objects_root st) (node_at s)"
  shows "content_ok x (objects_root st) (node_at (snd (perform op s)))"
proof (cases op)
  case (OpRename a b)
  with assms(1) obtain h ns where a: "a = p" and h: "node_content (node_at s p) \<in> {None, Some h}"
    and b: "b = object_path x st ns (content_digest x h)" by auto
  have "staged_ok x (objects_root st) p h (node_at s)"
    using assms(3) h by (auto simp: staged_ok_def)
  moreover have "staged_allowed x (objects_root st) p h op"
    using OpRename a b assms(2) by (auto simp: content_digest_def)
  ultimately have "staged_ok x (objects_root st) p h (node_at (snd (perform op s)))"
    by (intro staged.allowed_keeps)
  then show ?thesis by (simp add: staged_ok_def)
qed (use assms in \<open>auto intro!: content_allowed_keeps\<close>)

lemma perform_kept:
  assumes "op_ok x st p (node_at s) op" "\<not> is_object_path (objects_root st) p"
  shows "kept (objects_root st) ({p} - {[]}) (node_at s) (node_at (snd (perform op s)))"
proof -
  let ?f' = "node_at (snd (perform op s))"
  have "node_content (?f' q) \<in> {None, node_content (node_at s q)}"
    if "q \<notin> {p} - {[]}" "\<not> is_object_path (objects_root st) q" for q
  proof (cases "q \<in> set (op_files op)")
    case True
    with assms(1) that show ?thesis
      by (cases op) (auto simp: perform_remove_content)
  qed (simp add: perform_content_other)
  moreover have "node_content (?f' q) \<noteq> None"
    if q: "is_object_path (objects_root st) q" "node_content (node_at s q) \<noteq> None" for q
  proof -
    have "present_allowed {q} op"
      using assms q by (cases op) auto
    moreover have "objects_present {q} (node_at s)" using q(2) by (simp add: objects_present_def)
    ultimately have "objects_present {q} ?f'" by (rule present.allowed_keeps)
    then show ?thesis by (simp add: objects_present_def)
  qed
  ultimately show ?thesis unfolding kept_def by blast
qed

text \<open>What every step gives to the others, and what is left for the step itself to show.\<close>

definition good :: "externs \<Rightarrow> fs_store \<Rightarrow> path \<Rightarrow> fs \<Rightarrow> fs \<Rightarrow> bool" where
  "good x st p s s' \<longleftrightarrow> content_ok x (objects_root st) (node_at s')
     \<and> kept (objects_root st) ({p} - {[]}) (node_at s) (node_at s')"

lemma good_still: "content_ok x (objects_root st) (node_at s) \<Longrightarrow> node_at s' = node_at s \<Longrightarrow> good x st p s s'"
  by (simp add: good_def)

lemma good_perform:
  "op_ok x st p (node_at s) op \<Longrightarrow> \<not> is_object_path (objects_root st) p
    \<Longrightarrow> content_ok x (objects_root st) (node_at s) \<Longrightarrow> good x st p s (snd (perform op s))"
  by (simp add: good_def perform_keeps_content perform_kept)

lemma node_at_cong: "fs_tree s = fs_tree t \<Longrightarrow> node_at s = node_at t"
  by (auto simp: node_at_def)

lemma sys_call_fault:
  assumes "next_fault s = (f, s1)"
  shows "sys_call op s =
    (case f of
       Fine \<Rightarrow> perform op s1
     | Fail n \<Rightarrow> (Err IoOther, snd (perform (partial_op op n) s1))
     | DropFuture EffectNever \<Rightarrow> (Panic, s1)
     | DropFuture EffectBefore \<Rightarrow> (Panic, snd (perform op s1))
     | DropFuture EffectAfter \<Rightarrow> (Panic, s1\<lparr>fs_late := fs_late s1 @ [op]\<rparr>))"
  using assms by (simp add: sys_call_def split: fault.split drop_time.split)

lemma perform_not_Panic: "fst (perform op s) \<noteq> Panic"
  using perform_fields [of op s] by (metis prod.collapse)

lemma good_call:
  assumes "sys_call op s = (r, s')" "fs_late s = []" "op_ok x st p (node_at s) op"
    and "\<not> is_object_path (objects_root st) p" "content_ok x (objects_root st) (node_at s)"
  shows "good x st p s s' \<and> (r \<noteq> Panic \<longrightarrow> fs_late s' = [])
    \<and> (fs_late s' = [] \<or> fs_late s' = [op] \<and> node_at s' = node_at s)"
proof -
  obtain f s1 where f: "next_fault s = (f, s1)" by fastforce
  have s1: "node_at s1 = node_at s" "fs_late s1 = []" using next_fault_fields [OF f] assms(2) by auto
  have run: "good x st p s (snd (perform op' s1)) \<and> fs_late (snd (perform op' s1)) = []"
    if "op_ok x st p (node_at s) op'" for op'
    using good_perform [of x st p s1 op'] that assms(4,5) s1 by (simp add: good_def)
  have late: "node_at (s1\<lparr>fs_late := l\<rparr>) = node_at s" for l
    using s1(1) node_at_cong [of "s1\<lparr>fs_late := l\<rparr>" s1] by simp
  note call = assms(1) [unfolded sys_call_fault [OF f]]
  show ?thesis
  proof (cases f)
    case Fine
    with call have "perform op s1 = (r, s')" by simp
    with run [OF assms(3)] show ?thesis by simp
  next
    case (Fail n)
    with call have "s' = snd (perform (partial_op op n) s1)" by simp
    with run [OF op_ok_partial [OF assms(3)], of n] show ?thesis by simp
  next
    case (DropFuture d)
    show ?thesis
    proof (cases d)
      case EffectNever
      with DropFuture call have "s' = s1" by simp
      with s1 good_still [OF assms(5)] show ?thesis by simp
    next
      case EffectBefore
      with DropFuture call have "s' = snd (perform op s1)" "r = Panic" by simp_all
      with run [OF assms(3)] show ?thesis by simp
    next
      case EffectAfter
      with DropFuture call have "s' = s1\<lparr>fs_late := fs_late s1 @ [op]\<rparr>" "r = Panic" by simp_all
      with s1 late good_still [OF assms(5)] show ?thesis by simp
    qed
  qed
qed

section \<open>The machines\<close>

text \<open>
  What is known of a task that owns the place \<open>p\<close>: \<open>ok\<close> of a running phase, \<open>promise\<close> of a result, and
  that what is in flight is at most one allowed call.
\<close>

fun result_kept :: "('a \<Rightarrow> nodes \<Rightarrow> bool) \<Rightarrow> ('e, 'a) outcome \<Rightarrow> nodes \<Rightarrow> bool" where
  "result_kept promise (Ok a) f = promise a f"
| "result_kept promise (Err e) f = True"
| "result_kept promise Panic f = True"

definition flight_ok :: "externs \<Rightarrow> fs_store \<Rightarrow> path \<Rightarrow> fs_op list \<Rightarrow> nodes \<Rightarrow> bool" where
  "flight_ok x st p ops f \<longleftrightarrow> ops = [] \<or> (\<exists>op. ops = [op] \<and> op_ok x st p f op)"

fun task_ok ::
    "externs \<Rightarrow> fs_store \<Rightarrow> path \<Rightarrow> ('p \<Rightarrow> nodes \<Rightarrow> bool) \<Rightarrow> ('a \<Rightarrow> nodes \<Rightarrow> bool) \<Rightarrow> ('p, 'a) task
      \<Rightarrow> nodes \<Rightarrow> bool" where
  "task_ok x st p ok promise (Run ph) f = ok ph f"
| "task_ok x st p ok promise (Unwind r ops) f = (flight_ok x st p ops f \<and> result_kept promise r f)"
| "task_ok x st p ok promise (Settle r ops) f = (flight_ok x st p ops f \<and> result_kept promise r f)"
| "task_ok x st p ok promise (Ended r) f = result_kept promise r f"

definition step_ok ::
    "externs \<Rightarrow> fs_store \<Rightarrow> path \<Rightarrow> ('p \<Rightarrow> nodes \<Rightarrow> bool) \<Rightarrow> ('a \<Rightarrow> nodes \<Rightarrow> bool) \<Rightarrow> fs
      \<Rightarrow> ('p, 'a) task \<times> fs \<Rightarrow> bool" where
  "step_ok x st p ok promise s c \<longleftrightarrow>
     good x st p s (snd c) \<and> fs_late (snd c) = [] \<and> task_ok x st p ok promise (fst c) (node_at (snd c))"

text \<open>What is known of the crates and of where the store keeps its files.\<close>

definition setting :: "externs \<Rightarrow> fs_store \<Rightarrow> bool" where
  "setting x st \<longleftrightarrow> uuid_documented x \<and> sha256_documented x \<and> store_layout st"

locale task_machine =
  fixes x :: externs and st :: fs_store and p :: path
    and run :: "'p \<Rightarrow> fs \<Rightarrow> ('p, 'a) task \<times> fs"
    and ok :: "'p \<Rightarrow> nodes \<Rightarrow> bool" and promise :: "'a \<Rightarrow> nodes \<Rightarrow> bool"
  assumes own_place: "setting x st \<Longrightarrow> \<not> is_object_path (objects_root st) p"
    and run_ok: "setting x st \<Longrightarrow> content_ok x (objects_root st) (node_at s) \<Longrightarrow> fs_late s = [] \<Longrightarrow> ok ph (node_at s)
      \<Longrightarrow> step_ok x st p ok promise s (run ph s)"
    and ok_stable: "setting x st \<Longrightarrow> ok ph f \<Longrightarrow> kept (objects_root st) own f f' \<Longrightarrow> p \<notin> own \<Longrightarrow> ok ph f'"
    and promise_stable: "promise a f \<Longrightarrow> kept (objects_root st) own f f' \<Longrightarrow> promise a f'"
begin

lemma result_stable:
  "result_kept promise r f \<Longrightarrow> kept (objects_root st) own f f' \<Longrightarrow> result_kept promise r f'"
  by (cases r) (auto intro: promise_stable)

lemma kept_own:
  "setting x st \<Longrightarrow> kept (objects_root st) own f f' \<Longrightarrow> p \<notin> own
    \<Longrightarrow> node_content (f' p) \<in> {None, node_content (f p)}"
  using own_place by (simp add: kept_def)

lemma flight_stable:
  "flight_ok x st p ops f \<Longrightarrow> node_content (f' p) \<in> {None, node_content (f p)} \<Longrightarrow> flight_ok x st p ops f'"
  using op_ok_stable [of x st p f _ f'] by (auto simp: flight_ok_def)

text \<open>Steps of other processes do not disturb a task.\<close>

lemma task_stable:
  assumes "setting x st" "task_ok x st p ok promise t f" "kept (objects_root st) own f f'" "p \<notin> own"
  shows "task_ok x st p ok promise t f'"
  using assms flight_stable [where f = f and f' = f', OF _ kept_own [OF assms(1,3,4)]]
  by (cases t) (auto intro: ok_stable [OF assms(1)] result_stable)

lemma guard_good:
  assumes "setting x st" "content_ok x (objects_root st) (node_at s)"
  shows "good x st p s (guard_drop p s)
    \<and> node_content (node_at (guard_drop p s) p) \<in> {None, node_content (node_at s p)}"
proof -
  have "good x st p s (guard_drop p s)"
  proof (cases "fs_drop_faults s")
    case Nil
    then show ?thesis
      using good_perform [of x st p s "OpRemove p"] assms own_place
      by (simp add: guard_drop_def sync_remove_def)
  next
    case (Cons b bs)
    let ?s = "s\<lparr>fs_drop_faults := bs\<rparr>"
    have "node_at ?s = node_at s" by (rule node_at_cong) simp
    with good_perform [of x st p ?s "OpRemove p"] good_still [of x st s ?s p] assms own_place Cons
    show ?thesis by (simp add: guard_drop_def sync_remove_def Let_def good_def)
  qed
  then show ?thesis using guard_drop_file [of p s p] by (auto simp: file_at_def)
qed

text \<open>A step of the task itself.\<close>

lemma task_step_ok:
  assumes documented: "setting x st"
    and content: "content_ok x (objects_root st) (node_at s)" and late: "fs_late s = []"
    and t: "task_ok x st p ok promise t (node_at s)"
  shows "step_ok x st p ok promise s (task_step p run t s)"
proof (cases t)
  case (Run ph)
  with t run_ok [OF documented content late] show ?thesis by (simp add: task_step_def)
next
  case (Unwind r ops)
  from guard_good [OF documented content] have g: "good x st p s (guard_drop p s)"
    and own: "node_content (node_at (guard_drop p s) p) \<in> {None, node_content (node_at s p)}" by auto
  from g have "kept (objects_root st) ({p} - {[]}) (node_at s) (node_at (guard_drop p s))" by (simp add: good_def)
  with t Unwind have "result_kept promise r (node_at (guard_drop p s))"
    by (auto intro: result_stable)
  moreover have "flight_ok x st p ops (node_at (guard_drop p s))"
    using t Unwind flight_stable [where f = "node_at s" and f' = "node_at (guard_drop p s)", OF _ own] by simp
  ultimately show ?thesis using g late Unwind by (simp add: task_step_def step_ok_def)
next
  case (Settle r ops)
  show ?thesis
  proof (cases ops)
    case Nil
    with t Settle late content show ?thesis
      by (simp add: task_step_def step_ok_def good_still)
  next
    case (Cons op rest)
    with t Settle have op: "op_ok x st p (node_at s) op" and rest: "rest = []"
      and r: "result_kept promise r (node_at s)" by (auto simp: flight_ok_def)
    have g: "good x st p s (snd (perform op s))" by (rule good_perform [OF op own_place [OF documented] content])
    then have "kept (objects_root st) ({p} - {[]}) (node_at s) (node_at (snd (perform op s)))" by (simp add: good_def)
    from result_stable [OF r this] g late Settle Cons rest show ?thesis
      by (simp add: task_step_def step_ok_def flight_ok_def)
  qed
next
  case (Ended r)
  with t late content show ?thesis by (simp add: task_step_def step_ok_def good_still)
qed

end

text \<open>The two ways in which a phase makes a call.\<close>

definition stops :: "((storage_error, 'a) outcome \<Rightarrow> fs_op list \<Rightarrow> ('p, 'a) task) \<Rightarrow> bool" where
  "stops stop \<longleftrightarrow> stop = Unwind \<or> stop = Settle"

lemma stop_ok:
  "stops stop \<Longrightarrow> task_ok x st p ok promise (stop r ops) f \<longleftrightarrow> flight_ok x st p ops f \<and> result_kept promise r f"
  by (auto simp: stops_def)

lemma stops_simps [simp]: "stops Unwind" "stops Settle"
  by (simp_all add: stops_def)

lemma task_call_ok:
  assumes "fs_late s = []" "op_ok x st p (node_at s) op" "\<not> is_object_path (objects_root st) p"
    and "content_ok x (objects_root st) (node_at s)" "stops stop"
    and next_ok: "\<And>s'. sys_call op s = (Ok (), s') \<Longrightarrow> content_ok x (objects_root st) (node_at s')
      \<Longrightarrow> task_ok x st p ok promise next (node_at s')"
  shows "step_ok x st p ok promise s (task_call stop context op next s)"
proof -
  obtain r s' where c: "sys_call op s = (r, s')" by fastforce
  note g = good_call [OF c assms(1-4)]
  have late: "node_at (s'\<lparr>fs_late := []\<rparr>) = node_at s'" by (rule node_at_cong) simp
  show ?thesis
  proof (cases r)
    case (Ok u)
    then have t: "task_call stop context op next s = (next, s')"
      using c by (simp add: task_call_def io_call_def st_map_err_def)
    have "task_ok x st p ok promise next (node_at s')"
      using next_ok c Ok g by (simp add: good_def)
    with t g Ok show ?thesis by (simp add: step_ok_def)
  next
    case (Err k)
    then have t: "task_call stop context op next s = (stop (Err (StorageIo (lit context) k)) [], s')"
      using c by (simp add: task_call_def io_call_def st_map_err_def)
    with g Err assms(5) show ?thesis by (simp add: step_ok_def stop_ok flight_ok_def)
  next
    case Panic
    then have t: "task_call stop context op next s = (stop Panic (fs_late s'), s'\<lparr>fs_late := []\<rparr>)"
      using c by (simp add: task_call_def io_call_def st_map_err_def)
    have "flight_ok x st p (fs_late s') (node_at s')" using g assms(2) by (auto simp: flight_ok_def)
    with t g late assms(5) show ?thesis by (simp add: step_ok_def stop_ok good_def)
  qed
qed

text \<open>Code that only looks.\<close>

definition looking :: "(fs, 'e, 'b) stateful \<Rightarrow> bool" where
  "looking m \<longleftrightarrow> (\<forall>s r s'. m s = (r, s') \<longrightarrow> node_at s' = node_at s \<and> fs_late s' = fs_late s)"

lemma looking_look [simp]: "looking (sys_look look)"
  by (auto simp: looking_def sys_look_def dest!: next_fault_fields split: prod.splits fault.splits)

lemma looking_io_call [simp]: "looking m \<Longrightarrow> looking (io_call c m)"
  by (fastforce simp: looking_def io_call_def st_map_err_def split: prod.splits)

lemma task_look_ok:
  assumes "fs_late s = []" "content_ok x (objects_root st) (node_at s)" "looking m" "stops stop"
    and next_ok: "\<And>b s'. m s = (Ok b, s') \<Longrightarrow> task_ok x st p ok promise (next b) (node_at s)"
  shows "step_ok x st p ok promise s (task_look stop m next s)"
proof -
  obtain r s' where c: "m s = (r, s')" by fastforce
  with assms(1,3) have s': "node_at s' = node_at s" "fs_late s' = []" by (auto simp: looking_def)
  then have "good x st p s s'" by (intro good_still [OF assms(2)])
  with s' c assms(4) next_ok show ?thesis
    by (cases r) (simp_all add: task_look_def step_ok_def stop_ok flight_ok_def)
qed

end
