(* ===== verification/ConcurrentSafe.thy ===== *)
theory ConcurrentSafe
  imports ConcurrentFacts
begin

text \<open>
  The machines of \<open>Concurrent\<close> as \<open>task_machine\<close>s, and the invariant of a pool: what every process
  knows holds, whatever the others do.
\<close>

section \<open>Uploads\<close>

definition put_promise :: "externs \<Rightarrow> fs_store \<Rightarrow> object_namespace \<Rightarrow> stored_object \<Rightarrow> nodes \<Rightarrow> bool" where
  "put_promise x st ns so f \<longleftrightarrow> so_key so = ObjectKey (key_text x ns (so_sha256 so))
     \<and> node_content (f (object_path x st ns (so_sha256 so))) \<noteq> None"

text \<open>What is published is what the staging file holds, unless the file is gone.\<close>

definition put_named ::
    "externs \<Rightarrow> fs_store \<Rightarrow> object_namespace \<Rightarrow> path \<Rightarrow> stored_object \<Rightarrow> path \<Rightarrow> nodes \<Rightarrow> bool" where
  "put_named x st ns p so final f \<longleftrightarrow> (\<exists>h. node_content (f p) \<in> {None, Some h}
     \<and> so_sha256 so = content_digest x h \<and> so_key so = ObjectKey (key_text x ns (so_sha256 so))
     \<and> final = object_path x st ns (so_sha256 so))"

fun put_ok ::
    "externs \<Rightarrow> fs_store \<Rightarrow> object_namespace \<Rightarrow> path \<Rightarrow> put_phase \<Rightarrow> nodes \<Rightarrow> bool" where
  "put_ok x st ns p (PutCreate body) f = True"
| "put_ok x st ns p (PutWrite cs h n) f = (node_content (f p) \<in> {None, Some h})"
| "put_ok x st ns p (PutFlush h n) f = (node_content (f p) \<in> {None, Some h})"
| "put_ok x st ns p (PutFsync h n) f = (node_content (f p) \<in> {None, Some h})"
| "put_ok x st ns p (PutHash h n) f = (node_content (f p) \<in> {None, Some h})"
| "put_ok x st ns p (PutDir so final) f = put_named x st ns p so final f"
| "put_ok x st ns p (PutMode so final) f = put_named x st ns p so final f"
| "put_ok x st ns p (PutStat so final) f = put_named x st ns p so final f"
| "put_ok x st ns p (PutRename so final) f = put_named x st ns p so final f"
| "put_ok x st ns p (PutSyncOpen so dir) f = put_promise x st ns so f"
| "put_ok x st ns p (PutSync so) f = put_promise x st ns so f"

lemma put_named_stable:
  "put_named x st ns p so final f \<Longrightarrow> node_content (f' p) \<in> {None, node_content (f p)}
    \<Longrightarrow> put_named x st ns p so final f'"
  unfolding put_named_def by (elim exE) (rule exI, auto)

lemma put_promise_stable:
  "put_promise x st ns so f \<Longrightarrow> kept (objects_root st) own f f' \<Longrightarrow> put_promise x st ns so f'"
  by (auto simp: put_promise_def kept_def)

lemma call_keeps_node:
  assumes "sys_call op s = (Ok (), s')" "p \<notin> set (op_files op)"
  shows "node_content (node_at s' p) = node_content (node_at s p)"
proof -
  from sys_call_Ok [OF assms(1)] obtain s1 where s1: "node_at s1 = node_at s"
    and "perform op s1 = (Ok (), s')" by blast
  then have "s' = snd (perform op s1)" by simp
  with s1 perform_content_other [OF assms(2), of s1] show ?thesis by simp
qed

lemma write_gone:
  assumes "sys_call (OpWrite p bs) s = (Ok (), s')" "node_content (node_at s p) = None"
  shows "node_content (node_at s' p) = None"
  using assms
  by (auto simp: perform.simps dest!: sys_call_Ok split: option.splits node.splits)

lemma looking_stat_existing [simp]: "looking (stat_existing p n)"
  unfolding looking_def
proof (intro allI impI)
  fix s r s' assume e: "stat_existing p n s = (r, s')"
  obtain r1 s1 where m: "symlink_metadata p s = (r1, s1)" by fastforce
  then have "s' = s1" using e by (auto simp: stat_existing_def split: outcome.splits io_kind.splits)
  with m looking_look [of "look_node p"] show "node_at s' = node_at s \<and> fs_late s' = fs_late s"
    by (simp add: symlink_metadata_def looking_def)
qed

lemma put_hash_ok:
  assumes "setting x st" "node_content (f p) \<in> {None, Some h}"
  shows "task_ok x st p (put_ok x st ns p) (put_promise x st ns) (put_hash x st ns h n) f"
proof -
  have "put_hash x st ns h n =
      Run (PutDir \<lparr>so_key = ObjectKey (key_text x ns (content_digest x h)), so_sha256 = content_digest x h,
              so_size_bytes = n, so_already_present = False\<rparr> (object_path x st ns (content_digest x h)))"
    using assms(1) by (simp add: put_hash_def setting_def content_digest_def [symmetric] Let_def
        key_for_digest_Ok content_digest_hex resolve_key_text)
  with assms(2) show ?thesis by (auto simp: put_named_def)
qed

lemma create_call_content:
  "sys_call (OpCreate p) s = (Ok (), s') \<Longrightarrow> node_content (node_at s' p) = Some []"
  by (auto simp: perform.simps dest!: sys_call_Ok split: option.splits if_splits)

lemma write_call_content:
  assumes "sys_call (OpWrite p bs) s = (Ok (), s')" "node_content (node_at s p) \<in> {None, Some h}"
  shows "node_content (node_at s' p) \<in> {None, Some (h @ bs)}"
  using assms write_gone [OF assms(1)] write_content [OF assms(1), of h] by blast

lemma rename_promise:
  assumes "sys_call (OpRename p final) s = (Ok (), s')" "put_named x st ns p so final (node_at s)"
    and "p \<noteq> final"
  shows "put_promise x st ns so (node_at s')"
proof -
  from sys_call_Ok [OF assms(1)] obtain s1 where s1: "node_at s1 = node_at s"
    and run: "perform (OpRename p final) s1 = (Ok (), s')" by blast
  from run have "node_content (node_at s1 p) \<noteq> None"
    by (auto simp: perform.simps split: option.splits node.splits)
  moreover have "node_content (node_at s' final) = node_content (node_at s1 p)"
    using perform_rename_content [OF assms(3), of s1 final] run assms(3) by simp
  ultimately show ?thesis using assms(2) by (auto simp: put_promise_def put_named_def)
qed

lemma named_op_ok:
  "put_named x st ns p so final f \<Longrightarrow> p \<noteq> [] \<Longrightarrow> op_ok x st p f (OpRename p final)"
  unfolding put_named_def by (elim exE conjE) (simp, blast)

lemma places_nonempty [simp]: "staging_path x st fresh \<noteq> []" "probe_path x st fresh \<noteq> []"
  by (simp_all add: staging_path_def probe_path_def)

lemma put_ok_stable:
  "put_ok x st ns p ph f \<Longrightarrow> kept (objects_root st) own f f' \<Longrightarrow> node_content (f' p) \<in> {None, node_content (f p)}
    \<Longrightarrow> put_ok x st ns p ph f'"
  by (cases ph) (auto intro: put_named_stable put_promise_stable)

lemma put_step_ok:
  assumes "setting x st" and c: "content_ok x (objects_root st) (node_at s)" and l: "fs_late s = []"
    and ok: "put_ok x st ns (staging_path x st fresh) ph (node_at s)"
  shows "step_ok x st (staging_path x st fresh) (put_ok x st ns (staging_path x st fresh))
    (put_promise x st ns) s (put_step x st ns (staging_path x st fresh) ph s)"
proof -
  let ?p = "staging_path x st fresh"
  have p: "\<not> is_object_path (objects_root st) ?p" using assms(1) by (simp add: setting_def staging_not_object)
  note call = task_call_ok [OF l _ p c stops_simps(1)] and look = task_look_ok [OF l c _ stops_simps(1)]
  have same: "node_content (node_at s' ?p) \<in> {None, node_content (node_at s ?p)}"
    if "sys_call op s = (Ok (), s')" "set (op_files op) = {}" for op s'
    using call_keeps_node [OF that(1), of ?p] that(2) by simp
  show ?thesis
  proof (cases ph)
    case (PutCreate body)
    have "step_ok x st ?p (put_ok x st ns ?p) (put_promise x st ns) s
        (task_call Unwind ''create staging file'' (OpCreate ?p) (Run (PutWrite body [] 0)) s)"
      by (rule call) (simp_all add: create_call_content)
    with PutCreate show ?thesis by simp
  next
    case (PutWrite cs h n)
    show ?thesis
    proof (cases cs)
      case Nil
      with PutWrite ok l c show ?thesis by (simp add: step_ok_def good_still)
    next
      case (Cons b bs)
      show ?thesis
      proof (cases b)
        case (Ok chunk)
        have "step_ok x st ?p (put_ok x st ns ?p) (put_promise x st ns) s
            (task_call Unwind ''write staging file'' (OpWrite ?p chunk)
              (Run (PutWrite bs (h @ chunk) (n + of_nat (length chunk)))) s)"
        proof (rule call)
          fix s' assume "sys_call (OpWrite ?p chunk) s = (Ok (), s')"
          from write_call_content [OF this] ok PutWrite
          show "task_ok x st ?p (put_ok x st ns ?p) (put_promise x st ns)
              (Run (PutWrite bs (h @ chunk) (n + of_nat (length chunk)))) (node_at s')" by simp
        qed simp
        with PutWrite Cons Ok show ?thesis by simp
      qed (use PutWrite Cons l c in \<open>simp_all add: step_ok_def good_still flight_ok_def\<close>)
    qed
  next
    case (PutHash h n)
    with ok l c put_hash_ok [OF assms(1), of "node_at s"] show ?thesis by (simp add: step_ok_def good_still)
  next
    case (PutFlush h n)
    have "step_ok x st ?p (put_ok x st ns ?p) (put_promise x st ns) s
        (task_call Unwind ''flush staging file'' OpFlush (Run (PutFsync h n)) s)"
      by (rule call) (use ok PutFlush in \<open>auto dest!: same\<close>)
    with PutFlush show ?thesis by simp
  next
    case (PutFsync h n)
    have "step_ok x st ?p (put_ok x st ns ?p) (put_promise x st ns) s
        (task_call Unwind ''fsync staging file'' OpFlush (Run (PutHash h n)) s)"
      by (rule call) (use ok PutFsync in \<open>auto dest!: same\<close>)
    with PutFsync show ?thesis by simp
  next
    case (PutDir so final)
    have "step_ok x st ?p (put_ok x st ns ?p) (put_promise x st ns) s
        (task_call Unwind ''create storage directory'' (OpMkdirAll (butlast final)) (Run (PutMode so final)) s)"
      by (rule call) (use ok PutDir in \<open>auto dest!: same intro: put_named_stable\<close>)
    with PutDir show ?thesis by simp
  next
    case (PutMode so final)
    have "step_ok x st ?p (put_ok x st ns ?p) (put_promise x st ns) s
        (task_call Unwind ''restrict storage directory'' (OpChmod (butlast final) 0x1C0) (Run (PutStat so final)) s)"
      by (rule call) (use ok PutMode in \<open>auto dest!: same intro: put_named_stable\<close>)
    with PutMode show ?thesis by simp
  next
    case (PutStat so final)
    let ?next = "\<lambda>already_present. if already_present
        then Unwind (Ok (so\<lparr>so_already_present := True\<rparr>)) [] else Run (PutRename so final)"
    have "step_ok x st ?p (put_ok x st ns ?p) (put_promise x st ns) s
        (task_look Unwind (stat_existing final (so_size_bytes so)) ?next s)"
    proof (rule look)
      fix b s' assume "stat_existing final (so_size_bytes so) s = (Ok b, s')"
      from stat_existing_Ok [OF this] ok PutStat
      show "task_ok x st ?p (put_ok x st ns ?p) (put_promise x st ns) (?next b) (node_at s)"
        by (cases b) (auto simp: flight_ok_def put_promise_def put_named_def file_at_def)
    qed simp
    with PutStat show ?thesis by simp
  next
    case (PutRename so final)
    with ok have named: "put_named x st ns ?p so final (node_at s)" by simp
    then have "?p \<noteq> final" using assms(1) by (auto simp: put_named_def setting_def staging_ne_object)
    with named have "step_ok x st ?p (put_ok x st ns ?p) (put_promise x st ns) s
        (task_call Unwind ''publish staging file'' (OpRename ?p final) (Run (PutSyncOpen so (butlast final))) s)"
      using \<open>?p \<noteq> final\<close> by (intro call) (auto intro: rename_promise named_op_ok simp del: op_ok.simps)
    with PutRename show ?thesis by simp
  next
    case (PutSyncOpen so dir)
    obtain r s' where e: "sys_look (look_node dir) s = (r, s')" by fastforce
    with looking_look [of "look_node dir"] l have "node_at s' = node_at s" "fs_late s' = []"
      unfolding looking_def by metis+
    with e PutSyncOpen ok good_still [OF c] show ?thesis
      by (cases r) (simp_all add: step_ok_def flight_ok_def)
  next
    case (PutSync so)
    obtain r s' where e: "sys_call OpFlush s = (r, s')" by fastforce
    from good_call [OF e l _ p c] have g: "good x st ?p s s'" "r \<noteq> Panic \<longrightarrow> fs_late s' = []"
      "fs_late s' = [] \<or> fs_late s' = [OpFlush]" by auto
    have n: "node_at (s'\<lparr>fs_late := []\<rparr>) = node_at s'" by (rule node_at_cong) simp
    from flush_node_at [OF e] have "node_at s' = node_at s" .
    with e PutSync ok g n show ?thesis
      by (cases r) (auto simp: step_ok_def flight_ok_def good_def)
  qed
qed

interpretation uploading: task_machine x st "staging_path x st fresh"
    "put_step x st ns (staging_path x st fresh)" "put_ok x st ns (staging_path x st fresh)"
    "put_promise x st ns" for x st fresh ns
proof
  show own: "\<not> is_object_path (objects_root st) (staging_path x st fresh)" if "setting x st"
    using that by (simp add: setting_def staging_not_object)
  show "put_ok x st ns (staging_path x st fresh) ph f'"
    if "setting x st" "put_ok x st ns (staging_path x st fresh) ph f"
      "kept (objects_root st) own f f'" "staging_path x st fresh \<notin> own" for ph f own f'
    using put_ok_stable [OF that(2,3)] that(3,4) own [OF that(1)] by (simp add: kept_def)
qed (fact put_step_ok put_promise_stable)+

section \<open>Sweeps, health checks and reads\<close>

lemma looking_symlink_metadata [simp]: "looking (symlink_metadata p)"
  by (simp add: symlink_metadata_def)

lemma looking_metadata_is_dir [simp]: "looking (metadata_is_dir p)"
  by (simp add: metadata_is_dir_def)

lemma looking_read_dir [simp]: "looking (read_dir d)"
  by (simp add: read_dir_def)

lemma looking_next_entry [simp]: "looking next_entry"
  by (simp add: next_entry_def)

lemma looking_stat_object [simp]: "looking (stat_object key p)"
  using looking_symlink_metadata [of p]
  by (fastforce simp: looking_def stat_object_def st_map_err_def split: prod.splits)

text \<open>A sweep owns nothing; its calls remove names of the staging directory.\<close>

lemma sweep_step_ok:
  assumes "setting x st" and c: "content_ok x (objects_root st) (node_at s)" and l: "fs_late s = []"
  shows "step_ok x st [] (\<lambda>ph f. True) (\<lambda>sw f. True) s (sweep_step st ph s)"
proof -
  have p: "\<not> is_object_path (objects_root st) []" by (simp add: is_object_path_def)
  have o: "\<not> is_object_path (objects_root st) (staging_root st @ [name])" for name
    using assms(1) object_not_staged by (auto simp: setting_def)
  note look = task_look_ok [OF l c _ stops_simps(2)]
  show ?thesis
  proof (cases ph)
    case (SweepRead age)
    then show ?thesis by (auto intro!: look)
  next
    case (SweepNow age names)
    then show ?thesis using l c by (simp add: step_ok_def good_still)
  next
    case (SweepNext cutoff names sw)
    then show ?thesis by (auto intro!: look simp: flight_ok_def split: list.split)
  next
    case (SweepStat cutoff name names sw)
    obtain r s' where e: "symlink_metadata (staging_root st @ [name]) s = (r, s')" by fastforce
    with looking_symlink_metadata l have "node_at s' = node_at s" "fs_late s' = []"
      unfolding looking_def by metis+
    with e SweepStat good_still [OF c] show ?thesis
      by (auto simp: step_ok_def flight_ok_def split: outcome.split io_kind.split)
  next
    case (SweepRemove cutoff name n names sw)
    obtain r s' where e: "sys_call (OpRemove (staging_root st @ [name])) s = (r, s')" by fastforce
    have "good x st [] s s' \<and> (r \<noteq> Panic \<longrightarrow> fs_late s' = [])
        \<and> (fs_late s' = [] \<or> fs_late s' = [OpRemove (staging_root st @ [name])] \<and> node_at s' = node_at s)"
      by (rule good_call [OF e l _ p c]) (simp add: o)
    moreover have "node_at (s'\<lparr>fs_late := []\<rparr>) = node_at s'" by (rule node_at_cong) simp
    ultimately show ?thesis
      using e SweepRemove o
      by (auto simp: step_ok_def flight_ok_def good_def split: outcome.split io_kind.split)
  qed
qed

interpretation sweeping: task_machine x st "[]" "sweep_step st" "\<lambda>ph f. True" "\<lambda>sw f. True" for x st
proof
  show "\<not> is_object_path (objects_root st) []" by (simp add: is_object_path_def)
qed (simp_all add: sweep_step_ok)

lemma health_step_ok:
  assumes "setting x st" and c: "content_ok x (objects_root st) (node_at s)" and l: "fs_late s = []"
  shows "step_ok x st (probe_path x st fresh) (\<lambda>ph f. True) (\<lambda>u f. True) s
    (health_step (probe_path x st fresh) ph s)"
proof -
  have p: "\<not> is_object_path (objects_root st) (probe_path x st fresh)"
    using assms(1) probe_not_object by (simp add: setting_def)
  note call = task_call_ok [OF l _ p c stops_simps(1)] and look = task_look_ok [OF l c _ stops_simps(2)]
  show ?thesis
  proof (cases ph)
    case (HealthCheck ds)
    show ?thesis
    proof (cases ds)
      case Nil
      with HealthCheck l c show ?thesis by (simp add: step_ok_def good_still)
    qed (use HealthCheck in \<open>auto intro!: look simp: flight_ok_def\<close>)
  qed (auto intro!: call simp: flight_ok_def)
qed

interpretation probing: task_machine x st "probe_path x st fresh" "health_step (probe_path x st fresh)"
    "\<lambda>ph f. True" "\<lambda>u f. True" for x st fresh
proof
  show "\<not> is_object_path (objects_root st) (probe_path x st fresh)" if "setting x st"
    using that probe_not_object by (simp add: setting_def)
qed (simp_all add: health_step_ok)

text \<open>A read keeps that its object is there; what it returns hashes to the name, for good.\<close>

definition read_promise :: "externs \<Rightarrow> fs_store \<Rightarrow> object_key \<Rightarrow> object_body \<Rightarrow> nodes \<Rightarrow> bool" where
  "read_promise x st key b f \<longleftrightarrow> content_digest x (ob_content b) = key_digest key"

fun read_ok :: "externs \<Rightarrow> fs_store \<Rightarrow> object_key \<Rightarrow> read_phase \<Rightarrow> nodes \<Rightarrow> bool" where
  "read_ok x st key ReadStat f = (object_key_parse x (key_str key) = Ok key)"
| "read_ok x st key (ReadOpen path n) f =
     (is_object_path (objects_root st) path \<and> last path = key_digest key \<and> node_content (f path) \<noteq> None)"

lemma read_step_ok:
  assumes "setting x st" and c: "content_ok x (objects_root st) (node_at s)" and l: "fs_late s = []"
    and ok: "read_ok x st key ph (node_at s)"
  shows "step_ok x st [] (read_ok x st key) (read_promise x st key) s (read_step st key ph s)"
proof -
  note look = task_look_ok [OF l c _ stops_simps(2)]
  show ?thesis
  proof (cases ph)
    case ReadStat
    with ok parsed_key_resolves [of x "key_str key" key "objects_root st"] obtain path where
      path: "resolve_within (objects_root st) key = Ok path" "is_object_path (objects_root st) path"
        "last path = key_digest key"
      by (auto simp: is_object_path_def)
    let ?next = "\<lambda>metadata. if \<not> node_is_file metadata
        then Settle (Err (InvalidKey (lit ''stored path is not a regular file''))) []
        else Run (ReadOpen path metadata)"
    have "step_ok x st [] (read_ok x st key) (read_promise x st key) s
        (task_look Settle (stat_object key path) ?next s)"
    proof (rule look)
      fix b s' assume "stat_object key path s = (Ok b, s')"
      then have "node_at s path = Some b" by (auto simp: stat_object_def outcome_simps dest: stat_Ok)
      with path show "task_ok x st [] (read_ok x st key) (read_promise x st key) (?next b) (node_at s)"
        by (cases b) (simp_all add: flight_ok_def)
    qed simp
    with ReadStat path show ?thesis by simp
  next
    case (ReadOpen path metadata)
    let ?next = "\<lambda>opened. Settle (Ok \<lparr>ob_size_bytes = of_nat (node_len metadata),
                   ob_content = (case opened of File m c t \<Rightarrow> c | _ \<Rightarrow> [])\<rparr>) []"
    have "step_ok x st [] (read_ok x st key) (read_promise x st key) s
        (task_look Settle (io_call ''open object'' (sys_look (look_node path))) ?next s)"
    proof (rule look)
      fix b s' assume "io_call ''open object'' (sys_look (look_node path)) s = (Ok b, s')"
      then have b: "node_at s path = Some b"
        by (auto simp: io_call_def outcome_simps symlink_metadata_def [symmetric] dest: stat_Ok)
      with ok ReadOpen obtain m cnt t where "b = File m cnt t" by (cases b) auto
      with b ok ReadOpen content_okD [OF c, of path cnt]
      show "task_ok x st [] (read_ok x st key) (read_promise x st key) (?next b) (node_at s)"
        by (simp add: flight_ok_def read_promise_def)
    qed simp
    with ReadOpen show ?thesis by simp
  qed
qed

interpretation reading: task_machine x st "[]" "read_step st key" "read_ok x st key"
    "read_promise x st key" for x st key
proof
  show "\<not> is_object_path (objects_root st) []" by (simp add: is_object_path_def)
  show "read_ok x st key ph f'" if "read_ok x st key ph f" "kept (objects_root st) own f f'" for ph f own f'
    using that by (cases ph) (auto simp: kept_def)
qed (simp_all add: read_step_ok read_promise_def)

end
