(* ===== verification/ConcurrentPool.thy ===== *)
theory ConcurrentPool
  imports ConcurrentSafe
begin

text \<open>
  The invariant of a pool of operations on one store, and the promise of every finished operation.
\<close>

section \<open>The invariant\<close>

fun process_own :: "externs \<Rightarrow> fs_store \<Rightarrow> process \<Rightarrow> path" where
  "process_own x st (Uploading fresh ns t) = staging_path x st fresh"
| "process_own x st (Sweeping t) = []"
| "process_own x st (Probing fresh t) = probe_path x st fresh"
| "process_own x st (Reading key t) = []"

fun process_ok :: "externs \<Rightarrow> fs_store \<Rightarrow> process \<Rightarrow> nodes \<Rightarrow> bool" where
  "process_ok x st (Uploading fresh ns t) f =
     task_ok x st (staging_path x st fresh) (put_ok x st ns (staging_path x st fresh))
       (put_promise x st ns) t f"
| "process_ok x st (Sweeping t) f = task_ok x st [] (\<lambda>ph f. True) (\<lambda>sw f. True) t f"
| "process_ok x st (Probing fresh t) f =
     task_ok x st (probe_path x st fresh) (\<lambda>ph f. True) (\<lambda>u f. True) t f"
| "process_ok x st (Reading key t) f = task_ok x st [] (read_ok x st key) (read_promise x st key) t f"

lemma process_step_ok:
  assumes "setting x st" "content_ok x (objects_root st) (node_at s)" "fs_late s = []"
    and "process_ok x st p (node_at s)" "process_step x st p s = (p', s')"
  shows "good x st (process_own x st p) s s' \<and> fs_late s' = [] \<and> process_ok x st p' (node_at s')
    \<and> process_own x st p' = process_own x st p \<and> process_uuid p' = process_uuid p"
proof (cases p)
  case (Uploading fresh ns t)
  with assms uploading.task_step_ok [OF assms(1-3), of fresh ns t] show ?thesis
    by (auto simp: Let_def step_ok_def apfst_def map_prod_def split: prod.splits)
next
  case (Sweeping t)
  with assms sweeping.task_step_ok [OF assms(1-3), of t] show ?thesis
    by (auto simp: step_ok_def apfst_def map_prod_def split: prod.splits)
next
  case (Probing fresh t)
  with assms probing.task_step_ok [OF assms(1-3), of fresh t] show ?thesis
    by (auto simp: Let_def step_ok_def apfst_def map_prod_def split: prod.splits)
next
  case (Reading key t)
  with assms reading.task_step_ok [OF assms(1-3), of key t] show ?thesis
    by (auto simp: step_ok_def apfst_def map_prod_def split: prod.splits)
qed

lemma process_stable:
  assumes "setting x st" "process_ok x st p f" "kept (objects_root st) own f f'"
    and "process_own x st p \<notin> own"
  shows "process_ok x st p f'"
  using assms
  by (cases p) (auto intro: uploading.task_stable sweeping.task_stable probing.task_stable
      reading.task_stable)

text \<open>Two processes with different names own different places.\<close>

lemma staging_ne_probe: "staging_path x st a \<noteq> probe_path x st b"
proof
  assume "staging_path x st a = probe_path x st b"
  then have "uuid_to_string x a @ lit ''.part'' = (lit ''health-'' @ uuid_to_string x b) @ lit ''.probe''"
    by (simp add: staging_path_def probe_path_def)
  then have "last (lit ''.part'') = last (lit ''.probe'')"
    by (metis last_appendR lit_eq_Nil list.discI)
  then show False by (simp add: lit_def)
qed

lemma process_own_uuid:
  assumes "uuid_documented x" "process_own x st p = process_own x st q" "process_own x st p \<noteq> []"
  shows "process_uuid p = process_uuid q \<and> process_uuid p \<noteq> None"
  using assms staging_ne_probe [of x st] staging_ne_probe [of x st, symmetric]
    injD [OF uuid_display_inj [OF assms(1)]]
  by (cases p; cases q) (auto simp: staging_path_def probe_path_def)

definition named_apart :: "process list \<Rightarrow> bool" where
  "named_apart ps \<longleftrightarrow> (\<forall>i<length ps. \<forall>j<length ps. i \<noteq> j \<longrightarrow> process_uuid (ps ! i) \<noteq> None
     \<longrightarrow> process_uuid (ps ! i) \<noteq> process_uuid (ps ! j))"

definition pool_inv :: "externs \<Rightarrow> fs_store \<Rightarrow> path set \<Rightarrow> pool \<Rightarrow> bool" where
  "pool_inv x st A c \<longleftrightarrow> store_inv x st A (snd c)
     \<and> named_apart (fst c) \<and> (\<forall>p\<in>set (fst c). process_ok x st p (node_at (snd c)))"

lemma store_inv_good:
  assumes "store_inv x st A s" "good x st p s s'" "fs_late s' = []"
  shows "store_inv x st A s'"
proof -
  have stay: "node_content (node_at s' q) \<noteq> None"
    if "is_object_path (objects_root st) q" "node_content (node_at s q) \<noteq> None" for q
    using assms(2) that by (simp add: good_def kept_def)
  have "objects_present A (node_at s')"
    using assms(1) stay by (simp add: store_inv_def objects_present_def)
  with assms show ?thesis by (simp add: store_inv_def good_def at_rest_def)
qed

lemma step_apart:
  assumes "named_apart ps" "i < length ps" "process_uuid p' = process_uuid (ps ! i)"
  shows "named_apart (ps[i := p'])"
proof -
  have "process_uuid (ps[i := p'] ! j) = process_uuid (ps ! j)" for j
    using assms(2,3) by (cases "j = i") simp_all
  with assms(1) show ?thesis by (simp add: named_apart_def)
qed

lemma pool_inv_step:
  assumes "setting x st" "pool_inv x st A (ps, s)" "i < length ps"
    and "process_step x st (ps ! i) s = (p', s')"
  shows "pool_inv x st A (ps[i := p'], s')"
proof -
  have inv: "store_inv x st A s" "named_apart ps" "\<forall>p\<in>set ps. process_ok x st p (node_at s)"
    using assms(2) by (simp_all add: pool_inv_def)
  then have content: "content_ok x (objects_root st) (node_at s)" and late: "fs_late s = []"
    by (simp_all add: store_inv_def at_rest_def)
  have "process_ok x st (ps ! i) (node_at s)" using inv(3) assms(3) by simp
  from process_step_ok [OF assms(1) content late this assms(4)]
  have g: "good x st (process_own x st (ps ! i)) s s'" and l: "fs_late s' = []"
    and p': "process_ok x st p' (node_at s')" and u: "process_uuid p' = process_uuid (ps ! i)" by auto
  from g have k: "kept (objects_root st) ({process_own x st (ps ! i)} - {[]}) (node_at s) (node_at s')"
    by (simp add: good_def)
  have "process_ok x st (ps[i := p'] ! j) (node_at s')" if j: "j < length ps" for j
  proof (cases "j = i")
    case False
    have "process_own x st (ps ! j) \<notin> {process_own x st (ps ! i)} - {[]}"
      using process_own_uuid [of x st "ps ! j" "ps ! i"] inv(2) j assms(1,3) False
      by (auto simp: named_apart_def setting_def)
    with process_stable [OF assms(1) _ k, of "ps ! j"] inv(3) j False show ?thesis by simp
  qed (use p' j in simp)
  then have "\<forall>p\<in>set (ps[i := p']). process_ok x st p (node_at s')"
    by (metis in_set_conv_nth length_list_update)
  with store_inv_good [OF inv(1) g l] step_apart [of ps i p'] inv(2) u assms(3) show ?thesis
    by (simp add: pool_inv_def)
qed

lemma arrive_apart:
  assumes "named_apart ps" "op_possible x ps q"
  shows "named_apart (ps @ [process_of st q])"
proof -
  have fresh: "process_uuid (process_of st q) \<noteq> None \<longrightarrow> process_uuid (process_of st q) \<notin> set (map process_uuid ps)"
    using assms(2) by (cases q) auto
  then have "process_uuid (process_of st q) \<noteq> None \<longrightarrow> process_uuid (process_of st q) \<noteq> process_uuid (ps ! i)"
    if "i < length ps" for i using that by (auto simp: image_iff dest: nth_mem)
  with assms(1) show ?thesis
    unfolding named_apart_def by (auto simp: nth_append less_Suc_eq) (metis option.simps(3))+
qed

lemma arrive_ok: "op_possible x ps q \<Longrightarrow> process_ok x st (process_of st q) f"
  by (cases q) auto

lemma pool_inv_event:
  assumes "setting x st" "pool_inv x st A c" "pool_event x st e c = Some c'"
  shows "pool_inv x st A c'"
proof (cases c)
  case (Pair ps s)
  show ?thesis
  proof (cases e)
    case (Arrive q)
    with assms(3) Pair have "op_possible x ps q" "c' = (ps @ [process_of st q], s)"
      by (auto split: if_splits)
    with assms(2) Pair arrive_apart arrive_ok show ?thesis by (auto simp: pool_inv_def)
  next
    case (Step i)
    with assms(3) Pair obtain p' s' where "i < length ps" "process_step x st (ps ! i) s = (p', s')"
      "c' = (ps[i := p'], s')" by (auto split: if_splits prod.splits)
    with pool_inv_step [OF assms(1)] assms(2) Pair show ?thesis by blast
  next
    case (Clock now)
    have "node_at (s\<lparr>fs_now := now\<rparr>) = node_at s" by (rule node_at_cong) simp
    with assms(2,3) Pair Clock show ?thesis by (auto simp: pool_inv_def store_inv_def at_rest_def)
  qed
qed

lemma pool_inv_run:
  assumes "setting x st" "pool_inv x st A c" "pool_run x st es c = Some c'"
  shows "pool_inv x st A c'"
  using assms(2,3)
  by (induction es arbitrary: c) (auto split: option.splits dest: pool_inv_event [OF assms(1)])

fun process_promise :: "externs \<Rightarrow> fs_store \<Rightarrow> fs \<Rightarrow> process \<Rightarrow> bool" where
  "process_promise x st s (Uploading fresh ns (Ended (Ok so))) =
     (so_key so = ObjectKey (key_text x ns (so_sha256 so))
      \<and> (case file_at s (object_path x st ns (so_sha256 so)) of
           Some c \<Rightarrow> content_digest x c = so_sha256 so
         | None \<Rightarrow> False))"
| "process_promise x st s (Reading key (Ended (Ok b))) = (content_digest x (ob_content b) = key_digest key)"
| "process_promise x st s p = True"

lemma process_ok_promise:
  assumes "content_ok x (objects_root st) (node_at s)" "process_ok x st p (node_at s)"
  shows "process_promise x st s p"
proof -
  have "process_promise x st s (Uploading fresh ns (Ended (Ok so)))"
    if "put_promise x st ns so (node_at s)" for fresh ns so
    using that content_okD [OF assms(1) object_path_is_object, of x ns "so_sha256 so"]
    by (auto simp: put_promise_def file_at_def)
  with assms(2) show ?thesis
    by (cases "(x, st, s, p)" rule: process_promise.cases) (auto simp: read_promise_def)
qed

lemma pool_run_safe:
  assumes "uuid_documented x" "sha256_documented x" "store_layout st"
    and "fs_late s0 = []" "content_ok x (objects_root st) (node_at s0)"
    and run: "pool_run x st es ([], s0) = Some (ps, s)"
  shows "content_ok x (objects_root st) (node_at s) \<and> fs_late s = []
    \<and> (\<forall>q. is_object_path (objects_root st) q \<and> file_at s0 q \<noteq> None \<longrightarrow> file_at s q \<noteq> None)
    \<and> (\<forall>p\<in>set ps. process_promise x st s p)"
proof -
  let ?A = "{q. is_object_path (objects_root st) q \<and> file_at s0 q \<noteq> None}"
  have "setting x st" using assms(1-3) by (simp add: setting_def)
  moreover have "pool_inv x st ?A ([], s0)"
    using assms(4,5) by (simp add: pool_inv_def store_inv_def at_rest_def named_apart_def
        objects_present_def file_at_def)
  ultimately have "pool_inv x st ?A (ps, s)" using run by (rule pool_inv_run)
  then have "store_inv x st ?A s" "\<forall>p\<in>set ps. process_ok x st p (node_at s)"
    by (simp_all add: pool_inv_def)
  then show ?thesis
    using process_ok_promise [of x st s]
    by (auto simp: store_inv_def at_rest_def objects_present_def file_at_def)
qed

end
