(* ===== verification/ConcurrentPut.thy ===== *)
theory ConcurrentPut
  imports ConcurrentPool
begin

text \<open>
  The steps of an upload that runs alone are \<open>put_stream\<close>, the code as \<open>FsStore\<close> has it; and an upload
  ends after a bounded number of its own steps whatever the other processes do.
\<close>

section \<open>The steps of one upload are \<open>put_stream\<close>\<close>

definition put_next ::
    "externs \<Rightarrow> fs_store \<Rightarrow> object_namespace \<Rightarrow> path \<Rightarrow> (put_phase, stored_object) task \<times> fs
      \<Rightarrow> (put_phase, stored_object) task \<times> fs" where
  "put_next x st ns p c = task_step p (put_step x st ns p) (fst c) (snd c)"

text \<open>Where code that ended leaves the machine.\<close>

definition ended_at ::
    "('b \<Rightarrow> (put_phase, stored_object) task) \<Rightarrow> (storage_error, 'b) outcome \<times> fs
      \<Rightarrow> (put_phase, stored_object) task \<times> fs" where
  "ended_at nxt c =
     (case c of
        (Ok b, s) \<Rightarrow> (nxt b, s)
      | (Err e, s) \<Rightarrow> (Unwind (Err e) [], s)
      | (Panic, s) \<Rightarrow> (Unwind Panic (fs_late s), s\<lparr>fs_late := []\<rparr>))"

definition steps_of ::
    "externs \<Rightarrow> fs_store \<Rightarrow> object_namespace \<Rightarrow> path \<Rightarrow> (put_phase, stored_object) task
      \<Rightarrow> (fs, storage_error, 'b) stateful \<Rightarrow> ('b \<Rightarrow> (put_phase, stored_object) task) \<Rightarrow> bool" where
  "steps_of x st ns p t m nxt \<longleftrightarrow>
     (\<forall>s. fs_late s = [] \<longrightarrow> (\<exists>n. (put_next x st ns p ^^ n) (t, s) = ended_at nxt (m s)))"

lemma steps_of_ok: "steps_of x st ns p (nxt b) (st_ok b) nxt"
  unfolding steps_of_def st_ok_def ended_at_def by (intro allI impI exI [of _ 0]) simp

lemma steps_of_step:
  assumes "\<And>s. fs_late s = [] \<Longrightarrow> put_next x st ns p (t, s) = ended_at nxt (m s)"
  shows "steps_of x st ns p t m nxt"
  unfolding steps_of_def using assms by (intro allI impI exI [of _ 1]) simp

lemma steps_of_then:
  assumes "steps_of x st ns p t m T" "calm m" "\<And>b. steps_of x st ns p (T b) (g b) nxt"
  shows "steps_of x st ns p t (st_then m g) nxt"
  unfolding steps_of_def
proof (intro allI impI)
  fix s :: fs assume late: "fs_late s = []"
  obtain r s1 where m: "m s = (r, s1)" by fastforce
  from assms(1) late m obtain n where n: "(put_next x st ns p ^^ n) (t, s) = ended_at T (r, s1)"
    unfolding steps_of_def by metis
  show "\<exists>n. (put_next x st ns p ^^ n) (t, s) = ended_at nxt (st_then m g s)"
  proof (cases r)
    case (Ok b)
    with calmD [OF assms(2) m] late have "fs_late s1 = []" by simp
    with assms(3) [of b] obtain k where k: "(put_next x st ns p ^^ k) (T b, s1) = ended_at nxt (g b s1)"
      unfolding steps_of_def by metis
    have "(put_next x st ns p ^^ (k + n)) (t, s) = ended_at nxt (st_then m g s)"
      using n k m Ok by (simp add: funpow_add ended_at_def)
    then show ?thesis ..
  next
    case (Err e)
    with n m have "(put_next x st ns p ^^ n) (t, s) = ended_at nxt (st_then m g s)"
      by (simp add: ended_at_def)
    then show ?thesis ..
  next
    case Panic
    with n m have "(put_next x st ns p ^^ n) (t, s) = ended_at nxt (st_then m g s)"
      by (simp add: ended_at_def)
    then show ?thesis ..
  qed
qed

lemma steps_of_call:
  assumes "\<And>s. put_step x st ns p ph s = task_call Unwind c op nxt s"
  shows "steps_of x st ns p (Run ph) (io_call c (sys_call op)) (\<lambda>_. nxt)"
  by (rule steps_of_step)
     (simp add: put_next_def task_step_def assms task_call_def ended_at_def
        split: prod.split outcome.split)

lemma steps_of_lift:
  assumes "\<And>s. put_step x st ns p ph s
      = (case r of Ok b \<Rightarrow> (nxt b, s) | Err e \<Rightarrow> (Unwind (Err e) [], s) | Panic \<Rightarrow> (Unwind Panic [], s))"
  shows "steps_of x st ns p (Run ph) (st_lift r) nxt"
  by (rule steps_of_step)
     (simp add: put_next_def task_step_def assms ended_at_def st_lift_def split: outcome.split)

lemma st_then_lift_Ok [simp]: "st_then (st_lift (Ok a)) f = f a"
  by (simp add: st_then_def st_lift_def fun_eq_iff)

lemma steps_of_write:
  "steps_of x st ns p (Run (PutWrite cs h n)) (write_chunks p cs h n) (\<lambda>(h, n). Run (PutFlush h n))"
proof (induction cs arbitrary: h n)
  case Nil
  show ?case
    by (rule steps_of_step) (simp add: put_next_def task_step_def ended_at_def st_ok_def)
next
  case (Cons c cs)
  show ?case
  proof (cases c)
    case (Ok chunk)
    have "steps_of x st ns p (Run (PutWrite (c # cs) h n))
        (io_call ''write staging file'' (sys_call (OpWrite p chunk)))
        (\<lambda>_. Run (PutWrite cs (h @ chunk) (n + of_nat (length chunk))))"
      by (rule steps_of_call) (simp add: Ok)
    from steps_of_then [OF this calm_io_call [OF calm_call] Cons.IH] show ?thesis
      by (simp add: Ok)
  qed (rule steps_of_step, simp add: put_next_def task_step_def ended_at_def st_lift_def)+
qed

text \<open>Where \<open>put_staged\<close> leaves the machine: at the guard, or past it.\<close>

fun after_staged :: "(stored_object \<times> path option) \<times> bool \<Rightarrow> (put_phase, stored_object) task" where
  "after_staged ((so, Some dir), disarmed) = Run (PutSyncOpen so dir)"
| "after_staged ((so, None), disarmed) = Unwind (Ok so) []"

lemma steps_of_publish:
  assumes "so = \<lparr>so_key = key, so_sha256 = d, so_size_bytes = n, so_already_present = False\<rparr>"
  shows "steps_of x st ns p (Run (PutDir so final)) (publish p final key d n) after_staged"
proof -
  have dir: "steps_of x st ns p (Run (PutDir so final)) (create_private_dir (butlast final))
      (\<lambda>_. Run (PutStat so final))"
    unfolding create_private_dir_def
    by (rule steps_of_then [where T = "\<lambda>_. Run (PutMode so final)"])
       (auto intro!: steps_of_call calm_rules)
  have stat: "steps_of x st ns p (Run (PutStat so final)) (stat_existing final n)
      (\<lambda>b. if b then Unwind (Ok (so\<lparr>so_already_present := True\<rparr>)) [] else Run (PutRename so final))"
  proof (rule steps_of_step)
    fix s :: fs assume "fs_late s = []"
    moreover have "s\<lparr>fs_late := []\<rparr> = s" if "fs_late s = []" for s :: fs using that by simp
    ultimately show "put_next x st ns p (Run (PutStat so final), s)
        = ended_at (\<lambda>b. if b then Unwind (Ok (so\<lparr>so_already_present := True\<rparr>)) [] else Run (PutRename so final))
            (stat_existing final n s)"
      using looking_stat_existing [of final n] assms
      by (auto simp: put_next_def task_step_def task_look_def ended_at_def looking_def
          split: prod.split outcome.split)
  qed
  have rename: "steps_of x st ns p (Run (PutRename so final))
      (io_call ''publish staging file'' (sys_call (OpRename p final)))
      (\<lambda>_. Run (PutSyncOpen so (butlast final)))"
    by (rule steps_of_call) simp
  show ?thesis
    unfolding publish_def
  proof (rule steps_of_then [OF dir calm_create_private_dir], rule steps_of_then [OF stat calm_stat_existing])
    fix b
    have r: "steps_of x st ns p (Run (PutRename so final))
       (st_then (io_call ''publish staging file'' (sys_call (OpRename p final)))
        (\<lambda>_. st_ok ((so, Some (butlast final)), True))) after_staged"
      by (rule steps_of_then [OF rename calm_io_call [OF calm_call]])
         (rule steps_of_ok [where nxt = after_staged and b = "((so, Some (butlast final)), True)", simplified])
    have a: "steps_of x st ns p (Unwind (Ok (so\<lparr>so_already_present := True\<rparr>)) [])
        (st_ok ((so\<lparr>so_already_present := True\<rparr>, None), False)) after_staged"
      by (rule steps_of_ok [where nxt = after_staged
            and b = "((so\<lparr>so_already_present := True\<rparr>, None), False)", simplified])
    from r a assms show "steps_of x st ns p
        (if b then Unwind (Ok (so\<lparr>so_already_present := True\<rparr>)) [] else Run (PutRename so final))
        (if b then st_ok ((\<lparr>so_key = key, so_sha256 = d, so_size_bytes = n,
                so_already_present = True\<rparr>, None), False)
         else st_then (io_call ''publish staging file'' (sys_call (OpRename p final))) (\<lambda>_.
           st_ok ((\<lparr>so_key = key, so_sha256 = d, so_size_bytes = n,
                so_already_present = False\<rparr>, Some (butlast final)), True))) after_staged"
      by (cases b) simp_all
  qed
qed

lemma steps_of_hash:
  "steps_of x st ns p (Run (PutHash h n))
     (st_then (st_lift (key_for_digest x ns (content_digest x h))) (\<lambda>key.
      st_then (st_lift (resolve_within (objects_root st) key)) (\<lambda>final.
      publish p final key (content_digest x h) n))) after_staged"
proof -
  let ?so = "\<lambda>key. \<lparr>so_key = key, so_sha256 = content_digest x h, so_size_bytes = n,
      so_already_present = False\<rparr>"
  let ?k = "and_then (key_for_digest x ns (content_digest x h)) (\<lambda>key.
      and_then (resolve_within (objects_root st) key) (\<lambda>final. Ok (key, final)))"
  have "steps_of x st ns p (Run (PutHash h n)) (st_lift ?k) (\<lambda>(key, final). Run (PutDir (?so key) final))"
    by (rule steps_of_lift)
       (simp add: put_hash_def Let_def content_digest_def split: outcome.split)
  from steps_of_then [OF this calm_lift, of "\<lambda>(key, final). publish p final key (content_digest x h) n"]
  have "steps_of x st ns p (Run (PutHash h n))
      (st_then (st_lift ?k) (\<lambda>(key, final). publish p final key (content_digest x h) n)) after_staged"
    by (auto simp: steps_of_publish)
  moreover have "st_then (st_lift ?k) (\<lambda>(key, final). publish p final key (content_digest x h) n) =
     st_then (st_lift (key_for_digest x ns (content_digest x h))) (\<lambda>key.
      st_then (st_lift (resolve_within (objects_root st) key)) (\<lambda>final.
      publish p final key (content_digest x h) n))"
    by (cases "key_for_digest x ns (content_digest x h)")
       (auto simp: st_then_def st_lift_def fun_eq_iff split: outcome.split)
  ultimately show ?thesis by simp
qed

lemma steps_of_staged:
  "steps_of x st ns p (Run (PutCreate body)) (put_staged x st p ns body) after_staged"
  unfolding put_staged_def private_create_def Let_def content_digest_def [symmetric]
proof (rule steps_of_then [OF steps_of_call calm_io_call [OF calm_call]])
  fix u :: unit
  let ?rest = "\<lambda>(hasher, size_bytes).
      st_then (io_call ''flush staging file'' (sys_call OpFlush)) (\<lambda>_.
      st_then (io_call ''fsync staging file'' (sys_call OpFlush)) (\<lambda>_.
      st_then (st_lift (key_for_digest x ns (content_digest x hasher))) (\<lambda>key.
      st_then (st_lift (resolve_within (objects_root st) key)) (\<lambda>final.
      publish p final key (content_digest x hasher) size_bytes))))"
  show "steps_of x st ns p (Run (PutWrite body [] 0))
      (st_then (write_chunks p body [] 0) ?rest) after_staged"
  proof (rule steps_of_then [OF steps_of_write calm_write_chunks])
    fix b :: "bytes \<times> u64"
    obtain h n where b: "b = (h, n)" by fastforce
    have flush: "steps_of x st ns p (Run (PutFlush h n))
        (io_call ''flush staging file'' (sys_call OpFlush)) (\<lambda>_. Run (PutFsync h n))"
      by (rule steps_of_call) simp
    have fsync: "steps_of x st ns p (Run (PutFsync h n))
        (io_call ''fsync staging file'' (sys_call OpFlush)) (\<lambda>_. Run (PutHash h n))"
      by (rule steps_of_call) simp
    have "steps_of x st ns p (Run (PutFlush h n)) (?rest (h, n)) after_staged"
      unfolding prod.case
      by (rule steps_of_then [OF flush calm_io_call [OF calm_call]],
          rule steps_of_then [OF fsync calm_io_call [OF calm_call]], rule steps_of_hash)
    then show "steps_of x st ns p (case b of (h, n) \<Rightarrow> Run (PutFlush h n)) (?rest b) after_staged"
      by (simp add: b)
  qed
qed simp

section \<open>The guard and the calls in flight\<close>

lemma put_del_late:
  "put_node p n (s\<lparr>fs_late := l\<rparr>) = (put_node p n s)\<lparr>fs_late := l\<rparr>"
  "del_node p (s\<lparr>fs_late := l\<rparr>) = (del_node p s)\<lparr>fs_late := l\<rparr>"
  by (simp_all add: put_node_def del_node_def)

lemma mkdirs_late: "snd (mkdirs ps (s\<lparr>fs_late := l\<rparr>)) = (snd (mkdirs ps s))\<lparr>fs_late := l\<rparr>"
  by (induction ps s rule: mkdirs.induct)
     (auto simp: put_del_late split: option.splits node.splits bool.splits)

lemma perform_late: "snd (perform op (s\<lparr>fs_late := l\<rparr>)) = (snd (perform op s))\<lparr>fs_late := l\<rparr>"
  by (cases op) (auto simp: perform.simps put_del_late mkdirs_late parent_check_def
      split: option.splits node.splits bool.splits)

lemma guard_drop_set_late: "guard_drop p (s\<lparr>fs_late := l\<rparr>) = (guard_drop p s)\<lparr>fs_late := l\<rparr>"
proof -
  have swap: "s\<lparr>fs_late := l, fs_drop_faults := d\<rparr> = s\<lparr>fs_drop_faults := d, fs_late := l\<rparr>" for d
    by simp
  show ?thesis
    by (cases "fs_drop_faults s")
       (auto simp: guard_drop_def sync_remove_def Let_def perform_late swap)
qed

lemma fold_late:
  "fold (\<lambda>op t. snd (perform op t)) ops (s\<lparr>fs_late := l\<rparr>)
     = (fold (\<lambda>op t. snd (perform op t)) ops s)\<lparr>fs_late := l\<rparr>"
  by (induction ops arbitrary: s) (simp_all add: perform_late)

lemma settle_steps:
  "(put_next x st ns p ^^ Suc (length ops)) (Settle r ops, s)
     = (Ended r, fold (\<lambda>op t. snd (perform op t)) ops s)"
proof (induction ops arbitrary: s)
  case Nil
  show ?case by (simp add: put_next_def task_step_def)
next
  case (Cons op ops)
  have "(put_next x st ns p ^^ Suc (length (op # ops))) (Settle r (op # ops), s)
      = (put_next x st ns p ^^ Suc (length ops)) (Settle r ops, snd (perform op s))"
    by (simp add: funpow_Suc_right put_next_def [of _ _ _ _ "(Settle r (op # ops), s)"] task_step_def
        del: funpow.simps)
  with Cons.IH show ?case by simp
qed

text \<open>Calls in flight settle as \<open>run_late\<close> does.\<close>

lemma settle_run_late:
  "(put_next x st ns p ^^ Suc (length (fs_late s))) (Settle r (fs_late s), s\<lparr>fs_late := []\<rparr>)
     = (Ended r, run_late s)"
  by (simp add: settle_steps fold_late run_late_def del: funpow.simps)

text \<open>At the guard: it runs, what is in flight settles, and the result is delivered.\<close>

lemma unwind_steps:
  "\<exists>n. (put_next x st ns p ^^ n) (Unwind r (fs_late s), s\<lparr>fs_late := []\<rparr>)
     = (Ended r, run_late (guard_drop p s))"
proof -
  let ?g = "guard_drop p s"
  have 1: "put_next x st ns p (Unwind r (fs_late s), s\<lparr>fs_late := []\<rparr>)
      = (Settle r (fs_late ?g), ?g\<lparr>fs_late := []\<rparr>)"
    by (simp add: put_next_def task_step_def guard_drop_set_late)
  have "(put_next x st ns p ^^ Suc (Suc (length (fs_late ?g)))) (Unwind r (fs_late s), s\<lparr>fs_late := []\<rparr>)
      = (Ended r, run_late ?g)"
    unfolding funpow_Suc_right [of "Suc n" for n] comp_def 1 by (rule settle_run_late)
  then show ?thesis ..
qed

lemma run_late_rest: "fs_late s = [] \<Longrightarrow> run_late s = s"
  by (simp add: run_late_def)

lemma put_staged_dir:
  "put_staged x st p ns body s = (Ok ((so, dir), disarmed), s') \<Longrightarrow> disarmed = (dir \<noteq> None)"
  by (auto simp: put_staged_def Let_def publish_def outcome_simps split: if_splits)

lemma sync_steps:
  assumes "fs_late s = []"
  shows "\<exists>n. (put_next x st ns p ^^ n) (Run (PutSyncOpen so dir), s)
    = (case sync_dir dir s of
         (Panic, s1) \<Rightarrow> (Ended Panic, run_late s1)
       | (_, s1) \<Rightarrow> (Ended (Ok so), s1))"
proof -
  have settle: "put_next x st ns p (Settle r [], t) = (Ended r, t)" for r t
    by (simp add: put_next_def task_step_def)
  obtain r1 s1 where look: "sys_look (look_node dir) s = (r1, s1)" by fastforce
  with looking_look [of "look_node dir"] assms have late: "fs_late s1 = []" by (metis looking_def)
  show ?thesis
  proof (cases r1)
    case (Ok n)
    obtain r2 s2 where sync: "sys_call OpFlush s1 = (r2, s2)" by fastforce
    have 1: "put_next x st ns p (Run (PutSyncOpen so dir), s) = (Run (PutSync so), s1)"
      using look Ok by (simp add: put_next_def task_step_def)
    have 2: "put_next x st ns p (Run (PutSync so), s1) =
        (case r2 of Panic \<Rightarrow> (Settle Panic (fs_late s2), s2\<lparr>fs_late := []\<rparr>) | _ \<Rightarrow> (Settle (Ok so) [], s2))"
      using sync by (simp add: put_next_def task_step_def split: outcome.split)
    have dir: "sync_dir dir s = (case r2 of Panic \<Rightarrow> (Panic, s2) | _ \<Rightarrow> (Ok (), s2))"
      using look sync Ok by (simp add: sync_dir_def ignore_err_def st_then_def split: outcome.split)
    show ?thesis
    proof (cases "r2 = Panic")
      case True
      have "(put_next x st ns p ^^ (Suc (Suc (Suc (length (fs_late s2)))))) (Run (PutSyncOpen so dir), s)
          = (Ended Panic, run_late s2)"
        unfolding funpow_Suc_right [of "Suc n" for n] comp_def 1 2 using True settle_run_late by simp
      moreover have "sync_dir dir s = (Panic, s2)" using dir True by simp
      ultimately show ?thesis
        by (intro exI [of _ "Suc (Suc (Suc (length (fs_late s2))))"]) (simp del: funpow.simps)
    next
      case False
      then have "put_next x st ns p (Run (PutSync so), s1) = (Settle (Ok so) [], s2)"
        using 2 by (cases r2) simp_all
      then have "(put_next x st ns p ^^ 3) (Run (PutSyncOpen so dir), s) = (Ended (Ok so), s2)"
        by (simp add: numeral_3_eq_3 1 settle)
      moreover have "sync_dir dir s = (Ok (), s2)" using dir False by (cases r2) simp_all
      ultimately show ?thesis by (intro exI [of _ 3]) simp
    qed
  next
    case (Err k)
    have "put_next x st ns p (Run (PutSyncOpen so dir), s) = (Settle (Ok so) [], s1)"
      using look Err by (simp add: put_next_def task_step_def)
    then have "(put_next x st ns p ^^ 2) (Run (PutSyncOpen so dir), s) = (Ended (Ok so), s1)"
      by (simp add: numeral_2_eq_2 settle)
    moreover have "sync_dir dir s = (Ok (), s1)"
      using look Err by (simp add: sync_dir_def ignore_err_def st_then_def)
    ultimately show ?thesis by (intro exI [of _ 2]) simp
  next
    case Panic
    have "put_next x st ns p (Run (PutSyncOpen so dir), s) = (Settle Panic [], s1)"
      using look Panic by (simp add: put_next_def task_step_def)
    then have "(put_next x st ns p ^^ 2) (Run (PutSyncOpen so dir), s) = (Ended Panic, s1)"
      by (simp add: numeral_2_eq_2 settle)
    moreover have "sync_dir dir s = (Panic, s1)"
      using look Panic by (simp add: sync_dir_def ignore_err_def st_then_def)
    ultimately show ?thesis using late by (intro exI [of _ 2]) (simp add: run_late_rest)
  qed
qed

lemma put_stream_steps:
  assumes late: "fs_late s = []" and put: "put_stream x st fresh ns body s = (r, s')"
  shows "\<exists>n. (put_next x st ns (staging_path x st fresh) ^^ n) (Run (PutCreate body), s) = (Ended r, s')"
proof -
  let ?p = "staging_path x st fresh"
  let ?to = "\<lambda>c c'. \<exists>n. (put_next x st ns ?p ^^ n) c = c'"
  have trans: "?to a c" if "?to a b" "?to b c" for a b c
  proof -
    from that obtain i j where "(put_next x st ns ?p ^^ i) a = b" "(put_next x st ns ?p ^^ j) b = c" by blast
    then have "(put_next x st ns ?p ^^ (j + i)) a = c" by (simp add: funpow_add)
    then show ?thesis ..
  qed
  obtain r1 s1 where staged: "put_staged x st ?p ns body s = (r1, s1)" by fastforce
  have start: "?to (Run (PutCreate body), s) (ended_at after_staged (r1, s1))"
    using steps_of_staged [of x st ns ?p body] late staged unfolding steps_of_def by metis
  have clear: "s1\<lparr>fs_late := []\<rparr> = s1" if "fs_late s1 = []" using that by simp
  have rest: "fs_late s1 = []" if "r1 \<noteq> Panic" using calmD [OF calm_put_staged staged] late that by simp
  have guard: "?to (Unwind q [], s1) (Ended q, guard_drop ?p s1)" if "fs_late s1 = []" for q
    using unwind_steps [of x st ns ?p q s1] that clear by (simp add: run_late_rest)
  have "?to (ended_at after_staged (r1, s1)) (Ended r, s')"
  proof (cases r1)
    case (Ok a)
    obtain so dir disarmed where a: "a = ((so, dir), disarmed)" by (metis surj_pair)
    have l: "fs_late s1 = []" using rest Ok by simp
    have d: "disarmed = (dir \<noteq> None)" using put_staged_dir staged Ok a by blast
    show ?thesis
    proof (cases dir)
      case None
      with put staged Ok a d have "r = Ok so" "s' = guard_drop ?p s1"
        by (simp_all add: put_stream_def Let_def future_def guarded_def st_then_def st_ok_def)
      with guard [OF l] Ok a None show ?thesis by (simp add: ended_at_def)
    next
      case (Some dr)
      with put staged Ok a d have "(r, s') = (case sync_dir dr s1 of
           (Panic, s1) \<Rightarrow> (Panic, run_late s1) | (_, s1) \<Rightarrow> (Ok so, s1))"
        using sync_dir_result [of dr s1]
        by (auto simp: put_stream_def Let_def future_def guarded_def st_then_def st_ok_def
            split: prod.splits outcome.splits)
      then have e: "(case sync_dir dr s1 of
           (Panic, s1) \<Rightarrow> (Ended Panic, run_late s1) | (_, s1) \<Rightarrow> (Ended (Ok so), s1)) = (Ended r, s')"
        by (auto split: prod.splits outcome.splits)
      from sync_steps [OF l, of x st ns ?p so dr] Ok a Some show ?thesis
        unfolding e by (simp add: ended_at_def)
    qed
  next
    case (Err e)
    with put staged have "r = Err e" "s' = guard_drop ?p s1"
      by (simp_all add: put_stream_def Let_def future_def guarded_def st_then_def)
    with guard rest Err show ?thesis by (simp add: ended_at_def)
  next
    case Panic
    with put staged have "r = Panic" "s' = run_late (guard_drop ?p s1)"
      by (simp_all add: put_stream_def Let_def future_def guarded_def st_then_def)
    with unwind_steps [of x st ns ?p Panic s1] Panic show ?thesis by (simp add: ended_at_def)
  qed
  with start show ?thesis by (rule trans)
qed

section \<open>Progress\<close>

fun put_weight :: "put_phase \<Rightarrow> nat" where
  "put_weight (PutCreate body) = length body + 15"
| "put_weight (PutWrite cs h n) = length cs + 14"
| "put_weight (PutFlush h n) = 13"
| "put_weight (PutFsync h n) = 12"
| "put_weight (PutHash h n) = 11"
| "put_weight (PutDir so final) = 10"
| "put_weight (PutMode so final) = 9"
| "put_weight (PutStat so final) = 8"
| "put_weight (PutRename so final) = 7"
| "put_weight (PutSyncOpen so dir) = 6"
| "put_weight (PutSync so) = 5"

fun task_weight :: "(put_phase, stored_object) task \<Rightarrow> nat" where
  "task_weight (Run ph) = put_weight ph"
| "task_weight (Unwind r ops) = length ops + 2"
| "task_weight (Settle r ops) = length ops + 1"
| "task_weight (Ended r) = 0"

lemma call_late: "sys_call op s = (r, s') \<Longrightarrow> fs_late s = [] \<Longrightarrow> length (fs_late s') \<le> 1"
  by (auto simp: sys_call_def dest!: next_fault_fields perform_fields
      split: prod.splits fault.splits drop_time.splits)

lemma task_call_weight:
  assumes "fs_late s = []" "task_weight nxt < w" "3 < w"
  shows "task_weight (fst (task_call Unwind c op nxt s)) < w"
proof -
  obtain r s' where e: "sys_call op s = (r, s')" by fastforce
  from call_late [OF e assms(1)] e assms(2,3) show ?thesis
    by (cases r) (simp_all add: task_call_def io_call_def st_map_err_def)
qed

lemma task_look_weight:
  assumes "\<And>b. task_weight (nxt b) < w" "3 < w"
  shows "task_weight (fst (task_look Unwind m nxt s)) < w"
proof -
  obtain r s' where e: "m s = (r, s')" by fastforce
  with assms show ?thesis by (cases r) (simp_all add: task_look_def)
qed

lemma put_step_weight:
  assumes "fs_late s = []"
  shows "task_weight (fst (put_step x st ns p ph s)) < put_weight ph"
proof (cases ph)
  case (PutWrite cs h n)
  show ?thesis
  proof (cases cs)
    case (Cons c cs')
    with PutWrite assms show ?thesis by (cases c) (auto intro!: task_call_weight)
  qed (simp add: PutWrite)
next
  case (PutHash h n)
  then show ?thesis by (simp add: put_hash_def Let_def split: outcome.split)
next
  case (PutSyncOpen so dir)
  obtain r s' where "sys_look (look_node dir) s = (r, s')" by fastforce
  with PutSyncOpen show ?thesis by (cases r) simp_all
next
  case (PutSync so)
  obtain r s' where e: "sys_call OpFlush s = (r, s')" by fastforce
  from call_late [OF e assms] PutSync e show ?thesis by (cases r) simp_all
qed (use assms in \<open>auto intro!: task_call_weight task_look_weight\<close>)

lemma task_step_weight:
  assumes "fs_late s = []" "\<forall>r. t \<noteq> Ended r"
  shows "task_weight (fst (task_step p (put_step x st ns p) t s)) < task_weight t"
proof (cases t)
  case (Settle r ops)
  then show ?thesis by (cases ops) (simp_all add: task_step_def)
qed (use assms put_step_weight in \<open>auto simp: task_step_def\<close>)

lemma task_weight_0: "task_weight t = 0 \<longleftrightarrow> (\<exists>r. t = Ended r)"
proof (cases t)
  case (Run ph)
  then show ?thesis by (cases ph) simp_all
qed simp_all

text \<open>The process at a place of the list moves only by its own steps.\<close>

lemma run_inv_late: "pool_inv x st A (ps, s) \<Longrightarrow> fs_late s = []"
  by (simp add: pool_inv_def store_inv_def at_rest_def)

lemma event_weight:
  assumes "pool_inv x st A (ps, s)" "i < length ps" "ps ! i = Uploading fresh ns t"
    and "pool_event x st e (ps, s) = Some (ps', s')"
  shows "i < length ps' \<and> (\<exists>t'. ps' ! i = Uploading fresh ns t'
    \<and> task_weight t' \<le> task_weight t - (if e = Step i then 1 else 0))"
proof (cases "e = Step i")
  case True
  have l: "fs_late s = []" using assms(1) by (rule run_inv_late)
  let ?p = "staging_path x st fresh"
  obtain t' s1 where e: "task_step ?p (put_step x st ns ?p) t s = (t', s1)" by fastforce
  have "task_weight t' \<le> task_weight t - 1"
  proof (cases "\<exists>r. t = Ended r")
    case True
    with e show ?thesis by (auto simp: task_step_def)
  next
    case False
    with task_step_weight [OF l, of t ?p x st ns] e show ?thesis by simp
  qed
  moreover have "ps' = ps[i := Uploading fresh ns t']"
    using True assms(2-4) e by (auto simp: Let_def)
  ultimately show ?thesis using True assms(2) by simp
next
  case False
  with assms(2-4) show ?thesis
    by (cases e) (auto simp: nth_append split: if_splits prod.splits)
qed

lemma run_weight:
  assumes "setting x st"
  shows "pool_inv x st A (ps, s) \<Longrightarrow> i < length ps \<Longrightarrow> ps ! i = Uploading fresh ns t
    \<Longrightarrow> pool_run x st es (ps, s) = Some (ps', s')
    \<Longrightarrow> \<exists>t'. ps' ! i = Uploading fresh ns t' \<and> task_weight t' \<le> task_weight t - count_list es (Step i)"
proof (induction es arbitrary: ps s t)
  case (Cons e es)
  from Cons.prems(4) obtain ps1 s1 where e: "pool_event x st e (ps, s) = Some (ps1, s1)"
    and r: "pool_run x st es (ps1, s1) = Some (ps', s')" by (auto split: option.splits)
  from event_weight [OF Cons.prems(1-3) e] obtain t1 where
    t1: "i < length ps1" "ps1 ! i = Uploading fresh ns t1"
      "task_weight t1 \<le> task_weight t - (if e = Step i then 1 else 0)" by blast
  from Cons.IH [OF pool_inv_event [OF assms Cons.prems(1) e] t1(1,2) r] obtain t' where
    t': "ps' ! i = Uploading fresh ns t'" "task_weight t' \<le> task_weight t1 - count_list es (Step i)" by blast
  have "task_weight t' \<le> task_weight t - count_list (e # es) (Step i)" using t1(3) t'(2) by auto
  with t'(1) show ?case by blast
qed auto

lemma upload_ends:
  assumes "uuid_documented x" "sha256_documented x" "store_layout st"
    and "fs_late s0 = []" "content_ok x (objects_root st) (node_at s0)"
    and "pool_run x st es0 ([], s0) = Some (ps, s)"
    and "i < length ps" "ps ! i = Uploading fresh ns (Run (PutCreate body))"
    and "pool_run x st es (ps, s) = Some (ps', s')" "length body + 15 \<le> count_list es (Step i)"
  shows "\<exists>r. ps' ! i = Uploading fresh ns (Ended r)"
proof -
  have setting: "setting x st" using assms(1-3) by (simp add: setting_def)
  have "pool_inv x st {} ([], s0)"
    using assms(4,5) by (simp add: pool_inv_def store_inv_def at_rest_def named_apart_def objects_present_def)
  from pool_inv_run [OF setting this assms(6)] have "pool_inv x st {} (ps, s)" .
  from run_weight [OF setting this assms(7-9)] assms(10) obtain t' where
    "ps' ! i = Uploading fresh ns t'" "task_weight t' = 0" by auto
  then show ?thesis by (auto simp: task_weight_0)
qed

text \<open>Alone, after the bound the result is there.\<close>

lemma put_next_ended: "(put_next x st ns p ^^ n) (Ended r, s) = (Ended r, s)"
  by (induction n) (simp_all add: put_next_def task_step_def)

lemma ended_unique:
  assumes "(put_next x st ns p ^^ m) c = (Ended r, s)" "(put_next x st ns p ^^ n) c = (Ended r', s')"
  shows "r = r' \<and> s = s'"
proof -
  have up: "(put_next x st ns p ^^ (j + i)) c = (Ended q, t)"
    if "(put_next x st ns p ^^ i) c = (Ended q, t)" for i j q t
    using that by (simp add: funpow_add put_next_ended)
  from up [OF assms(1), of n] up [OF assms(2), of m] show ?thesis by (simp add: add.commute)
qed

lemma task_call_late: "fs_late s = [] \<Longrightarrow> fs_late (snd (task_call stop c op nxt s)) = []"
proof -
  assume l: "fs_late s = []"
  obtain r s' where e: "sys_call op s = (r, s')" by fastforce
  from calmD [OF calm_call e] l e show ?thesis
    by (cases r) (simp_all add: task_call_def io_call_def st_map_err_def)
qed

lemma task_look_late: "looking m \<Longrightarrow> fs_late s = [] \<Longrightarrow> fs_late (snd (task_look stop m nxt s)) = []"
  by (auto simp: task_look_def looking_def split: prod.split outcome.split)

lemma put_step_late: "fs_late s = [] \<Longrightarrow> fs_late (snd (put_step x st ns p ph s)) = []"
proof (cases ph)
  assume l: "fs_late s = []"
  {
    case (PutWrite cs h n)
    show ?thesis
    proof (cases cs)
      case (Cons c cs')
      with PutWrite l show ?thesis by (cases c) (simp_all add: task_call_late)
    qed (simp add: PutWrite l)
  next
    case (PutSyncOpen so dir)
    obtain r s' where e: "sys_look (look_node dir) s = (r, s')" by fastforce
    with looking_look [of "look_node dir"] l have "fs_late s' = []" by (metis looking_def)
    with PutSyncOpen e show ?thesis by (cases r) simp_all
  next
    case (PutSync so)
    obtain r s' where e: "sys_call OpFlush s = (r, s')" by fastforce
    from calmD [OF calm_call e] l PutSync e show ?thesis by (cases r) simp_all
  }
qed (simp_all add: task_call_late task_look_late)

lemma put_next_late: "fs_late (snd c) = [] \<Longrightarrow> fs_late (snd (put_next x st ns p c)) = []"
  by (auto simp: put_next_def task_step_def put_step_late split: task.split list.split)

lemma put_next_weight:
  assumes "fs_late (snd c) = []"
  shows "fs_late (snd ((put_next x st ns p ^^ n) c)) = []
    \<and> task_weight (fst ((put_next x st ns p ^^ n) c)) \<le> task_weight (fst c) - n"
proof (induction n)
  case (Suc n)
  let ?c = "(put_next x st ns p ^^ n) c"
  have "task_weight (fst (put_next x st ns p ?c)) \<le> task_weight (fst ?c) - 1"
  proof (cases "\<exists>r. fst ?c = Ended r")
    case True
    then show ?thesis by (auto simp: put_next_def task_step_def)
  next
    case False
    with task_step_weight [of "snd ?c" "fst ?c" p x st ns] Suc show ?thesis by (simp add: put_next_def)
  qed
  then have "task_weight (fst (put_next x st ns p ?c)) \<le> task_weight (fst c) - Suc n"
    using Suc by linarith
  moreover have "fs_late (snd (put_next x st ns p ?c)) = []" using Suc by (simp add: put_next_late)
  ultimately show ?case by simp
qed (use assms in simp)

lemma put_stream_bound:
  assumes "fs_late s = []" "put_stream x st fresh ns body s = (r, s')"
  shows "(put_next x st ns (staging_path x st fresh) ^^ (length body + 15)) (Run (PutCreate body), s)
    = (Ended r, s')"
proof -
  let ?f = "put_next x st ns (staging_path x st fresh)" and ?c = "(Run (PutCreate body), s)"
  obtain n where n: "(?f ^^ n) ?c = (Ended r, s')" using put_stream_steps [OF assms] by blast
  obtain t u where t: "(?f ^^ (length body + 15)) ?c = (t, u)" by fastforce
  have "task_weight t = 0"
    using put_next_weight [where c = ?c and n = "length body + 15" and x = x and st = st and ns = ns
        and p = "staging_path x st fresh"] assms(1) t by simp
  then obtain q where "t = Ended q" by (auto simp: task_weight_0)
  with t ended_unique [OF n] show ?thesis by auto
qed

section \<open>The properties\<close>

text \<open>
  C6: Concurrent use of the store is safe. Any number of uploads, staging sweeps, health checks and
  reads share one directory tree, their file system calls interleaved in any order, with any call
  failing and any request dropped at any call (its last call then taking effect at any later time).
  In every state every file at the place of an object hashes to its name and no stored object has
  been lost; every finished upload has its object stored, and every finished read returned bytes
  that hash to the digest of the key.
\<close>

theorem concurrent_store_safe:
  assumes "uuid_documented x" "sha256_documented x" "store_layout st"
    and "fs_late s0 = []" "content_ok x (objects_root st) (node_at s0)"
    and "pool_run x st es ([], s0) = Some (ps, s)"
  shows "content_ok x (objects_root st) (node_at s) \<and> fs_late s = []
    \<and> (\<forall>q. is_object_path (objects_root st) q \<and> file_at s0 q \<noteq> None \<longrightarrow> file_at s q \<noteq> None)
    \<and> (\<forall>p\<in>set ps. process_promise x st s p)"
  using assms by (rule pool_run_safe)

text \<open>
  C7: The steps of an upload are \<open>put_stream\<close>. Run without other processes, the machine of an upload
  has after as many steps as its stream has chunks and fifteen more ended with exactly the outcome
  and the tree of \<open>put_stream\<close>, whatever fails and wherever the request is dropped.
\<close>

theorem put_stream_is_its_steps:
  assumes "fs_late s = []" "put_stream x st fresh ns body s = (r, s')"
  shows "(put_next x st ns (staging_path x st fresh) ^^ (length body + 15)) (Run (PutCreate body), s)
    = (Ended r, s')"
  using assms by (rule put_stream_bound)

text \<open>
  C8: An upload ends whatever the others do. However many other operations run and however they are
  interleaved, an upload that has made as many steps as its stream has chunks and fifteen more
  has ended: it waits for no other process.
\<close>

theorem concurrent_upload_ends:
  assumes "uuid_documented x" "sha256_documented x" "store_layout st"
    and "fs_late s0 = []" "content_ok x (objects_root st) (node_at s0)"
    and "pool_run x st es0 ([], s0) = Some (ps, s)"
    and "i < length ps" "ps ! i = Uploading fresh ns (Run (PutCreate body))"
    and "pool_run x st es (ps, s) = Some (ps', s')" "length body + 15 \<le> count_list es (Step i)"
  shows "\<exists>r. ps' ! i = Uploading fresh ns (Ended r)"
  using assms by (rule upload_ends)

section \<open>Concrete pools\<close>

text \<open>Steps are always possible, and those of one upload are \<open>put_next\<close>.\<close>

lemma pool_run_append:
  "pool_run x st (es @ es') c = (case pool_run x st es c of None \<Rightarrow> None | Some c' \<Rightarrow> pool_run x st es' c')"
  by (induction es arbitrary: c) (simp_all split: option.split)

lemma pool_run_steps:
  "\<forall>e\<in>set es. \<exists>i<length ps. e = Step i \<Longrightarrow>
   \<exists>ps' s'. pool_run x st es (ps, s) = Some (ps', s') \<and> length ps' = length ps"
proof (induction es arbitrary: ps s)
  case (Cons e es)
  then obtain i where i: "i < length ps" "e = Step i" by auto
  obtain p s1 where p: "process_step x st (ps ! i) s = (p, s1)" by fastforce
  have "\<exists>ps' s'. pool_run x st es (ps[i := p], s1) = Some (ps', s') \<and> length ps' = length (ps[i := p])"
    using Cons.prems by (intro Cons.IH) auto
  with i p show ?case by simp
qed simp

lemma pool_alone:
  "(put_next x st ns (staging_path x st fresh) ^^ n) (t, s) = (t', s') \<Longrightarrow>
   pool_run x st (replicate n (Step 0)) (Uploading fresh ns t # ps, s) = Some (Uploading fresh ns t' # ps, s')"
proof (induction n arbitrary: t s)
  case (Suc n)
  obtain t1 s1 where 1: "put_next x st ns (staging_path x st fresh) (t, s) = (t1, s1)" by fastforce
  with Suc.prems have "(put_next x st ns (staging_path x st fresh) ^^ n) (t1, s1) = (t', s')"
    by (simp add: funpow_Suc_right del: funpow.simps)
  from Suc.IH [OF this] 1 show ?case by (simp add: Let_def put_next_def)
qed simp

lemma ended_stays:
  assumes "ps ! i = Uploading fresh ns (Ended r)" "i < length ps" "pool_run x st es (ps, s) = Some (ps', s')"
  shows "ps' ! i = Uploading fresh ns (Ended r)"
  using assms
proof (induction es arbitrary: ps s)
  case (Cons e es)
  then obtain ps1 s1 where e: "pool_event x st e (ps, s) = Some (ps1, s1)"
    and r: "pool_run x st es (ps1, s1) = Some (ps', s')" by (auto split: option.splits)
  have "ps1 ! i = Uploading fresh ns (Ended r) \<and> i < length ps1"
    using e Cons.prems(1,2)
    by (cases e) (auto simp: nth_append nth_list_update Let_def task_step_def split: if_splits prod.splits)
  with Cons.IH [OF _ _ r] show ?case by blast
qed simp

text \<open>One upload is finished; then two uploads of the same bytes and a sweep run in lock step.\<close>

definition sample_rest :: "event list" where
  "sample_rest = [Arrive (PutStream 8 sample_ns sample_body), Arrive (PutStream 9 sample_ns sample_body),
     Arrive (SweepStaging 100)]"

definition sample_lock_step :: "event list" where
  "sample_lock_step = concat (replicate 17 [Step 1, Step 2, Step 3])"

lemma sample_pool_run:
  "\<exists>es so ps s. pool_run sample_externs sample_store es ([], sample_fs) = Some (ps, s) \<and> length ps = 4
     \<and> ps ! 0 = Uploading 7 sample_ns (Ended (Ok so))"
proof -
  let ?run = "pool_run sample_externs sample_store"
  obtain so s1 where put: "put_stream sample_externs sample_store 7 sample_ns sample_body sample_fs = (Ok so, s1)"
    using sample_put_ok by (metis is_ok_iff prod.collapse)
  let ?up = "Uploading 7 sample_ns (Ended (Ok so))"
  have 1: "?run (Arrive (PutStream 7 sample_ns sample_body) # replicate (length sample_body + 15) (Step 0))
      ([], sample_fs) = Some ([?up], s1)"
    using pool_alone [OF put_stream_bound [OF sample_idle(1) put], of "[]"] by simp
  let ?ps = "[?up, Uploading 8 sample_ns (Run (PutCreate sample_body)),
    Uploading 9 sample_ns (Run (PutCreate sample_body)), Sweeping (Run (SweepRead 100))]"
  have 2: "?run sample_rest ([?up], s1) = Some (?ps, s1)"
    by (simp add: sample_rest_def)
  have "\<exists>ps s. ?run sample_lock_step (?ps, s1) = Some (ps, s) \<and> length ps = length ?ps"
    by (rule pool_run_steps) (auto simp: sample_lock_step_def)
  then obtain ps s where 3: "?run sample_lock_step (?ps, s1) = Some (ps, s)" "length ps = 4" by auto
  have "ps ! 0 = ?up" by (rule ended_stays [OF _ _ 3(1)]) simp_all
  with 1 2 3 show ?thesis
    using pool_run_append [of sample_externs sample_store _ "sample_rest @ sample_lock_step"]
      pool_run_append [of sample_externs sample_store sample_rest sample_lock_step]
    by (metis option.simps(5))
qed

lemma concurrent_store_safe_witness:
  "\<exists>es so ps s. pool_run sample_externs sample_store es ([], sample_fs) = Some (ps, s) \<and> length ps = 4
     \<and> file_at s (object_path sample_externs sample_store sample_ns (so_sha256 so)) \<noteq> None
     \<and> ps ! 0 = Uploading 7 sample_ns (Ended (Ok so))"
proof -
  obtain es so ps s where run: "pool_run sample_externs sample_store es ([], sample_fs) = Some (ps, s)"
    and ps: "length ps = 4" "ps ! 0 = Uploading 7 sample_ns (Ended (Ok so))"
    using sample_pool_run by blast
  have "ps ! 0 \<in> set ps" using ps(1) by simp
  with concurrent_store_safe [OF sample_uuid_documented sample_sha256_documented sample_layout
      sample_idle(1) sample_content_ok run]
  have "process_promise sample_externs sample_store s (ps ! 0)" by blast
  with ps(2) have "file_at s (object_path sample_externs sample_store sample_ns (so_sha256 so)) \<noteq> None"
    by (auto split: option.splits)
  with ps run show ?thesis by blast
qed

lemma put_stream_is_its_steps_witness:
  "\<exists>so s'. (put_next sample_externs sample_store sample_ns (staging_path sample_externs sample_store 7) ^^ 17)
     (Run (PutCreate sample_body), sample_fs) = (Ended (Ok so), s')"
proof -
  obtain so s' where put: "put_stream sample_externs sample_store 7 sample_ns sample_body sample_fs = (Ok so, s')"
    using sample_put_ok by (metis is_ok_iff prod.collapse)
  have "length sample_body + 15 = 17" by (simp add: sample_body_def)
  with put_stream_is_its_steps [OF sample_idle(1) put] show ?thesis by metis
qed

text \<open>Two uploads that start together and run in lock step both end.\<close>

lemma concurrent_upload_ends_witness:
  "\<exists>ps s r. pool_run sample_externs sample_store (concat (replicate 17 [Step 0, Step 1]))
       ([Uploading 7 sample_ns (Run (PutCreate sample_body)),
         Uploading 8 sample_ns (Run (PutCreate sample_body))], sample_fs) = Some (ps, s)
     \<and> ps ! 1 = Uploading 8 sample_ns (Ended r)"
proof -
  let ?ps = "[Uploading 7 sample_ns (Run (PutCreate sample_body)),
         Uploading 8 sample_ns (Run (PutCreate sample_body))]"
  let ?es = "concat (replicate 17 [Step 0, Step 1])"
  have start: "pool_run sample_externs sample_store
      [Arrive (PutStream 7 sample_ns sample_body), Arrive (PutStream 8 sample_ns sample_body)]
      ([], sample_fs) = Some (?ps, sample_fs)" by simp
  have "\<exists>ps s. pool_run sample_externs sample_store ?es (?ps, sample_fs) = Some (ps, s) \<and> length ps = length ?ps"
    by (rule pool_run_steps) auto
  then obtain ps s where run: "pool_run sample_externs sample_store ?es (?ps, sample_fs) = Some (ps, s)"
    by blast
  have "length sample_body + 15 \<le> count_list ?es (Step 1)"
    by (simp add: sample_body_def eval_nat_numeral)
  with concurrent_upload_ends [OF sample_uuid_documented sample_sha256_documented sample_layout
      sample_idle(1) sample_content_ok start, of 1 8 sample_ns sample_body ?es ps s] run
  show ?thesis by auto
qed

end
