(* ===== verification/StoreServes.thy ===== *)
theory StoreServes
  imports StoreSpec
begin

text \<open>
  That the store serves: while no call fails and the directories are what the store makes them,
  every complete upload succeeds, and what it returns can be read back. The theorems on the
  outcomes of \<open>put_stream\<close> say what success and failure mean; this one says when it succeeds.
\<close>

text \<open>The directories of a store: the staging directory is there, nothing but a directory is at or
  above a shard, and nothing but a file is at the place of an object.\<close>

definition store_dirs :: "fs_store \<Rightarrow> nodes \<Rightarrow> bool" where
  "store_dirs st f \<longleftrightarrow>
     (\<exists>m. f (staging_root st) = Some (Dir m))
     \<and> (\<forall>p n. f p = Some n \<longrightarrow>
          prefix p (objects_root st) \<or> (prefix (objects_root st) p \<and> length p < length (objects_root st) + 4)
          \<longrightarrow> (\<exists>m. n = Dir m))
     \<and> (\<forall>p m. is_object_path (objects_root st) p \<longrightarrow> f p \<noteq> Some (Dir m))"

text \<open>\<open>quiet\<close>: no call fails, none is in flight and none that a destructor makes fails.\<close>

definition quiet :: "fs \<Rightarrow> bool" where
  "quiet s \<longleftrightarrow> fs_faults s = [] \<and> fs_late s = [] \<and> fs_drop_faults s = []"

text \<open>A store that can serve: it is quiet, has its directories, no staging file and only objects that
hash to their names.\<close>

definition serving :: "externs \<Rightarrow> fs_store \<Rightarrow> fs \<Rightarrow> bool" where
  "serving x st s \<longleftrightarrow> quiet s \<and> store_dirs st (node_at s) \<and> (\<forall>n. node_at s (staging_root st @ [n]) = None)
     \<and> content_ok x (objects_root st) (node_at s)"

text \<open>\<open>only_dirs\<close>: nothing changed but that some directories on the way to \<open>d\<close> were made or set.\<close>

definition only_dirs :: "path \<Rightarrow> fs \<Rightarrow> fs \<Rightarrow> bool" where
  "only_dirs d s s' \<longleftrightarrow> (\<forall>p. node_at s' p = node_at s p \<or> (prefix p d \<and> (\<exists>m. node_at s' p = Some (Dir m))))"

lemma quiet_call: "quiet s \<Longrightarrow> sys_call op s = perform op s"
  by (simp add: quiet_def sys_call_fine)

lemma quiet_look: "quiet s \<Longrightarrow> sys_look look s = (look s, s)"
  by (simp add: quiet_def sys_look_fine)

lemma quiet_nodes [simp]: "quiet (put_node p n s) = quiet s" "quiet (del_node p s) = quiet s"
  by (simp_all add: quiet_def)

lemma quiet_mkdirs: "mkdirs ps s = (r, s') \<Longrightarrow> quiet s' = quiet s"
  by (drule mkdirs_fields) (simp add: quiet_def)

section \<open>Each call\<close>

lemma write_chunks_fine:
  assumes "quiet s" "node_at s p = Some (File m c t)"
  shows "\<exists>s' t'. write_chunks p (map Ok bss) h n s
      = (Ok (h @ concat bss, n + of_nat (length (concat bss))), s')
    \<and> quiet s' \<and> node_at s' = (node_at s)(p := Some (File m (c @ concat bss) t'))"
  using assms
proof (induction bss arbitrary: h n s c t)
  case Nil
  then show ?case by (auto simp: st_ok_def fun_eq_iff)
next
  case (Cons bs bss)
  let ?s = "put_node p (File m (c @ bs) (fs_now s)) s"
  have w: "sys_call (OpWrite p bs) s = (Ok (), ?s)"
    using Cons.prems by (simp add: quiet_call perform.simps)
  have "quiet ?s" "node_at ?s p = Some (File m (c @ bs) (fs_now s))" using Cons.prems by simp_all
  from Cons.IH [OF this, of "h @ bs" "n + of_nat (length bs)"] obtain s' t' where
    r: "write_chunks p (map Ok bss) (h @ bs) (n + of_nat (length bs)) ?s
      = (Ok ((h @ bs) @ concat bss, n + of_nat (length bs) + of_nat (length (concat bss))), s')"
    and s': "quiet s'" "node_at s' = (node_at ?s)(p := Some (File m ((c @ bs) @ concat bss) t'))"
    by blast
  have "node_at s' = (node_at s)(p := Some (File m (c @ concat (bs # bss)) t'))"
    unfolding s'(2) by (auto simp: fun_eq_iff)
  with r s'(1) w show ?case
    by (intro exI conjI) (auto simp: io_call_def st_map_err_def st_then_def st_lift_def add.assoc)
qed

lemma mkdirs_fine:
  assumes "\<forall>p\<in>set ps. \<forall>n. node_at s p = Some n \<longrightarrow> (\<exists>m. n = Dir m)"
  shows "\<exists>s'. mkdirs ps s = (Ok (), s') \<and> (\<forall>p\<in>set ps. \<exists>m. node_at s' p = Some (Dir m))
    \<and> (\<forall>p. p \<notin> set ps \<longrightarrow> node_at s' p = node_at s p)
    \<and> (\<forall>p m. node_at s p = Some (Dir m) \<longrightarrow> node_at s' p = Some (Dir m))"
  using assms
proof (induction ps arbitrary: s)
  case (Cons q ps)
  show ?case
  proof (cases "node_at s q")
    case None
    let ?s = "put_node q (Dir (fs_dir_mode s)) s"
    have "\<exists>s'. mkdirs ps ?s = (Ok (), s') \<and> (\<forall>p\<in>set ps. \<exists>m. node_at s' p = Some (Dir m))
      \<and> (\<forall>p. p \<notin> set ps \<longrightarrow> node_at s' p = node_at ?s p)
      \<and> (\<forall>p m. node_at ?s p = Some (Dir m) \<longrightarrow> node_at s' p = Some (Dir m))"
      using Cons.prems by (intro Cons.IH) (auto split: if_splits)
    then obtain s' where s': "mkdirs ps ?s = (Ok (), s')" "\<forall>p\<in>set ps. \<exists>m. node_at s' p = Some (Dir m)"
      "\<forall>p. p \<notin> set ps \<longrightarrow> node_at s' p = node_at ?s p"
      "\<forall>p m. node_at ?s p = Some (Dir m) \<longrightarrow> node_at s' p = Some (Dir m)" by blast
    have "node_at s' q = Some (Dir (fs_dir_mode s))" using s'(4) by simp
    moreover have "node_at s' p = Some (Dir m)" if "node_at s p = Some (Dir m)" for p m
      using s'(4) that None by (cases "p = q") simp_all
    moreover have "mkdirs (q # ps) s = (Ok (), s')" using s'(1) None by simp
    ultimately show ?thesis using s'(2,3) by (intro exI [of _ s']) auto
  next
    case (Some n)
    with Cons.prems obtain m where n: "n = Dir m" by auto
    from Cons.IH [of s] Cons.prems obtain s' where s': "mkdirs ps s = (Ok (), s')"
      "\<forall>p\<in>set ps. \<exists>m. node_at s' p = Some (Dir m)"
      "\<forall>p. p \<notin> set ps \<longrightarrow> node_at s' p = node_at s p"
      "\<forall>p m. node_at s p = Some (Dir m) \<longrightarrow> node_at s' p = Some (Dir m)" by auto
    then have "node_at s' q = Some (Dir m)" using Some n by blast
    moreover have "mkdirs (q # ps) s = (Ok (), s')" using s'(1) Some n by simp
    ultimately show ?thesis using s'(2-4) by (intro exI [of _ s']) auto
  qed
qed simp

lemma ancestors_prefix: "p \<in> set (ancestors d) \<Longrightarrow> prefix p d \<and> p \<noteq> []"
  by (auto simp: ancestors_def take_is_prefix)

lemma self_ancestor: "d \<noteq> [] \<Longrightarrow> d \<in> set (ancestors d)"
  unfolding ancestors_def set_map
  by (rule image_eqI [of _ _ "length d - 1"]) (auto simp: neq_Nil_conv)

lemma create_private_dir_fine:
  assumes "quiet s" "d \<noteq> []"
    and dirs: "\<forall>p n. prefix p d \<longrightarrow> node_at s p = Some n \<longrightarrow> (\<exists>m. n = Dir m)"
  shows "\<exists>s'. create_private_dir d s = (Ok (), s') \<and> quiet s'
    \<and> (\<exists>m. node_at s' d = Some (Dir m)) \<and> only_dirs d s s'"
proof -
  have "\<exists>s1. mkdirs (ancestors d) s = (Ok (), s1) \<and> (\<forall>p\<in>set (ancestors d). \<exists>m. node_at s1 p = Some (Dir m))
    \<and> (\<forall>p. p \<notin> set (ancestors d) \<longrightarrow> node_at s1 p = node_at s p)
    \<and> (\<forall>p m. node_at s p = Some (Dir m) \<longrightarrow> node_at s1 p = Some (Dir m))"
    using dirs ancestors_prefix by (intro mkdirs_fine) blast
  then obtain s1 where s1: "mkdirs (ancestors d) s = (Ok (), s1)"
    and made: "\<forall>p\<in>set (ancestors d). \<exists>m. node_at s1 p = Some (Dir m)"
    and kept: "\<forall>p. p \<notin> set (ancestors d) \<longrightarrow> node_at s1 p = node_at s p" by blast
  from quiet_mkdirs [OF s1] assms(1) have q: "quiet s1" by simp
  from made self_ancestor [OF assms(2)] obtain m where m: "node_at s1 d = Some (Dir m)" by blast
  let ?s = "put_node d (Dir 0x1C0) s1"
  have "create_private_dir d s = (Ok (), ?s)"
    using s1 q m assms(1)
    by (simp add: create_private_dir_def io_call_def st_map_err_def st_then_def quiet_call perform.simps)
  moreover have "only_dirs d s ?s"
    unfolding only_dirs_def
  proof
    fix p
    show "node_at ?s p = node_at s p \<or> prefix p d \<and> (\<exists>m. node_at ?s p = Some (Dir m))"
      using made kept ancestors_prefix by (cases "p = d"; cases "p \<in> set (ancestors d)") auto
  qed
  ultimately show ?thesis using q by (intro exI [of _ ?s]) auto
qed

text \<open>The length decides whether an object is taken for the one being stored.\<close>

definition stored_with :: "u64 \<Rightarrow> bytes option \<Rightarrow> bool" where
  "stored_with n c \<longleftrightarrow> (\<exists>bs. c = Some bs \<and> of_nat (length bs) = n)"

lemma stat_existing_fine:
  assumes "quiet s" "\<And>m. node_at s p \<noteq> Some (Dir m)"
  shows "stat_existing p n s = (Ok (stored_with n (file_at s p)), s)"
proof (cases "node_at s p")
  case None
  with assms(1) show ?thesis
    by (simp add: stat_existing_def symlink_metadata_def quiet_look look_node_def stored_with_def file_at_def)
next
  case (Some k)
  with assms show ?thesis
    by (cases k) (simp_all add: stat_existing_def symlink_metadata_def quiet_look look_node_def
        stored_with_def file_at_def)
qed

text \<open>What is left of the call when the guard has dropped.\<close>

definition published :: "path \<Rightarrow> path \<Rightarrow> bool \<Rightarrow> node \<Rightarrow> fs \<Rightarrow> fs \<Rightarrow> bool" where
  "published staging final present n s1 s' \<longleftrightarrow>
     node_at s' = (if present then (node_at s1)(staging := None) else (node_at s1)(staging := None, final := Some n))"

lemma publish_fine:
  assumes "quiet s" "butlast final \<noteq> []" "final \<noteq> []" "final \<noteq> staging"
    and dirs: "\<forall>p n. prefix p (butlast final) \<longrightarrow> node_at s p = Some n \<longrightarrow> (\<exists>m. n = Dir m)"
    and staged: "node_at s staging = Some (File m c t)"
    and free: "\<And>m. node_at s final \<noteq> Some (Dir m)"
  shows "\<exists>so dir disarmed s1 s'. publish staging final key h n s = (Ok ((so, dir), disarmed), s')
    \<and> quiet s' \<and> so_already_present so = stored_with n (file_at s final)
    \<and> only_dirs (butlast final) s s1
    \<and> published staging final (so_already_present so) (File m c t) s1 (if disarmed then s' else guard_drop staging s')"
proof -
  from create_private_dir_fine [OF assms(1,2) dirs] obtain s1 where
    d: "create_private_dir (butlast final) s = (Ok (), s1)" and q: "quiet s1"
    and dir: "\<exists>m. node_at s1 (butlast final) = Some (Dir m)" and only: "only_dirs (butlast final) s s1" by blast
  have kept: "node_at s1 p = node_at s p" if "\<not> prefix p (butlast final)" for p
    using only that unfolding only_dirs_def by blast
  have "\<not> prefix staging (butlast final)" using dirs staged by blast
  then have st1: "node_at s1 staging = Some (File m c t)" using kept staged by simp
  have "length (butlast final) < length final" using assms(3) by simp
  then have "\<not> prefix final (butlast final)" using prefix_length_le by fastforce
  then have same: "node_at s1 final = node_at s final" by (rule kept)
  then have fin1: "node_at s1 final \<noteq> Some (Dir k)" for k using free by simp
  have b: "stat_existing final n s1 = (Ok (stored_with n (file_at s final)), s1)"
    using stat_existing_fine [OF q fin1] same by (simp add: file_at_def)
  show ?thesis
  proof (cases "stored_with n (file_at s final)")
    case True
    let ?so = "\<lparr>so_key = key, so_sha256 = h, so_size_bytes = n, so_already_present = True\<rparr>"
    have "publish staging final key h n s = (Ok ((?so, None), False), s1)"
      using d b True by (simp add: publish_def st_ok_def)
    moreover have "published staging final True (File m c t) s1 (guard_drop staging s1)"
      using q st1 by (simp add: published_def guard_drop_def sync_remove_def quiet_def perform.simps fun_eq_iff)
    ultimately show ?thesis using q only True
      by (intro exI [of _ ?so] exI [of _ None] exI [of _ False] exI [of _ s1]) simp
  next
    case False
    let ?so = "\<lparr>so_key = key, so_sha256 = h, so_size_bytes = n, so_already_present = False\<rparr>"
    let ?s = "put_node final (File m c t) (del_node staging s1)"
    from dir have "parent_check final s1 = None" by (auto simp: parent_check_def)
    with st1 fin1 have "sys_call (OpRename staging final) s1 = (Ok (), ?s)"
      by (auto simp: quiet_call [OF q] perform.simps split: option.split node.split)
    with d b False have "publish staging final key h n s = (Ok ((?so, Some (butlast final)), True), ?s)"
      by (simp add: publish_def st_ok_def io_call_def st_map_err_def)
    moreover have "published staging final False (File m c t) s1 ?s"
      by (simp add: published_def fun_eq_iff)
    ultimately show ?thesis using q only False
      by (intro exI [of _ ?so] exI [of _ "Some (butlast final)"] exI [of _ True] exI [of _ s1] exI [of _ ?s]) simp
  qed
qed

lemma sync_dir_fine:
  assumes "quiet s"
  shows "sync_dir d s = (Ok (), s)"
proof (cases "look_node d s")
  case (Ok n)
  with assms show ?thesis
    by (simp add: sync_dir_def ignore_err_def st_then_def quiet_look quiet_call perform.simps)
next
  case (Err k)
  with assms show ?thesis by (simp add: sync_dir_def ignore_err_def st_then_def quiet_look)
next
  case Panic
  then show ?thesis by (auto simp: look_node_def outcome_simps)
qed

section \<open>Uploads succeed\<close>

lemma object_dirs:
  assumes "store_dirs st f" "prefix p (butlast (object_path x st ns d))" "f p = Some n"
  shows "\<exists>m. n = Dir m"
proof -
  have path: "butlast (object_path x st ns d) = objects_root st @
     [lit ''bureau-'' @ uuid_to_string x (ns_bureau_id ns),
      lit ''partner-'' @ uuid_to_string x (ns_partner_id ns), take 2 d]"
    by (simp add: object_path_def butlast_append)
  have "prefix p (objects_root st) \<or> (\<exists>us. p = objects_root st @ us \<and> length us \<le> 3)"
    using assms(2) unfolding path prefix_append by (auto dest: prefix_length_le)
  then have "prefix p (objects_root st) \<or>
      (prefix (objects_root st) p \<and> length p < length (objects_root st) + 4)" by auto
  with assms(1,3) show ?thesis unfolding store_dirs_def by blast
qed

text \<open>What an upload may have done to the tree.\<close>

definition upload_tree :: "path \<Rightarrow> path \<Rightarrow> fs \<Rightarrow> fs \<Rightarrow> bool" where
  "upload_tree staging final s s' \<longleftrightarrow>
     (\<forall>q. (if q = staging then node_at s' q = None
          else node_at s' q = node_at s q \<or> (prefix q (butlast final) \<and> (\<exists>m. node_at s' q = Some (Dir m)))
            \<or> (q = final \<and> (\<exists>m c t. node_at s' q = Some (File m c t)))))"

lemma published_tree:
  assumes s2: "node_at s2 = (node_at s)(staging := n)" and only: "only_dirs (butlast final) s2 s1"
    and pub: "published staging final pr (File m c t) s1 s'" and ne: "final \<noteq> staging"
  shows "upload_tree staging final s s'"
  unfolding upload_tree_def
proof
  fix q
  have "node_at s1 q = node_at s q \<or> (prefix q (butlast final) \<and> (\<exists>m. node_at s1 q = Some (Dir m)))"
    if "q \<noteq> staging" using only s2 that unfolding only_dirs_def by (metis fun_upd_other)
  then show "if q = staging then node_at s' q = None
    else node_at s' q = node_at s q \<or> (prefix q (butlast final) \<and> (\<exists>m. node_at s' q = Some (Dir m)))
      \<or> (q = final \<and> (\<exists>m c t. node_at s' q = Some (File m c t)))"
    using pub ne by (cases pr) (auto simp: published_def)
qed

lemma staging_place:
  assumes "store_layout st"
  shows "\<not> prefix (staging_root st @ [n]) (butlast (object_path x st ns d))"
    "staging_root st @ [n] \<noteq> object_path x st ns d" "staging_root st \<noteq> object_path x st ns d"
    "\<not> prefix (staging_root st @ [n]) (objects_root st)" "\<not> prefix (objects_root st) (staging_root st @ [n])"
    "\<not> is_object_path (objects_root st) (staging_root st @ [n])"
  using assms by (auto simp: object_path_def store_layout_def butlast_append is_object_path_def
      OBJECTS_DIR_def STAGING_DIR_def)

lemma upload_tree_dirs:
  assumes layout: "store_layout st" and dirs: "store_dirs st (node_at s)"
    and tree: "upload_tree (staging_root st @ [n]) (object_path x st ns d) s s'"
  shows "store_dirs st (node_at s')"
proof -
  let ?p = "staging_root st @ [n]" and ?final = "object_path x st ns d"
  have cases: "(q = ?p \<and> node_at s' q = None) \<or> node_at s' q = node_at s q
      \<or> (prefix q (butlast ?final) \<and> (\<exists>m. node_at s' q = Some (Dir m)))
      \<or> (q = ?final \<and> (\<exists>m c t. node_at s' q = Some (File m c t)))" for q
    using tree unfolding upload_tree_def by metis
  have obj: "is_object_path (objects_root st) ?final" by (rule object_path_is_object)
  have len: "length (butlast ?final) = length (objects_root st) + 3"
    by (simp add: object_path_def butlast_append)
  have root: "\<exists>m. node_at s' (staging_root st) = Some (Dir m)"
    using cases [of "staging_root st"] dirs staging_place(3) [OF layout] unfolding store_dirs_def by fastforce
  moreover have "\<exists>m. k = Dir m" if "node_at s' q = Some k"
    "prefix q (objects_root st) \<or> (prefix (objects_root st) q \<and> length q < length (objects_root st) + 4)" for q k
  proof -
    have "q \<noteq> ?final" using that(2) obj unfolding is_object_path_def
      by (auto dest: prefix_length_le)
    with cases [of q] that(1) have "node_at s q = Some k \<or> (\<exists>m. k = Dir m)" by auto
    with that(2) dirs show ?thesis unfolding store_dirs_def by blast
  qed
  moreover have "node_at s' q \<noteq> Some (Dir m)" if "is_object_path (objects_root st) q" for q m
  proof -
    have "\<not> prefix q (butlast ?final)" using that len unfolding is_object_path_def
      by (auto dest: prefix_length_le)
    moreover have "node_at s q \<noteq> Some (Dir m)" using that dirs unfolding store_dirs_def by blast
    ultimately show ?thesis using cases [of q] by auto
  qed
  ultimately show ?thesis unfolding store_dirs_def by blast
qed

lemma upload_tree_staging:
  assumes layout: "store_layout st" and none: "\<forall>k. node_at s (staging_root st @ [k]) = None"
    and tree: "upload_tree (staging_root st @ [n]) (object_path x st ns d) s s'"
  shows "node_at s' (staging_root st @ [k]) = None"
  using tree none staging_place(1,2) [OF layout, of k x ns d] unfolding upload_tree_def by metis

lemma upload_succeeds:
  assumes docs: "uuid_documented x" "sha256_documented x" "store_layout st"
    and dirs: "store_dirs st (node_at s)" and free: "node_at s (staging_path x st fresh) = None"
    and fine: "quiet s"
  shows "\<exists>so s'. put_stream x st fresh ns (map Ok bss) s = (Ok so, s') \<and> quiet s'
    \<and> so_already_present so = stored_with (of_nat (length (concat bss)))
        (file_at s (object_path x st ns (content_digest x (concat bss))))
    \<and> upload_tree (staging_path x st fresh) (object_path x st ns (content_digest x (concat bss))) s s'"
proof -
  let ?p = "staging_path x st fresh" and ?h = "concat bss"
  let ?final = "object_path x st ns (content_digest x ?h)"
  let ?n = "of_nat (length ?h) :: u64"
  let ?key = "ObjectKey (key_text x ns (content_digest x ?h))"
  have p: "?p = staging_root st @ [uuid_to_string x fresh @ lit ''.part'']" by (simp add: staging_path_def)
  have "butlast ?p = staging_root st" by (simp add: staging_path_def)
  with dirs have "parent_check ?p s = None" by (auto simp: parent_check_def store_dirs_def)
  then have create: "sys_call (OpCreate ?p) s = (Ok (), put_node ?p (File 0x180 [] (fs_now s)) s)"
    using free by (simp add: quiet_call [OF fine] perform.simps)
  let ?s1 = "put_node ?p (File 0x180 [] (fs_now s)) s"
  have "quiet ?s1" "node_at ?s1 ?p = Some (File 0x180 [] (fs_now s))" using fine by simp_all
  from write_chunks_fine [OF this, of bss "[]" 0] obtain s2 t where
    w: "write_chunks ?p (map Ok bss) [] 0 ?s1 = (Ok (?h, ?n), s2)"
    and s2: "quiet s2" "node_at s2 = (node_at ?s1)(?p := Some (File 0x180 ?h t))" by auto
  have stage: "stage_body ?p (map Ok bss) s = (Ok (?h, ?n), s2)"
    using create w s2(1)
    by (simp add: stage_body_def private_create_def io_call_def st_map_err_def st_then_def st_ok_def
        quiet_call perform.simps)
  have tree2: "node_at s2 = (node_at s)(?p := Some (File 0x180 ?h t))" using s2(2) by (simp add: fun_eq_iff)
  have other: "node_at s2 q = node_at s q" if "q \<noteq> ?p" for q using tree2 that by simp
  have staged: "node_at s2 ?p = Some (File 0x180 ?h t)" using tree2 by simp
  have ne: "?final \<noteq> ?p" using staging_place(2) [OF docs(3)] p by metis
  have "\<exists>so dir disarmed s1 s3. publish ?p ?final ?key (content_digest x ?h) ?n s2 = (Ok ((so, dir), disarmed), s3)
    \<and> quiet s3 \<and> so_already_present so = stored_with ?n (file_at s2 ?final) \<and> only_dirs (butlast ?final) s2 s1
    \<and> published ?p ?final (so_already_present so) (File 0x180 ?h t) s1 (if disarmed then s3 else guard_drop ?p s3)"
  proof (rule publish_fine [OF s2(1) _ _ ne _ staged])
    show "butlast ?final \<noteq> []" "?final \<noteq> []" by (simp_all add: object_path_def butlast_append)
    show "\<forall>q n. prefix q (butlast ?final) \<longrightarrow> node_at s2 q = Some n \<longrightarrow> (\<exists>m. n = Dir m)"
    proof (intro allI impI)
      fix q n assume q: "prefix q (butlast ?final)" "node_at s2 q = Some n"
      with staging_place(1) [OF docs(3)] p have "q \<noteq> ?p" by metis
      with other q have "node_at s q = Some n" by simp
      with object_dirs [OF dirs q(1)] show "\<exists>m. n = Dir m" by blast
    qed
    show "node_at s2 ?final \<noteq> Some (Dir m)" for m
      using other [OF ne] dirs object_path_is_object unfolding store_dirs_def by metis
  qed
  then obtain so dir disarmed s1 s3 where
    pub: "publish ?p ?final ?key (content_digest x ?h) ?n s2 = (Ok ((so, dir), disarmed), s3)"
    and q3: "quiet s3" and present: "so_already_present so = stored_with ?n (file_at s2 ?final)"
    and only: "only_dirs (butlast ?final) s2 s1"
    and tree: "published ?p ?final (so_already_present so) (File 0x180 ?h t) s1
      (if disarmed then s3 else guard_drop ?p s3)" by blast
  have put: "put_staged x st ?p ns (map Ok bss) s = (Ok ((so, dir), disarmed), s3)"
    unfolding put_staged_publish [OF docs(1,2)] using stage pub by simp
  let ?s4 = "if disarmed then s3 else guard_drop ?p s3"
  have q4: "quiet ?s4"
    using q3 by (simp add: guard_drop_def sync_remove_def quiet_def)
  have g: "guarded ?p (put_staged x st ?p ns (map Ok bss)) s = (Ok (so, dir), ?s4)"
    using put by (simp add: guarded_def)
  have "put_stream x st fresh ns (map Ok bss) s = (Ok so, ?s4)"
    using g sync_dir_fine [OF q4]
    by (cases dir) (simp_all add: put_stream_def Let_def future_def st_then_def st_ok_def)
  moreover have "so_already_present so = stored_with ?n (file_at s ?final)"
    using present other [OF ne] by (simp add: file_at_def)
  moreover have "upload_tree ?p ?final s ?s4" by (rule published_tree [OF tree2 only tree ne])
  ultimately show ?thesis using q4 by (intro exI [of _ so] exI [of _ ?s4]) simp
qed

section \<open>A store that serves goes on serving\<close>

lemma map_Ok_inj: "map Ok xs = map Ok ys \<longleftrightarrow> xs = ys"
  by (simp add: inj_map_eq_map inj_def)

lemma upload_served:
  assumes docs: "uuid_documented x" "sha256_documented x" "store_layout st" and serving: "serving x st s"
  shows "\<exists>so c s'. put_stream x st fresh ns (map Ok bss) s = (Ok so, s') \<and> serving x st s'
    \<and> so_key so = ObjectKey (key_text x ns (content_digest x (concat bss)))
    \<and> so_sha256 so = content_digest x (concat bss) \<and> so_size_bytes so = of_nat (length (concat bss))
    \<and> so_already_present so = stored_with (so_size_bytes so) (store_view x st s (so_key so))
    \<and> store_view x st s' = (store_view x st s)(so_key so \<mapsto> c)
    \<and> content_digest x c = so_sha256 so \<and> of_nat (length c) = so_size_bytes so
    \<and> (if so_already_present so then store_view x st s (so_key so) = Some c else c = concat bss)
    \<and> open_object st (so_key so) s' = (Ok \<lparr>ob_size_bytes = so_size_bytes so, ob_content = c\<rparr>, s')"
proof -
  let ?d = "content_digest x (concat bss)" and ?n = "uuid_to_string x fresh @ lit ''.part''"
  have q: "quiet s" and dirs: "store_dirs st (node_at s)"
    and none: "\<forall>n. node_at s (staging_root st @ [n]) = None"
    and content: "content_ok x (objects_root st) (node_at s)"
    using serving unfolding serving_def by blast+
  have late: "fs_late s = []" using q by (simp add: quiet_def)
  have "node_at s (staging_path x st fresh) = None" using none by (simp add: staging_path_def)
  from upload_succeeds [OF docs dirs this q] obtain so s' where
    put: "put_stream x st fresh ns (map Ok bss) s = (Ok so, s')" and q': "quiet s'"
    and present: "so_already_present so = stored_with (of_nat (length (concat bss))) (file_at s (object_path x st ns ?d))"
    and tree: "upload_tree (staging_root st @ [?n]) (object_path x st ns ?d) s s'"
    unfolding staging_path_def by blast
  from put_stream_success [OF docs late put] obtain bss' where
    bss': "bss' = bss" and sha: "so_sha256 so = content_digest x (concat bss')"
    and size: "so_size_bytes so = of_nat (length (concat bss'))"
    and key: "so_key so = ObjectKey (key_text x ns (so_sha256 so))"
    unfolding map_Ok_inj by (elim exE conjE) (rule that, rule sym)
  note k = stored_key [where ns = ns, OF docs(1) content_digest_hex [OF docs(2)]]
  have key': "so_key so = ObjectKey (key_text x ns ?d)" using key sha bss' by simp
  have at: "store_view x st t (so_key so) = file_at t (object_path x st ns ?d)" for t
    unfolding key' by (rule view_valid [OF k(1,2)])
  from put_Ok_refines [OF docs late content put] obtain bss2 c where
    "bss2 = bss" and view: "store_view x st s' = (store_view x st s)(so_key so \<mapsto> c)"
    and digest: "content_digest x c = so_sha256 so" and len: "so_size_bytes so = of_nat (length c)"
    and new: "if so_already_present so then store_view x st s (so_key so) = Some c else c = concat bss2"
    unfolding put_refines_def outcome.case map_Ok_inj by (elim exE conjE) (rule that, rule sym)
  then have new': "if so_already_present so then store_view x st s (so_key so) = Some c else c = concat bss" by simp
  have "serving x st s'"
    unfolding serving_def
    using q' upload_tree_dirs [OF docs(3) dirs tree] upload_tree_staging [OF docs(3) none tree]
      put_stream_keeps_content [OF docs late content, of fresh ns "map Ok bss"] put by simp
  moreover have "open_object st (so_key so) s' = (Ok \<lparr>ob_size_bytes = so_size_bytes so, ob_content = c\<rparr>, s')"
  proof -
    have "file_at s' (object_path x st ns ?d) = Some c"
      using at [of s'] view by simp
    moreover have "fs_faults s' = []" using q' by (simp add: quiet_def)
    ultimately show ?thesis unfolding key' len using open_object_present [OF k(2)] by blast
  qed
  moreover have "so_already_present so = stored_with (so_size_bytes so) (store_view x st s (so_key so))"
    using present at [of s] size bss' by simp
  ultimately show ?thesis
    using put key' sha size bss' view digest len new' by (intro exI [of _ so] exI [of _ c] exI [of _ s']) simp
qed

lemma delete_served:
  assumes layout: "store_layout st" and serving: "serving x st s" and key: "valid_key x k"
  shows "\<exists>s'. delete_object st k s = (Ok (), s') \<and> serving x st s'
    \<and> store_view x st s' = (store_view x st s)(k := None)
    \<and> open_object st k s' = (Err (StorageNotFound (key_str k)), s')"
proof -
  have q: "quiet s" and dirs: "store_dirs st (node_at s)"
    and none: "\<forall>n. node_at s (staging_root st @ [n]) = None"
    and content: "content_ok x (objects_root st) (node_at s)"
    using serving unfolding serving_def by blast+
  from parsed_key_resolves [OF key [unfolded valid_key_def], of "objects_root st"] obtain p where
    p: "resolve_within (objects_root st) k = Ok p" and obj: "is_object_path (objects_root st) p"
    by (auto simp: is_object_path_def)
  have no_dir: "node_at s p \<noteq> Some (Dir m)" for m using dirs obj unfolding store_dirs_def by blast
  have perf: "sys_call (OpRemove p) s = (if node_at s p = None then (Err IoNotFound, s) else (Ok (), del_node p s))"
    using no_dir by (auto simp: quiet_call [OF q] perform.simps split: option.split node.split)
  let ?s = "if node_at s p = None then s else del_node p s"
  have del: "delete_object st k s = (Ok (), ?s)"
    using p perf by (simp add: delete_object_def future_def st_then_def st_lift_def)
  have tree: "node_at ?s = (node_at s)(p := None)" by (auto simp: fun_eq_iff)
  have "staging_root st \<noteq> p" "\<And>n. staging_root st @ [n] \<noteq> p"
    using obj layout by (auto simp: is_object_path_def store_layout_def OBJECTS_DIR_def STAGING_DIR_def)
  then have "store_dirs st (node_at ?s)" "\<forall>n. node_at ?s (staging_root st @ [n]) = None"
    using dirs none unfolding tree store_dirs_def by auto
  moreover have "content_ok x (objects_root st) (node_at ?s)"
    using content unfolding tree content_ok_def by auto
  moreover have "quiet ?s" using q by simp
  ultimately have "serving x st ?s" unfolding serving_def by blast
  moreover have "fs_late s = []" using q by (simp add: quiet_def)
  from delete_refined [OF this key del] have "store_view x st ?s = (store_view x st s)(k := None)"
    by (simp add: delete_refines_def)
  moreover have "open_object st k ?s = (Err (StorageNotFound (key_str k)), ?s)"
    using q by (intro open_object_absent [OF p]) (simp_all add: quiet_def)
  ultimately show ?thesis using del by blast
qed

text \<open>A store that has just been opened on a fresh directory serves, and is empty.\<close>

lemma view_empty:
  assumes "\<And>p. is_object_path (objects_root st) p \<Longrightarrow> node_at s p = None"
  shows "store_view x st s = Map.empty"
proof
  fix k
  show "store_view x st s k = None"
  proof (cases "object_key_parse x (key_str k)")
    case (Ok k')
    then have "k' = k" by (rule parse_valid)
    with parsed_key_resolves [OF Ok, of "objects_root st"] obtain p where
      p: "resolve_within (objects_root st) k = Ok p" "is_object_path (objects_root st) p"
      by (auto simp: is_object_path_def)
    with assms [OF p(2)] show ?thesis by (simp add: store_view_def Ok file_at_def)
  qed (simp_all add: store_view_def)
qed

lemma only_dirs_above:
  assumes "only_dirs d s s'" "\<forall>p n. prefix p d \<longrightarrow> node_at s p = Some n \<longrightarrow> (\<exists>m. n = Dir m)"
    and "prefix p d" "node_at s' p = Some n"
  shows "\<exists>m. n = Dir m"
  using assms unfolding only_dirs_def by (metis option.inject)

lemma opened_store_serves:
  assumes fine: "quiet s" and root: "root \<noteq> []"
    and fresh: "\<And>p. prefix root p \<Longrightarrow> node_at s p = None"
    and above: "\<forall>p n. prefix p root \<longrightarrow> node_at s p = Some n \<longrightarrow> (\<exists>m. n = Dir m)"
  shows "\<exists>st s'. open_at (\<lambda>p. p) root s = (Ok st, s') \<and> root_dir st = root \<and> store_layout st \<and> serving x st s'
    \<and> store_view x st s' = Map.empty"
proof -
  let ?objs = "root @ [OBJECTS_DIR]" and ?stg = "root @ [STAGING_DIR]"
  from create_private_dir_fine [OF fine root above] obtain s1 where
    c1: "create_private_dir root s = (Ok (), s1)" "quiet s1" and o1: "only_dirs root s s1" by blast
  have a1: "\<forall>p n. prefix p ?objs \<longrightarrow> node_at s1 p = Some n \<longrightarrow> (\<exists>m. n = Dir m)"
  proof (intro allI impI)
    fix p n assume p: "prefix p ?objs" "node_at s1 p = Some n"
    show "\<exists>m. n = Dir m"
    proof (cases "prefix p root")
      case False
      with p(2) o1 have "node_at s p = Some n" unfolding only_dirs_def by metis
      moreover from False p(1) have "p = ?objs" unfolding prefix_snoc by blast
      ultimately show ?thesis using fresh [of p] by simp
    qed (rule only_dirs_above [OF o1 above _ p(2)])
  qed
  from create_private_dir_fine [OF c1(2) _ a1] obtain s2 where
    c2: "create_private_dir ?objs s1 = (Ok (), s2)" "quiet s2" and o2: "only_dirs ?objs s1 s2" by blast
  have tree2: "node_at s2 p = node_at s p \<or> (prefix p ?objs \<and> (\<exists>m. node_at s2 p = Some (Dir m)))" for p
    using o1 o2 unfolding only_dirs_def prefix_snoc by metis
  have a2: "\<forall>p n. prefix p ?stg \<longrightarrow> node_at s2 p = Some n \<longrightarrow> (\<exists>m. n = Dir m)"
  proof (intro allI impI)
    fix p n assume p: "prefix p ?stg" "node_at s2 p = Some n"
    show "\<exists>m. n = Dir m"
    proof (cases "node_at s2 p = node_at s p")
      case True
      with p have "node_at s p = Some n" by simp
      with fresh [of p] above p(1) show ?thesis unfolding prefix_snoc by auto
    next
      case False
      with tree2 [of p] p(2) show ?thesis by auto
    qed
  qed
  from create_private_dir_fine [OF c2(2) _ a2] obtain s3 where
    c3: "create_private_dir ?stg s2 = (Ok (), s3)" "quiet s3" and o3: "only_dirs ?stg s2 s3"
    and stg: "\<exists>m. node_at s3 ?stg = Some (Dir m)" by blast
  let ?st = "\<lparr>root_dir = root, objects_root = ?objs, staging_root = ?stg\<rparr>"
  have opened: "open_at (\<lambda>p. p) root s = (Ok ?st, s3)"
    using c1 c2 c3 by (simp add: open_at_def st_then_def st_ok_def io_call_def st_map_err_def quiet_look Let_def)
  have tree: "node_at s3 p = node_at s p
      \<or> ((prefix p ?objs \<or> prefix p ?stg) \<and> (\<exists>m. node_at s3 p = Some (Dir m)))" for p
    using tree2 [of p] o3 unfolding only_dirs_def by metis
  have below: "node_at s3 p = None" if "prefix root p" "length root + 1 < length p" for p
    using tree [of p] fresh [OF that(1)] that(2) by (auto dest: prefix_length_le)
  have object: "node_at s3 p = None" if "is_object_path ?objs p" for p
  proof (rule below)
    show "prefix root p" using that unfolding is_object_path_def by (auto dest: append_prefixD)
    show "length root + 1 < length p" using that unfolding is_object_path_def by simp
  qed
  have dirs: "\<exists>m. k = Dir m" if p: "node_at s3 p = Some k" "prefix p ?objs \<or> prefix ?objs p" for p k
  proof (cases "node_at s3 p = node_at s p")
    case True
    with p(1) have k: "node_at s p = Some k" by simp
    with fresh [of p] have "\<not> prefix root p" by auto
    moreover from this have "\<not> prefix ?objs p" by (auto dest: append_prefixD)
    ultimately have "prefix p root" using p(2) unfolding prefix_snoc by auto
    with above k show ?thesis by blast
  next
    case False
    with tree [of p] p(1) show ?thesis by auto
  qed
  have "store_dirs ?st (node_at s3)"
    unfolding store_dirs_def using stg dirs object by auto
  moreover have "node_at s3 (?stg @ [n]) = None" for n by (rule below) simp_all
  moreover have "content_ok x ?objs (node_at s3)"
    unfolding content_ok_def using object by simp
  ultimately have "serving x ?st s3" unfolding serving_def using c3(2) by simp
  moreover have "store_view x ?st s3 = Map.empty" by (rule view_empty) (simp add: object)
  moreover have "store_layout ?st" by (simp add: store_layout_def)
  ultimately show ?thesis using opened by (intro exI [of _ ?st] exI [of _ s3]) simp
qed

text \<open>
  C9: The store serves. While no call fails, a store with its directories and without leftovers
  accepts every upload whose stream has no error and every delete, and is such a store again. An
  upload is answered with the key, digest and length of what was sent, as already present exactly when
  content of that length was under the key, and the content under the key can then be opened: it has
  this digest and length, and is what was there if it was already present, and what was sent otherwise. A deleted
  key is not found.
\<close>

theorem uploads_are_served:
  assumes "uuid_documented x" "sha256_documented x" "store_layout st" "serving x st s"
  shows "(\<forall>fresh ns bss. \<exists>so c s'. put_stream x st fresh ns (map Ok bss) s = (Ok so, s') \<and> serving x st s'
      \<and> so_key so = ObjectKey (key_text x ns (content_digest x (concat bss)))
      \<and> so_sha256 so = content_digest x (concat bss) \<and> so_size_bytes so = of_nat (length (concat bss))
      \<and> so_already_present so = stored_with (so_size_bytes so) (store_view x st s (so_key so))
      \<and> store_view x st s' = (store_view x st s)(so_key so \<mapsto> c)
      \<and> content_digest x c = so_sha256 so \<and> of_nat (length c) = so_size_bytes so
      \<and> (if so_already_present so then store_view x st s (so_key so) = Some c else c = concat bss)
      \<and> open_object st (so_key so) s' = (Ok \<lparr>ob_size_bytes = so_size_bytes so, ob_content = c\<rparr>, s'))
    \<and> (\<forall>k. valid_key x k \<longrightarrow> (\<exists>s'. delete_object st k s = (Ok (), s') \<and> serving x st s'
      \<and> store_view x st s' = (store_view x st s)(k := None)
      \<and> open_object st k s' = (Err (StorageNotFound (key_str k)), s')))"
  using upload_served [OF assms] delete_served [OF assms(3,4)] by blast

lemma sample_store_dirs: "store_dirs sample_store (node_at sample_fs)"
  by (auto simp: store_dirs_def node_at_def sample_fs_def sample_store_def is_object_path_def prefix_def
      split: if_splits)

lemma sample_serving: "serving sample_externs sample_store sample_fs"
proof -
  have "node_at sample_fs (staging_root sample_store @ [n]) = None" for n
    by (simp add: node_at_def sample_fs_def sample_store_def lit_def)
  moreover have "quiet sample_fs" by (simp add: quiet_def sample_fs_def)
  ultimately show ?thesis using sample_store_dirs sample_content_ok unfolding serving_def by blast
qed

lemma uploads_are_served_witness:
  "\<exists>so c s'. put_stream sample_externs sample_store 7 sample_ns (map Ok [[0x25, 0x50], [0x44]]) sample_fs = (Ok so, s')
    \<and> serving sample_externs sample_store s'
    \<and> open_object sample_store (so_key so) s' = (Ok \<lparr>ob_size_bytes = so_size_bytes so, ob_content = c\<rparr>, s')"
  using uploads_are_served [OF sample_uuid_documented sample_sha256_documented sample_layout sample_serving]
  by blast

end
