(* ===== verification/TestsStorage.thy ===== *)
theory TestsStorage
  imports TestsCore StoreServes
begin

text \<open>
  The unit tests of \<^verbatim>\<open>crates/otdel-storage\<close>, run on the model like those of \<open>TestsCore\<close>. The random
  names of the tests are arguments; the temporary directory is the root of an empty tree, and the
  clean-up at the end of a test is left out, except where the test goes on after it.
\<close>

section \<open>\<^verbatim>\<open>key.rs\<close>\<close>

definition DIGEST :: ustr where
  "DIGEST = lit ''9f86d081884c7d659a2feaa0c55ad015a3bf4f1b2b0b822cd15d6c15b0f00a08''"

definition test_namespace :: object_namespace where
  "test_namespace = \<lparr>ns_bureau_id = 1, ns_partner_id = 2\<rparr>"

definition key_is_derived_from_namespace_and_digest :: "externs \<Rightarrow> bool" where
  "key_is_derived_from_namespace_and_digest x \<longleftrightarrow>
     (case key_for_digest x test_namespace DIGEST of
        Ok key \<Rightarrow>
          key_str key = lit ''bureau-'' @ uuid_to_string x 1 @ lit ''/partner-'' @ uuid_to_string x 2
            @ lit ''/9f/'' @ DIGEST
          \<and> key_digest key = DIGEST
      | _ \<Rightarrow> False)"

definition namespace_round_trips_through_the_key :: "externs \<Rightarrow> bool" where
  "namespace_round_trips_through_the_key x \<longleftrightarrow>
     (case key_for_digest x test_namespace DIGEST of
        Ok key \<Rightarrow> key_namespace x key = Ok test_namespace
      | _ \<Rightarrow> False)"

definition to_ascii_uppercase :: "ustr \<Rightarrow> ustr" where
  "to_ascii_uppercase s = map (\<lambda>c. if is_ascii_lowercase c then c - 32 else c) s"

definition invalid_digests_are_refused :: "externs \<Rightarrow> bool" where
  "invalid_digests_are_refused x \<longleftrightarrow>
     is_err (key_for_digest x test_namespace (lit ''../../etc/passwd''))
     \<and> is_err (key_for_digest x test_namespace (to_ascii_uppercase DIGEST))
     \<and> is_err (key_for_digest x test_namespace (lit ''abc''))"

definition traversal_keys_never_parse :: "externs \<Rightarrow> bool" where
  "traversal_keys_never_parse x \<longleftrightarrow>
     (let nil = uuid_to_string x 0;
          pair = lit ''bureau-'' @ nil @ lit ''/partner-'' @ nil
      in list_all (\<lambda>raw. is_err (object_key_parse x raw))
           [lit ''../../../etc/passwd'', lit ''bureau-x/partner-y/aa/bb'',
            pair @ lit ''/../'' @ DIGEST, pair @ lit ''/9f/'' @ replicate 64 122,
            lit ''/'' @ pair @ lit ''/9f/'' @ DIGEST, pair @ lit ''/ab/'' @ DIGEST])"

definition resolution_stays_inside_the_root :: "externs \<Rightarrow> bool" where
  "resolution_stays_inside_the_root x \<longleftrightarrow>
     (let root = [lit ''tmp'', lit ''otdel-storage'', lit ''objects'']
      in case and_then (key_for_digest x test_namespace DIGEST) (resolve_within root) of
           Ok resolved \<Rightarrow> prefix root resolved \<and> suffix [DIGEST] resolved
         | _ \<Rightarrow> False)"

text \<open>The tests of keys hold for any crates that behave as documented.\<close>

lemma DIGEST_hex: "is_sha256_hex DIGEST"
  by code_simp

lemma DIGEST_shard: "take 2 DIGEST = lit ''9f''"
  by code_simp

lemma key_tests:
  assumes "uuid_documented x"
  shows "key_is_derived_from_namespace_and_digest x" "namespace_round_trips_through_the_key x"
proof -
  have "key_text x test_namespace DIGEST
      = lit ''bureau-'' @ uuid_to_string x 1 @ lit ''/partner-'' @ uuid_to_string x 2 @ lit ''/9f/'' @ DIGEST"
    unfolding key_text_def DIGEST_shard by (simp add: test_namespace_def lit_def)
  with key_text_roundtrip [OF assms DIGEST_hex, of test_namespace]
  show "key_is_derived_from_namespace_and_digest x" "namespace_round_trips_through_the_key x"
    by (simp_all add: key_is_derived_from_namespace_and_digest_def
        namespace_round_trips_through_the_key_def key_for_digest_Ok [OF assms DIGEST_hex])
qed

lemma resolution_test:
  assumes "uuid_documented x"
  shows "resolution_stays_inside_the_root x"
proof -
  let ?root = "[lit ''tmp'', lit ''otdel-storage'', lit ''objects'']"
  from parsed_key_resolves [OF key_text_parses [OF assms DIGEST_hex, of test_namespace], of ?root]
    key_text_roundtrip(2) [OF assms DIGEST_hex, of test_namespace]
  obtain b p where "resolve_within ?root (ObjectKey (key_text x test_namespace DIGEST))
      = Ok (?root @ [lit ''bureau-'' @ b, lit ''partner-'' @ p, take 2 DIGEST, DIGEST])" by auto
  then show ?thesis
    by (simp add: resolution_stays_inside_the_root_def key_for_digest_Ok [OF assms DIGEST_hex] suffix_def)
qed

lemma digest_test: "invalid_digests_are_refused x"
proof -
  have "\<not> is_sha256_hex (lit ''../../etc/passwd'')" "\<not> is_sha256_hex (to_ascii_uppercase DIGEST)"
    "\<not> is_sha256_hex (lit ''abc'')"
    by code_simp+
  then show ?thesis by (simp add: invalid_digests_are_refused_def key_for_digest_def)
qed

lemma refused_key:
  assumes "split_on 47 raw = parts"
    and "length parts = 4 \<longrightarrow> parts ! 2 \<noteq> take 2 (parts ! 3) \<or> \<not> is_sha256_hex (parts ! 3)"
  shows "is_err (object_key_parse x raw)"
proof -
  have "\<not> key_shape x raw b p d" for b p d using assms by (auto simp: key_shape_def)
  then show ?thesis
    using object_key_parse_no_panic [of x raw] object_key_parse_Ok [of x raw]
    by (cases "object_key_parse x raw") auto
qed

lemma traversal_test:
  assumes "uuid_documented x"
  shows "traversal_keys_never_parse x"
proof -
  let ?nil = "uuid_to_string x 0"
  let ?b = "lit ''bureau-'' @ ?nil" and ?p = "lit ''partner-'' @ ?nil"
  let ?pair = "lit ''bureau-'' @ ?nil @ lit ''/partner-'' @ ?nil"
  have nil: "47 \<notin> set ?nil" using assms by (intro uuid_text_no_slash uuid_display_text)
  have dig: "split_on 47 DIGEST = [DIGEST]" by (intro split_on_clean is_sha256_hex_no_slash DIGEST_hex)
  have pair: "split_on 47 (?pair @ 47 # rest) = ?b # ?p # split_on 47 rest" for rest
  proof -
    have "?pair @ 47 # rest = ?b @ 47 # ?p @ 47 # rest" by (simp add: lit_def)
    moreover have "47 \<notin> set ?b" "47 \<notin> set ?p" using nil slash_notin by auto
    ultimately show ?thesis by (simp only: split_on_append append_assoc) (metis append_assoc split_on_append)
  qed
  have three: "split_on 47 (?pair @ 47 # a @ 47 # c) = [?b, ?p, a, c]" if "47 \<notin> set a" "47 \<notin> set c" for a c
    using that unfolding pair by (simp add: split_on_append split_on_clean)
  have "is_err (object_key_parse x (lit ''../../../etc/passwd''))"
    by (rule refused_key [OF refl]) (simp add: lit_def)
  moreover have "is_err (object_key_parse x (lit ''bureau-x/partner-y/aa/bb''))"
  proof (rule refused_key [OF refl])
    have "split_on 47 (lit ''bureau-x/partner-y/aa/bb'')
        = [lit ''bureau-x'', lit ''partner-y'', lit ''aa'', lit ''bb'']" by code_simp
    moreover have "\<not> is_sha256_hex (lit ''bb'')" by code_simp
    ultimately show "length (split_on 47 (lit ''bureau-x/partner-y/aa/bb'')) = 4 \<longrightarrow>
        split_on 47 (lit ''bureau-x/partner-y/aa/bb'') ! 2
          \<noteq> take 2 (split_on 47 (lit ''bureau-x/partner-y/aa/bb'') ! 3)
        \<or> \<not> is_sha256_hex (split_on 47 (lit ''bureau-x/partner-y/aa/bb'') ! 3)" by simp
  qed
  moreover have "is_err (object_key_parse x (?pair @ lit ''/../'' @ DIGEST))"
    using three [of "[46, 46]" DIGEST] is_sha256_hex_no_slash [OF DIGEST_hex] DIGEST_shard
    by (intro refused_key [where parts = "[?b, ?p, [46, 46], DIGEST]"]) (simp_all add: lit_def)
  moreover have "is_err (object_key_parse x (?pair @ lit ''/9f/'' @ replicate 64 122))"
  proof (rule refused_key [where parts = "[?b, ?p, lit ''9f'', replicate 64 122]"])
    show "split_on 47 (?pair @ lit ''/9f/'' @ replicate 64 122) = [?b, ?p, lit ''9f'', replicate 64 122]"
      using three [of "lit ''9f''" "replicate 64 122"] by (simp add: lit_def)
    have "\<not> is_sha256_hex (replicate 64 122)" by code_simp
    then show "length [?b, ?p, lit ''9f'', replicate 64 122] = 4 \<longrightarrow>
        [?b, ?p, lit ''9f'', replicate 64 122] ! 2 \<noteq> take 2 ([?b, ?p, lit ''9f'', replicate 64 122] ! 3)
        \<or> \<not> is_sha256_hex ([?b, ?p, lit ''9f'', replicate 64 122] ! 3)" by simp
  qed
  moreover have "is_err (object_key_parse x (lit ''/'' @ ?pair @ lit ''/9f/'' @ DIGEST))"
    using three [of "lit ''9f''" DIGEST] is_sha256_hex_no_slash [OF DIGEST_hex]
    by (intro refused_key [where parts = "[[], ?b, ?p, lit ''9f'', DIGEST]"]) (simp_all add: lit_def)
  moreover have "is_err (object_key_parse x (?pair @ lit ''/ab/'' @ DIGEST))"
    using three [of "[97, 98]" DIGEST] is_sha256_hex_no_slash [OF DIGEST_hex] DIGEST_shard
    by (intro refused_key [where parts = "[?b, ?p, [97, 98], DIGEST]"]) (simp_all add: lit_def)
  ultimately show ?thesis
    unfolding traversal_keys_never_parse_def Let_def by (simp only: list.pred_inject simp_thms append_assoc)
qed

section \<open>\<^verbatim>\<open>fs.rs\<close>\<close>

text \<open>A test on a fresh store: \<open>unwrap\<close> ends it with \<open>None\<close> when a result is not \<open>Ok\<close>.\<close>

definition unwrap :: "('e, 'a) outcome \<times> fs \<Rightarrow> ('a \<Rightarrow> fs \<Rightarrow> bool) \<Rightarrow> bool" where
  "unwrap c continue = (case c of (Ok a, s) \<Rightarrow> continue a s | _ \<Rightarrow> False)"

definition empty_tree :: "path \<Rightarrow> fs" where
  "empty_tree root = \<lparr>fs_tree = [([], Dir 0), (butlast root, Dir 0)], fs_faults = [], fs_late = [],
     fs_drop_faults = [], fs_now = 10 ^ 9, fs_dir_mode = 0\<rparr>"

definition health_checks_a_writable_tree :: "externs \<Rightarrow> path \<Rightarrow> uuid \<Rightarrow> bool" where
  "health_checks_a_writable_tree x root fresh \<longleftrightarrow>
     unwrap (open_at (\<lambda>p. p) root (empty_tree root)) (\<lambda>store s.
     unwrap (store_health x store fresh s) (\<lambda>u s.
       prefix (lit ''filesystem:'') (describe store)
       \<and> is_err (fst (store_health x store fresh
            (s\<lparr>fs_tree := filter (\<lambda>(p, n). \<not> prefix root p) (fs_tree s)\<rparr>)))))"

definition test_root :: path where
  "test_root = [lit ''t'', lit ''r'']"

lemma fs_health_test: "health_checks_a_writable_tree sample_externs test_root 7"
  by code_simp

text \<open>\<^verbatim>\<open>fs::write\<close> of the tests makes the file in one call.\<close>

definition sweep_removes_only_old_staging_files :: "path \<Rightarrow> bool" where
  "sweep_removes_only_old_staging_files root \<longleftrightarrow>
     unwrap (open_at (\<lambda>p. p) root (empty_tree root)) (\<lambda>store s.
     let leftover = root @ [STAGING_DIR] @ [lit ''abandoned.part'']
     in unwrap (sweep_staging store (3600 * 10 ^ 9)
            (put_node leftover (File 0x1A4 (utf8 (lit ''partial'')) (fs_now s)) s)) (\<lambda>untouched s.
          untouched = \<lparr>removed_files = 0, removed_bytes = 0\<rparr> \<and> node_at s leftover \<noteq> None
          \<and> unwrap (sweep_staging store 0 s) (\<lambda>swept s.
               removed_files swept = 1 \<and> removed_bytes swept = 7 \<and> node_at s leftover = None)))"

definition failed_stream_leaves_no_staging_file_and_no_object ::
    "externs \<Rightarrow> path \<Rightarrow> object_namespace \<Rightarrow> uuid \<Rightarrow> bool" where
  "failed_stream_leaves_no_staging_file_and_no_object x root namespace fresh \<longleftrightarrow>
     unwrap (open_at (\<lambda>p. p) root (empty_tree root)) (\<lambda>store s.
     case put_stream x store fresh namespace
            [Ok (utf8 (lit ''%PDF-1.7 '')), Err (stream_too_large (lit ''file exceeds the limit''))] s of
       (Err error, s) \<Rightarrow>
         map_option se_kind (storage_stream_error error) = Some TooLarge
         \<and> unwrap (read_dir (root @ [STAGING_DIR]) s) (\<lambda>staging s. staging = [])
         \<and> unwrap (read_dir (root @ [OBJECTS_DIR]) s) (\<lambda>objects s. objects = [])
     | _ \<Rightarrow> False)"

lemma fs_sweep_test: "sweep_removes_only_old_staging_files test_root"
  by code_simp

lemma fs_failed_test:
  "failed_stream_leaves_no_staging_file_and_no_object sample_externs test_root sample_ns 7"
  by code_simp

text \<open>
  The test that stores, reads, stores again and deletes. It is run for every bureau, any two partners and
  any crates that behave as documented, from the lemmas on a store that serves.
\<close>

definition stores_reads_and_deduplicates ::
    "externs \<Rightarrow> path \<Rightarrow> object_namespace \<Rightarrow> uuid \<Rightarrow> (nat \<Rightarrow> uuid) \<Rightarrow> bool" where
  "stores_reads_and_deduplicates x root namespace another fresh \<longleftrightarrow>
     unwrap (open_at (\<lambda>p. p) root (empty_tree root)) (\<lambda>store s.
     unwrap (put_stream x store (fresh 0) namespace [Ok (utf8 (lit ''%PDF-1.7 '')), Ok (utf8 (lit ''body''))] s)
       (\<lambda>first s. \<not> so_already_present first \<and> so_size_bytes first = 13 \<and>
     unwrap (put_stream x store (fresh 1) namespace [Ok (utf8 (lit ''%PDF-1.7 body''))] s)
       (\<lambda>again s. so_already_present again \<and> so_key again = so_key first \<and>
     unwrap (open_object store (so_key first) s)
       (\<lambda>body s. ob_size_bytes body = 13 \<and> ob_content body = utf8 (lit ''%PDF-1.7 body'') \<and>
     unwrap (put_stream x store (fresh 2) (namespace\<lparr>ns_partner_id := another\<rparr>) [Ok (utf8 (lit ''%PDF-1.7 body''))] s)
       (\<lambda>other s. so_key other \<noteq> so_key first \<and> so_sha256 other = so_sha256 first \<and>
     unwrap (delete_object store (so_key first) s) (\<lambda>u s.
     case open_object store (so_key first) s of
       (Err (StorageNotFound k), s) \<Rightarrow> unwrap (delete_object store (so_key first) s) (\<lambda>u s. True)
     | _ \<Rightarrow> False))))))"

lemma empty_tree_quiet: "quiet (empty_tree root)"
  by (simp add: quiet_def empty_tree_def)

lemma test_store_serves:
  "\<exists>st s. open_at (\<lambda>p. p) test_root (empty_tree test_root) = (Ok st, s) \<and> root_dir st = test_root
    \<and> store_layout st \<and> serving x st s \<and> store_view x st s = Map.empty"
proof (rule opened_store_serves [OF empty_tree_quiet])
  show "test_root \<noteq> []" by (simp add: test_root_def)
  show "node_at (empty_tree test_root) p = None" if "prefix test_root p" for p
    using that by (auto simp: node_at_def empty_tree_def test_root_def lit_def)
  show "\<forall>p n. prefix p test_root \<longrightarrow> node_at (empty_tree test_root) p = Some n \<longrightarrow> (\<exists>m. n = Dir m)"
    by (auto simp: node_at_def empty_tree_def split: if_splits)
qed

lemma unwrapI: "c = (Ok a, s) \<Longrightarrow> continue a s \<Longrightarrow> unwrap c continue"
  by (simp add: unwrap_def)

lemma test_bytes:
  "concat [utf8 (lit ''%PDF-1.7 ''), utf8 (lit ''body'')] = utf8 (lit ''%PDF-1.7 body'')"
  "length (utf8 (lit ''%PDF-1.7 body'')) = 13"
  by code_simp+

lemma fs_stores_test:
  assumes docs: "uuid_documented x" "sha256_documented x" and partner: "another \<noteq> ns_partner_id namespace"
  shows "stores_reads_and_deduplicates x test_root namespace another fresh"
proof -
  let ?pdf = "utf8 (lit ''%PDF-1.7 body'')"
  from test_store_serves [of x] obtain st s where
    opened: "open_at (\<lambda>p. p) test_root (empty_tree test_root) = (Ok st, s)"
    and layout: "store_layout st" and serving: "serving x st s"
    and absent: "store_view x st s = Map.empty" by blast
  let ?key = "\<lambda>ns. ObjectKey (key_text x ns (content_digest x ?pdf))"
  note served = upload_served [OF docs layout]
  have one: "concat [?pdf] = ?pdf" by simp
  from served [OF serving, of "fresh 0" namespace "[utf8 (lit ''%PDF-1.7 ''), utf8 (lit ''body'')]"]
  obtain first s1 where
    put1: "put_stream x st (fresh 0) namespace [Ok (utf8 (lit ''%PDF-1.7 '')), Ok (utf8 (lit ''body''))] s = (Ok first, s1)"
    and serving1: "serving x st s1" and first: "so_key first = ?key namespace" "so_size_bytes first = 13"
      "\<not> so_already_present first" "so_sha256 first = content_digest x ?pdf"
    and view1: "store_view x st s1 = (store_view x st s)(?key namespace \<mapsto> ?pdf)"
    using absent unfolding test_bytes list.map by (auto simp: stored_with_def test_bytes)
  from served [OF serving1, of "fresh 1" namespace "[?pdf]"]
  obtain again c s2 where
    put2: "put_stream x st (fresh 1) namespace [Ok ?pdf] s1 = (Ok again, s2)"
    and serving2: "serving x st s2" and again: "so_key again = ?key namespace"
    and size2: "so_size_bytes again = of_nat 13"
    and present2: "so_already_present again = stored_with (so_size_bytes again) (store_view x st s1 (so_key again))"
    and new2: "if so_already_present again then store_view x st s1 (so_key again) = Some c else c = ?pdf"
    and opened2: "open_object st (so_key again) s2 = (Ok \<lparr>ob_size_bytes = so_size_bytes again, ob_content = c\<rparr>, s2)"
    unfolding list.map one test_bytes(2) by (elim exE conjE) (rule that)
  have here: "store_view x st s1 (so_key again) = Some ?pdf" unfolding view1 again by simp
  then have present: "so_already_present again"
    unfolding present2 size2 stored_with_def using test_bytes(2) by metis
  with new2 here have "c = ?pdf" by simp
  with opened2 size2 again have open2:
    "open_object st (?key namespace) s2 = (Ok \<lparr>ob_size_bytes = 13, ob_content = ?pdf\<rparr>, s2)" by simp
  from served [OF serving2, of "fresh 2" "namespace\<lparr>ns_partner_id := another\<rparr>" "[?pdf]"]
  obtain other s3 where
    put3: "put_stream x st (fresh 2) (namespace\<lparr>ns_partner_id := another\<rparr>) [Ok ?pdf] s2 = (Ok other, s3)"
    and serving3: "serving x st s3" and other: "so_key other = ?key (namespace\<lparr>ns_partner_id := another\<rparr>)"
      "so_sha256 other = content_digest x ?pdf"
    unfolding list.map one by blast
  note k = stored_key [OF docs(1) content_digest_hex [OF docs(2)]]
  have "ns_partner_id (namespace\<lparr>ns_partner_id := another\<rparr>) \<noteq> ns_partner_id namespace" using partner by simp
  then have "namespace\<lparr>ns_partner_id := another\<rparr> \<noteq> namespace" by (rule contrapos_nn) (rule arg_cong)
  with k(3) [of namespace ?pdf] k(3) [of "namespace\<lparr>ns_partner_id := another\<rparr>" ?pdf]
  have ne: "?key (namespace\<lparr>ns_partner_id := another\<rparr>) \<noteq> ?key namespace" by (metis outcome.inject(1))
  from delete_served [OF layout serving3 k(1) [of namespace ?pdf]] obtain s4 where
    del: "delete_object st (?key namespace) s3 = (Ok (), s4)" and serving4: "serving x st s4"
    and gone: "open_object st (?key namespace) s4 = (Err (StorageNotFound (key_str (?key namespace))), s4)" by blast
  from delete_served [OF layout serving4 k(1) [of namespace ?pdf]] obtain s5 where
    del2: "delete_object st (?key namespace) s4 = (Ok (), s5)" by blast
  show ?thesis
    unfolding stores_reads_and_deduplicates_def
    by (rule unwrapI [OF opened], rule unwrapI [OF put1], intro conjI first, rule unwrapI [OF put2], intro conjI present)
      (use ne in \<open>simp_all add: again first open2 put3 other del gone del2 unwrap_def\<close>)
qed

end
