(* ===== verification/TestsApi.thy ===== *)
theory TestsApi
  imports TestsCore Auth Worker
begin

text \<open>
  The unit tests of \<^verbatim>\<open>crates/otdel-api\<close> and \<^verbatim>\<open>crates/otdel-worker\<close>, run on the model like those of
  \<open>TestsCore\<close>. \<^verbatim>\<open>Instant::now\<close> is an argument; a sequence of calls on one throttle threads its state.
\<close>

section \<open>\<^verbatim>\<open>cookie.rs\<close>\<close>

definition session_cookie_has_the_contract_attributes :: bool where
  "session_cookie_has_the_contract_attributes \<longleftrightarrow>
     (let cookie = session_cookie (lit ''otdel_session'') (lit ''abc'') 3600 False
      in prefix (lit ''otdel_session=abc;'') cookie
         \<and> sublist (lit ''HttpOnly'') cookie \<and> sublist (lit ''SameSite=Strict'') cookie
         \<and> sublist (lit ''Path=/'') cookie \<and> sublist (lit ''Max-Age=3600'') cookie
         \<and> \<not> sublist (lit ''Secure'') cookie)
     \<and> sublist (lit ''; Secure'') (session_cookie (lit ''otdel_session'') (lit ''abc'') 3600 True)
     \<and> sublist (lit ''Max-Age=0'') (cleared_cookie (lit ''otdel_session'') False)"

definition reads_the_right_cookie_only :: bool where
  "reads_the_right_cookie_only \<longleftrightarrow>
     (let header = lit ''other=1; otdel_session=token-value; trailing=2''
      in read_cookie header (lit ''otdel_session'') = Some (lit ''token-value'')
         \<and> read_cookie header (lit ''otdel'') = None)
     \<and> read_cookie [] (lit ''otdel_session'') = None
     \<and> read_cookie (lit ''otdel_session='') (lit ''otdel_session'') = Some []
     \<and> read_cookie (lit ''malformed'') (lit ''otdel_session'') = None"

lemma cookie_tests: "session_cookie_has_the_contract_attributes" "reads_the_right_cookie_only"
  by code_simp+

section \<open>\<^verbatim>\<open>auth/mod.rs\<close>\<close>

definition state_changing_methods_require_csrf :: bool where
  "state_changing_methods_require_csrf \<longleftrightarrow>
     changes_state POST \<and> changes_state PATCH \<and> changes_state DELETE
     \<and> \<not> changes_state GET \<and> \<not> changes_state HEAD \<and> \<not> changes_state OPTIONS"

text \<open>A request with no headers, and \<^verbatim>\<open>HeaderMap::insert\<close>.\<close>

definition bare_request :: request where
  "bare_request = \<lparr>rq_method = POST, rq_headers = (\<lambda>n. Absent), rq_peer_ip = None\<rparr>"

definition put_header :: "string \<Rightarrow> ustr \<Rightarrow> request \<Rightarrow> request" where
  "put_header name value rq =
     rq\<lparr>rq_headers := (\<lambda>n. if n = lit name then HeaderText value else rq_headers rq n)\<rparr>"

definition error_code_of :: "(api_error, 'a) outcome \<Rightarrow> error_code option" where
  "error_code_of r = (case r of Err e \<Rightarrow> Some (api_code e) | _ \<Rightarrow> None)"

definition csrf_header_must_match_exactly :: "externs \<Rightarrow> (nat \<Rightarrow> bytes) \<Rightarrow> bool" where
  "csrf_header_must_match_exactly x rand \<longleftrightarrow>
     (let expected = generate_token x rand
      in error_code_of (check_csrf x bare_request expected) = Some InvalidCsrfToken
         \<and> error_code_of (check_csrf x (put_header ''x-csrf-token'' (lit ''wrong'') bare_request) expected)
             = Some InvalidCsrfToken
         \<and> is_ok (check_csrf x (put_header ''x-csrf-token'' expected bare_request) expected))"

text \<open>\<^verbatim>\<open>config_with_origin\<close>: a configuration that loads with one allowed origin.\<close>

definition config_with_origin ::
    "externs \<Rightarrow> (ustr \<Rightarrow> ustr option) \<Rightarrow> ustr \<Rightarrow> ustr \<Rightarrow> (app_error, config) outcome" where
  "config_with_origin x parse_addr hash origin =
     config_load x parse_addr
       (env_insert (env_insert (env_insert (\<lambda>k. None)
         ''OTDEL_DATABASE_URL'' (lit ''postgres://otdel_app:pw@127.0.0.1:58432/otdel''))
         ''OTDEL_OWNER_PASSWORD_HASH'' hash)
         ''OTDEL_CORS_ALLOWED_ORIGINS'' origin)"

definition foreign_origins_are_refused_and_missing_origin_is_allowed ::
    "externs \<Rightarrow> (ustr \<Rightarrow> ustr option) \<Rightarrow> ustr \<Rightarrow> bool" where
  "foreign_origins_are_refused_and_missing_origin_is_allowed x parse_addr hash \<longleftrightarrow>
     (case config_with_origin x parse_addr hash (lit ''http://127.0.0.1:15173'') of
        Ok config \<Rightarrow>
          is_ok (check_origin bare_request config)
          \<and> is_ok (check_origin (put_header ''origin'' (lit ''http://127.0.0.1:15173'') bare_request) config)
          \<and> error_code_of (check_origin (put_header ''origin'' (lit ''http://evil.test'') bare_request) config)
              = Some Forbidden
      | _ \<Rightarrow> False)"

lemma method_test: "state_changing_methods_require_csrf"
  by code_simp

text \<open>The token is any that is not the word the test sends first.\<close>

lemma csrf_test:
  assumes "ct_eq_documented x" "generate_token x rand \<noteq> []" "utf8 (generate_token x rand) \<noteq> utf8 (lit ''wrong'')"
  shows "csrf_header_must_match_exactly x rand"
  using assms(2,3)
  by (auto simp: csrf_header_must_match_exactly_def Let_def check_csrf_def header_str_def bare_request_def
      put_header_def error_code_of_def tokens_match_iff [OF assms(1)])

lemma origin_test:
  "foreign_origins_are_refused_and_missing_origin_is_allowed sample_externs Some (lit ''$argon2id$local-owner-password'')"
proof -
  let ?env = "env_insert (env_insert (env_insert (\<lambda>k. None)
         ''OTDEL_DATABASE_URL'' (lit ''postgres://otdel_app:pw@127.0.0.1:58432/otdel''))
         ''OTDEL_OWNER_PASSWORD_HASH'' (lit ''$argon2id$local-owner-password''))
         ''OTDEL_CORS_ALLOWED_ORIGINS'' (lit ''http://127.0.0.1:15173'')"
  have "is_ok (config_load sample_externs Some ?env)" by code_simp
  then obtain c where c: "config_load sample_externs Some ?env = Ok c" by (auto simp: is_ok_iff)
  have "load_origins ?env = Ok [lit ''http://127.0.0.1:15173'']" by code_simp
  with config_parts [OF c] have "cors_allowed_origins c = [lit ''http://127.0.0.1:15173'']" by simp
  then show ?thesis
    by (simp add: foreign_origins_are_refused_and_missing_origin_is_allowed_def config_with_origin_def c
        check_origin_def header_str_def bare_request_def put_header_def error_code_of_def)
qed

section \<open>\<^verbatim>\<open>auth/throttle.rs\<close>\<close>

definition test_throttle :: "u32 \<Rightarrow> throttle_config" where
  "test_throttle n = \<lparr>max_failures = n, window = 900 * 10 ^ 9, lockout = 300 * 10 ^ 9\<rparr>"

text \<open>\<open>attempt_is\<close> makes an attempt, asserts its result and goes on.\<close>

definition attempt_is ::
    "(duration, unit) outcome \<Rightarrow> throttle_config \<Rightarrow> string \<Rightarrow> instant \<Rightarrow> (throttle_state \<Rightarrow> bool)
      \<Rightarrow> throttle_state \<Rightarrow> bool" where
  "attempt_is expected c key now continue m =
     (case reserve_at c (lit key) now m of (r, m) \<Rightarrow> r = expected \<and> continue m)"

definition attempt_refused ::
    "throttle_config \<Rightarrow> string \<Rightarrow> instant \<Rightarrow> (throttle_state \<Rightarrow> bool) \<Rightarrow> throttle_state \<Rightarrow> bool" where
  "attempt_refused c key now continue m =
     (case reserve_at c (lit key) now m of (r, m) \<Rightarrow> is_err r \<and> continue m)"

definition attempts_are_counted_before_verification :: "instant \<Rightarrow> bool" where
  "attempts_are_counted_before_verification now \<longleftrightarrow>
     (let c = test_throttle 3
      in attempt_is (Ok ()) c ''a'' now (attempt_is (Ok ()) c ''a'' now (attempt_is (Ok ()) c ''a'' now (
         attempt_is (Err (300 * 10 ^ 9)) c ''a'' now (
         attempt_is (Ok ()) c ''b'' now (\<lambda>m. True))))) throttle_new)"

definition lockout_expires_and_success_clears_the_counter :: "instant \<Rightarrow> bool" where
  "lockout_expires_and_success_clears_the_counter now \<longleftrightarrow>
     (let c = test_throttle 2; later = now + 301 * 10 ^ 9
      in attempt_is (Ok ()) c ''a'' now (attempt_is (Ok ()) c ''a'' now (attempt_refused c ''a'' now (
         attempt_is (Ok ()) c ''a'' later (\<lambda>m.
         attempt_is (Ok ()) c ''a'' later (attempt_is (Ok ()) c ''a'' later (\<lambda>m. True))
           (record_success (lit ''a'') m))))) throttle_new)"

definition attempts_outside_the_window_do_not_accumulate :: "instant \<Rightarrow> bool" where
  "attempts_outside_the_window_do_not_accumulate now \<longleftrightarrow>
     (let c = test_throttle 3; later = now + 1000 * 10 ^ 9
      in attempt_is (Ok ()) c ''a'' now (attempt_is (Ok ()) c ''a'' now (
         attempt_is (Ok ()) c ''a'' later (attempt_is (Ok ()) c ''a'' later (attempt_is (Ok ()) c ''a'' later (
         attempt_refused c ''a'' later (\<lambda>m. True)))))) throttle_new)"

lemma throttle_tests:
  "attempts_are_counted_before_verification 5" "lockout_expires_and_success_clears_the_counter 5"
  "attempts_outside_the_window_do_not_accumulate 5"
  by code_simp+

text \<open>
  The test with 16 threads of 25 attempts each: the model counts the attempts in the order in which
  the threads get the mutex, so a run of the test is the list of the instants they read. It holds
  for every such list of a burst shorter than the lockout.
\<close>

definition concurrent_burst_is_bounded_by_the_limit :: "instant list \<Rightarrow> bool" where
  "concurrent_burst_is_bounded_by_the_limit nows \<longleftrightarrow>
     admitted (reserve_at (test_throttle 10)) record_success (lit ''burst'')
       (map (Attempt (lit ''burst'')) nows) throttle_new = 10"

lemma attempts_of_map_Attempt [simp]: "attempts_of k (map (Attempt k) ts) = length ts"
  by (induction ts) (simp_all add: attempts_of_def)

lemma burst_test:
  assumes "length nows = 16 * 25" "\<forall>t\<in>set nows. t0 \<le> t \<and> t \<le> t0 + 299 * 10 ^ 9"
  shows "concurrent_burst_is_bounded_by_the_limit nows"
proof -
  have "allowed_events (in_interval (test_throttle 10) t0 (299 * 10 ^ 9)) (lit ''burst'')
      (map (Attempt (lit ''burst'')) nows)"
    using assms(2) by (auto simp: allowed_events_def in_interval_def test_throttle_def)
  from throttle.admitted_exact [OF this, of throttle_new] show ?thesis
    using assms(1)
    by (simp add: concurrent_burst_is_bounded_by_the_limit_def throttle_new_def settled_def settled_entry_def
        interval_budget_def entry_budget_def test_throttle_def)
qed

section \<open>\<^verbatim>\<open>otdel-worker\<close>\<close>

definition default_settings_are_bounded :: bool where
  "default_settings_are_bounded \<longleftrightarrow>
     60 * 10 ^ 9 \<le> ms_interval default_settings
     \<and> 600 * 10 ^ 9 \<le> ms_staging_max_age default_settings
     \<and> 0 < ms_orphan_scan_limit default_settings"

lemma worker_test: "default_settings_are_bounded"
  by (simp add: default_settings_are_bounded_def default_settings_def)

end
