(* ===== verification/Spec2Isabelle.thy ===== *)
theory Spec2Isabelle
  imports HashPermits SignIn StoreReturns StoreSpec WorkerFacts BinaryFacts ConcurrentPut
    StoreServes TestsStorage TestsApi
begin

text \<open>
  \<^bold>\<open>OTDEL: a document intake.\<close> The owner of a bureau signs in with a password, keeps cards of partners
  and uploads their original PDF, PNG and JPEG files. An original is streamed into a content-addressed
  object store, recorded as a material in PostgreSQL together with an entry of the extraction queue,
  listed, downloaded and, if its extraction failed, retried. A worker purges sessions, recovers jobs with
  expired leases, sweeps staging files and reports objects without a row. This development models the
  Rust implementation (\<^verbatim>\<open>crates/\<close> and \<^verbatim>\<open>apps/*/src/main.rs\<close>) and proves what makes it correct.

  \<^bold>\<open>How the code is modelled.\<close> \<open>RustBase\<close> is the prelude: characters, strings, \<^verbatim>\<open>Result\<close> with a third
  outcome \<open>Panic\<close> (a panic, or the request going away at an \<^verbatim>\<open>await\<close>), stateful code as functions from a
  state to an outcome and a state, and the invariants such code keeps on every exit (\<open>st_keeps\<close>). Structs are
  records, enums datatypes, \<^verbatim>\<open>u8\<close> to \<^verbatim>\<open>u64\<close> words; a database number is an \<open>int\<close> whose range the statement
  checks. Third-party crates are the record \<open>externs\<close> of the theory \<open>Externs\<close> and a few arguments; what is
  used of them are the hypotheses \<open>uuid_documented\<close>, \<open>sha256_documented\<close>, \<open>ct_eq_documented\<close>,
  \<open>base64_documented\<close>, \<open>random_fills\<close>, \<open>argon2_documented\<close> and \<open>header_documented\<close>, which
  \<open>sample_externs\<close> and the samples beside it satisfy. No hypothesis says that a hash has no collisions.

  \<^bold>\<open>The parts, and the theories that model them.\<close>
    \<^item> \<^verbatim>\<open>otdel-core\<close>: \<open>AppErrors\<close> (\<^verbatim>\<open>error.rs\<close>), \<open>Media\<close> (\<^verbatim>\<open>media.rs\<close>), \<open>Model\<close> (\<^verbatim>\<open>model.rs\<close>),
      \<open>Validate\<close> (\<^verbatim>\<open>validate.rs\<close>), \<open>Secret\<close> (\<^verbatim>\<open>secret.rs\<close>), \<open>Config\<close> and \<open>ConfigFacts\<close> (\<^verbatim>\<open>config.rs\<close>).
    \<^item> \<^verbatim>\<open>otdel-storage\<close>: \<open>ObjectKey\<close> (\<^verbatim>\<open>key.rs\<close>), \<open>StorageErrors\<close> (\<^verbatim>\<open>error.rs\<close>), \<open>FileSystem\<close> (the part of
      \<^verbatim>\<open>tokio::fs\<close> it uses, with a fault for every call and dropped futures) and \<open>FsStore\<close> (\<^verbatim>\<open>fs.rs\<close>,
      \<^verbatim>\<open>lib.rs\<close>). \<open>FsInvariants\<close>, \<open>StorePut\<close>, \<open>StoreOps\<close>, \<open>StoreSweep\<close>, \<open>StoreList\<close>, \<open>StoreReturns\<close>,
      \<open>StoreKeeps\<close>, \<open>StoreServes\<close> and \<open>StoreSpec\<close> hold what its operations promise. \<open>Concurrent\<close> has the
      uploads, sweeps, health checks and reads as tasks that make one call of the file system at a
      time; \<open>ConcurrentFacts\<close>, \<open>ConcurrentSafe\<close>, \<open>ConcurrentPool\<close> and \<open>ConcurrentPut\<close> are about any
      number of them at work on one tree.
    \<^item> \<^verbatim>\<open>otdel-db\<close>: \<open>Db\<close> (the tables and constraints of \<^verbatim>\<open>migrations/0001_schema.sql\<close>, \<^verbatim>\<open>error.rs\<close>,
      \<^verbatim>\<open>tenancy.rs\<close>), \<open>DbRepo\<close> (\<^verbatim>\<open>partners.rs\<close>, \<^verbatim>\<open>materials.rs\<close>, \<^verbatim>\<open>jobs.rs\<close>), \<open>DbSessions\<close> (\<^verbatim>\<open>sessions.rs\<close> and
      the SQL functions it calls), \<open>DbAdmin\<close> (\<^verbatim>\<open>lib.rs\<close>). \<open>DbInvariants\<close>, \<open>SessionTables\<close>, \<open>SessionLife\<close> and
      \<open>DbFacts\<close> hold what the statements keep and return.
    \<^item> \<^verbatim>\<open>otdel-api\<close>: \<open>Throttle\<close> and \<open>HashPermits\<close> (\<^verbatim>\<open>auth/throttle.rs\<close>), \<open>Cookie\<close>, \<open>Auth\<close> (\<^verbatim>\<open>auth/mod.rs\<close>),
      \<open>ApiErrors\<close> (\<^verbatim>\<open>error.rs\<close>, \<^verbatim>\<open>dto.rs\<close>), \<open>Extract\<close>, \<open>Upload\<close>, \<open>Routes\<close> and \<open>SessionRoutes\<close>
      (\<^verbatim>\<open>routes/\<close>), \<open>Router\<close> (\<^verbatim>\<open>routes/mod.rs\<close>, \<^verbatim>\<open>health.rs\<close>), \<open>Startup\<close> (\<^verbatim>\<open>lib.rs\<close>, \<^verbatim>\<open>state.rs\<close>).
    \<^item> \<^verbatim>\<open>otdel-worker\<close>: \<open>Worker\<close>; the two processes: \<open>Binaries\<close>.
    \<^item> The unit tests of the crates: \<open>TestsCore\<close>, \<open>TestsStorage\<close>, \<open>TestsApi\<close>.

  The state of the running program is the record \<open>world\<close> of \<open>Upload\<close>: the database, the file system, the
  throttle and the orphans that were logged.

  \<^bold>\<open>What is proved, and where.\<close>
    \<^item> The store: what a successful, failed or dropped upload leaves behind, under every pattern of
      failing calls (\<open>StorePut\<close>); what is read, deleted, swept and listed; and that all of it is, seen
      from outside, a map from keys to contents (\<open>store_view\<close> in \<open>StoreSpec\<close>). While no call fails,
      uploads and deletes succeed, uploads can be read back, and a store opened on a fresh directory is
      one of which this holds (\<open>StoreServes\<close>).
    \<^item> The store under concurrency: with the calls of any number of uploads, sweeps, health checks and
      reads interleaved, failing or dropped, stored objects hash to their names and stay, every task
      that ends has kept the promise of its operation (\<open>pool_run_safe\<close>), an upload ends after a bounded
      number of its own steps, and alone its steps are \<open>put_stream\<close> (\<open>ConcurrentPut\<close>).
    \<^item> The intake: the format is decided as on the whole content, and an accepted file is one complete
      file within the limit (\<open>UploadFacts\<close>).
    \<^item> The tables: every statement, handler and pass keeps the constraints, the rows of other bureaus and
      the recorded originals (\<open>DbInvariants\<close>, \<open>RouteKeeps\<close>, \<open>RequestEffects\<close>, \<open>BinaryFacts\<close>).
    \<^item> The transactions: what recording, repeating and retrying an upload does, on every branch
      (\<open>Publishing\<close>, \<open>Retrying\<close>).
    \<^item> Sessions: sign-in, the gate, the life of a session (\<open>SignIn\<close>, \<open>Auth\<close>, \<open>SessionLife\<close>); the throttle
      and the permits as state machines.
    \<^item> The system: any number of uploads in progress, all other requests, the worker, provisioning and
      time, interleaved at the steps of an upload (\<open>system_step\<close> in \<open>System\<close>). In every reachable state
      what is recorded is stored and readable (\<open>StoredOriginals\<close>), the upload handler is a run of
      these steps, and downloads serve the original (\<open>Downloads\<close>).
    \<^item> The worker and the processes (\<open>WorkerFacts\<close>, \<open>Startup\<close>, \<open>BinaryFacts\<close>).
    \<^item> The model passes the unit tests of the code it models (\<open>TestsCore\<close> and the two beside it): the
      expected values in them were written for the program, not for the model.

  \<^bold>\<open>Interfaces.\<close> \<open>wire_reader\<close> and \<open>wire_codec\<close>: the \<^verbatim>\<open>as_str\<close>/\<^verbatim>\<open>parse\<close> pairs. \<open>tree_invariant\<close>: a property
  of the files that the allowed operations keep, lifted through the calls of the store; its
  interpretations are content addressing, the frame of an upload, presence of objects and what a sweep may do.
  \<open>task_machine\<close>: an operation made of single calls, each of which keeps its own assertion and those of all
  others; its interpretations are the upload, the sweep, the health check and the read.
  \<open>rate_limiter\<close> and \<open>exact_rate_limiter\<close>: a budget of attempts. \<open>tx_property\<close>, \<open>tx_invariant\<close> and
  \<open>session_invariant\<close>: properties of the tables that the statements inside and outside a scoped
  transaction keep; \<open>reader_invariant\<close> and \<open>handler_invariant\<close> lift them through the handlers, and are
  interpreted at the constraints, at the rows of other bureaus and at the recorded originals.

  \<^bold>\<open>Bounds.\<close> Loops are structural recursion over the chunks, entries, fields or keys. The walk of
  \<^verbatim>\<open>list_objects\<close> is a \<open>function\<close> whose measure \<open>walk_weight\<close> counts the directories that can still be
  pushed: at most three levels below the root, each with at most as many entries as the tree has
  nodes. An upload of \<open>n\<close> chunks is at most \<open>n + 15\<close> steps of its task (\<open>ConcurrentPut\<close>). There is
  no fuel in the model.

  \<^bold>\<open>Not modelled.\<close> The interleaved whole of \<open>System\<close> takes a call of \<open>put_stream\<close> as one step; the
  interleaving of its single calls with other uploads, sweeps, health checks and reads is the subject of
  \<open>Concurrent\<close>; listings only read, and no part of the program deletes an object. A transaction is atomic (its effects appear at the commit, with the outcome of the
  commit possibly lost), and a connection is not lost inside PostgreSQL half-way through a statement.
  The JSON of requests and responses is written and read by code that serde generates, which is not in the
  repository: the model has the values on either side of it. Log events, the trace and CORS layers of
  tower (only their settings), connecting and migrating inside sqlx and the web application in TypeScript
  are left out, and so are the unit tests about JSON, about the timing of real password hashes, and one test
  of the store, whose assertions about listings \<open>StoreList\<close> proves for every tree.
  Extraction of documents is not part of the program.
\<close>

end
